theory Spec2Isabelle
  imports Main "HOL-Library.Word"
begin

unbundle bit_operations_syntax

section \<open>Machine types and fatal outcomes\<close>

text \<open>
  The embedding follows \<^verbatim>\<open>src/gc/windows/gcenv.windows.cpp\<close>. The processor-group code
  and the cache-size code are modelled as they compile for the 64-bit Windows targets
  (\<^verbatim>\<open>_TARGET_AMD64_\<close>, \<^verbatim>\<open>_TARGET_ARM64_\<close>): the configuration in which the
  processor-group code is present. There \<^verbatim>\<open>size_t\<close>, \<^verbatim>\<open>DWORD_PTR\<close> and \<^verbatim>\<open>uint64_t\<close> are
  64 bits wide, \<^verbatim>\<open>DWORD\<close>, \<^verbatim>\<open>ULONG\<close> and \<^verbatim>\<open>int\<close> 32 bits, \<^verbatim>\<open>WORD\<close> 16 bits and
  \<^verbatim>\<open>BYTE\<close> 8 bits. The code that computes the restricted physical memory limit is
  modelled for both widths of \<^verbatim>\<open>size_t\<close>, 64 bits and the 32 bits of the x86 and ARM
  builds; the width is a type parameter there. Unsigned arithmetic wraps around, as the
  operations on \<open>'a word\<close> do.

  A call returns, ends the process, or does not end at all. \<^verbatim>\<open>assert\<close> and \<^verbatim>\<open>_ASSERTE\<close>
  are modelled as checked: a failed assertion is the outcome \<open>AssertionFailed\<close>. An integer
  division by zero is the outcome \<open>DivideByZero\<close>, a read through a pointer that has left
  its buffer the outcome \<open>InvalidRead\<close>, and a loop that never ends the outcome
  \<open>LoopsForever\<close>.
\<close>

type_synonym BYTE = "8 word"
type_synonym WORD = "16 word"
type_synonym DWORD = "32 word"
type_synonym DWORD_PTR = "64 word"
type_synonym size_t = "64 word"
type_synonym uint64_t = "64 word"

datatype fatal = AssertionFailed | DivideByZero | InvalidRead | LoopsForever

section \<open>Write watch\<close>

text \<open>
  What one call of the operating system's \<^verbatim>\<open>::GetWriteWatch\<close> hands back: its return
  value (0 on success), the page addresses written to the caller's buffer, their count, and
  the granularity it reports.
\<close>

record WriteWatchReply =
  ww_return :: DWORD
  ww_pageAddresses :: "size_t list"
  ww_pageAddressesCount :: size_t
  ww_granularity :: DWORD

text \<open>
  \<^verbatim>\<open>GCToOSInterface::GetWriteWatch\<close>. The macro \<^verbatim>\<open>OS_PAGE_SIZE\<close> is defined in a header
  that is not part of the sources at hand and is a parameter here; \<open>os\<close> is the operating
  system's answer to the call with the given flags, address, size and buffer capacity. The
  result is the returned \<^verbatim>\<open>bool\<close> with the contents of the two out-parameters.
\<close>

definition GetWriteWatch ::
  "DWORD \<Rightarrow> (DWORD \<Rightarrow> size_t \<Rightarrow> size_t \<Rightarrow> size_t \<Rightarrow> WriteWatchReply) \<Rightarrow>
   bool \<Rightarrow> size_t \<Rightarrow> size_t \<Rightarrow> size_t \<Rightarrow> fatal + (bool \<times> size_t list \<times> size_t)" where
  "GetWriteWatch OS_PAGE_SIZE os resetState address sz pageAddressesCount =
     (let flags = (if resetState then 1 else 0);
          reply = os flags address sz pageAddressesCount;
          success = (ww_return reply = 0)
      in if success
         then (if ww_granularity reply = OS_PAGE_SIZE
               then Inr (success, ww_pageAddresses reply, ww_pageAddressesCount reply)
               else Inl AssertionFailed)
         else Inr (success, ww_pageAddresses reply, ww_pageAddressesCount reply))"

section \<open>Number of processors of the current process\<close>

text \<open>
  The loop \<^verbatim>\<open>while (pmask) { pmask &= (pmask - 1); count++; }\<close> of
  \<^verbatim>\<open>GetCurrentProcessCpuCount\<close>, with \<^verbatim>\<open>count\<close> an \<^verbatim>\<open>int\<close>.
\<close>

function count_mask_bits :: "DWORD_PTR \<Rightarrow> DWORD \<Rightarrow> DWORD" where
  "count_mask_bits pmask count =
     (if pmask \<noteq> 0 then count_mask_bits (pmask AND (pmask - 1)) (count + 1) else count)"
  by pat_completeness auto
termination
proof (relation "measure (\<lambda>(pmask, count). unat pmask)")
  show "wf (measure (\<lambda>(pmask :: DWORD_PTR, count :: DWORD). unat pmask))"
    by simp
next
  fix pmask :: DWORD_PTR and count :: DWORD
  assume nz: "pmask \<noteq> 0"
  have "pmask AND (pmask - 1) \<le> pmask - 1"
    by (rule word_and_le1)
  then have "unat (pmask AND (pmask - 1)) \<le> unat (pmask - 1)"
    by (simp add: word_le_nat_alt)
  also have "unat (pmask - 1) < unat pmask"
    using nz by (rule measure_unat)
  finally show "((pmask AND (pmask - 1), count + 1), (pmask, count))
                  \<in> measure (\<lambda>(pmask, count). unat pmask)"
    by simp
qed

declare count_mask_bits.simps [simp del]

text \<open>
  \<^verbatim>\<open>GCToOSInterface::GetCurrentProcessCpuCount\<close>. The function-local
  \<^verbatim>\<open>static int cCPUs\<close> is passed in and returned; \<open>affinity\<close> is the answer of
  \<^verbatim>\<open>GetProcessAffinityMask\<close>: \<open>None\<close> when the call fails, otherwise the process and
  the system mask. The comparison \<^verbatim>\<open>count > 64\<close> is one of signed integers.
\<close>

definition GetCurrentProcessCpuCount ::
  "(DWORD_PTR \<times> DWORD_PTR) option \<Rightarrow> DWORD \<Rightarrow> DWORD \<times> DWORD" where
  "GetCurrentProcessCpuCount affinity cCPUs =
     (if cCPUs \<noteq> 0 then (cCPUs, cCPUs)
      else
        let count =
          (case affinity of
             None \<Rightarrow> 1
           | Some (pmask, smask) \<Rightarrow>
               (let count = count_mask_bits (pmask AND smask) 0
                in if count = 0 \<or> 64 <s count then 64 else count))
        in (count, count))"

text \<open>The population count of a mask: the number of its bits that are set.\<close>

definition popcount :: "'a::len word \<Rightarrow> nat" where
  "popcount w = length (filter (bit w) [0..<LENGTH('a)])"

text \<open>
  The same count on natural numbers, by halving: the form the proofs work with.
\<close>

fun pop_nat :: "nat \<Rightarrow> nat" where
  "pop_nat n = (if n = 0 then 0 else n mod 2 + pop_nat (n div 2))"

declare pop_nat.simps [simp del]

section \<open>Restricted physical memory limit\<close>

text \<open>
  This code compiles for every Windows target, and its own comments speak of 32-bit
  processes ("For 32-bit processes the virtual address range could be smaller than the
  amount of physical memory on the machine/in the container, we need to restrict by the
  VM"). It is therefore modelled for any width of \<^verbatim>\<open>size_t\<close>: a value of that type is an
  \<open>'a word\<close>, where \<open>'a\<close> is the numeral type \<open>64\<close> on AMD64 and ARM64 and \<open>32\<close> on x86
  and ARM. \<^verbatim>\<open>uint64_t\<close> and \<^verbatim>\<open>DWORDLONG\<close> are 64 bits wide on every target. A conversion
  between the two is \<open>ucast\<close>: it extends with zeros from \<^verbatim>\<open>size_t\<close> to \<^verbatim>\<open>uint64_t\<close> and
  drops the high bits the other way.

  The fields of \<^verbatim>\<open>MEMORYSTATUSEX\<close> and of \<^verbatim>\<open>JOBOBJECT_EXTENDED_LIMIT_INFORMATION\<close>
  (with the \<^verbatim>\<open>BasicLimitInformation\<close> members inlined) that the code reads; the three
  quotas are \<^verbatim>\<open>SIZE_T\<close> fields. The three limit flags are constants of the Windows
  headers.
\<close>

record MEMORYSTATUSEX =
  dwMemoryLoad :: DWORD
  ullTotalPhys :: uint64_t
  ullAvailPhys :: uint64_t
  ullAvailPageFile :: uint64_t
  ullTotalVirtual :: uint64_t
  ullAvailVirtual :: uint64_t

record (overloaded) ('a::len) JOBOBJECT_EXTENDED_LIMIT_INFORMATION =
  LimitFlags :: DWORD
  MaximumWorkingSetSize :: "'a word"
  ProcessMemoryLimit :: "'a word"
  JobMemoryLimit :: "'a word"

definition JOB_OBJECT_LIMIT_WORKINGSET :: DWORD where
  "JOB_OBJECT_LIMIT_WORKINGSET = 0x00000001"

definition JOB_OBJECT_LIMIT_PROCESS_MEMORY :: DWORD where
  "JOB_OBJECT_LIMIT_PROCESS_MEMORY = 0x00000100"

definition JOB_OBJECT_LIMIT_JOB_MEMORY :: DWORD where
  "JOB_OBJECT_LIMIT_JOB_MEMORY = 0x00000200"

text \<open>\<^verbatim>\<open>(size_t)UINTPTR_MAX\<close>: all bits set, at the width of \<^verbatim>\<open>size_t\<close>.\<close>

definition UINTPTR_MAX :: "'a::len word" where
  "UINTPTR_MAX = - 1"

text \<open>
  What the operating system answers while the limit is computed: whether
  \<^verbatim>\<open>LoadLibraryEx\<close> returned a handle, whether \<^verbatim>\<open>GetProcAddress\<close> found each of the
  three entry points, the outcome of \<^verbatim>\<open>IsProcessInJob\<close> (\<open>None\<close>: the call failed,
  otherwise the value stored in \<^verbatim>\<open>in_job_p\<close>), the outcome of
  \<^verbatim>\<open>QueryInformationJobObject\<close> (\<open>None\<close>: the call failed) and the outcome of
  \<^verbatim>\<open>GlobalMemoryStatusEx\<close> (\<open>None\<close>: the call failed).
\<close>

record (overloaded) ('a::len) memory_os =
  LoadLibraryEx_kernel32 :: bool
  has_IsProcessInJob :: bool
  IsProcessInJob :: "bool option"
  has_K32GetProcessMemoryInfo :: bool
  has_QueryInformationJobObject :: bool
  QueryInformationJobObject :: "'a JOBOBJECT_EXTENDED_LIMIT_INFORMATION option"
  GlobalMemoryStatusEx :: "MEMORYSTATUSEX option"

text \<open>
  The file-level variables the computation reads and writes. \<open>GCGetProcessMemoryInfo\<close>
  records whether the function pointer is set.
\<close>

record (overloaded) ('a::len) memory_globals =
  g_RestrictedPhysicalMemoryLimit :: "'a word"
  g_UseRestrictedVirtualMemory :: bool
  GCGetProcessMemoryInfo :: bool

definition initial_memory_globals :: "'a::len memory_globals" where
  "initial_memory_globals =
     \<lparr>g_RestrictedPhysicalMemoryLimit = UINTPTR_MAX,
      g_UseRestrictedVirtualMemory = False,
      GCGetProcessMemoryInfo = False\<rparr>"

text \<open>\<^verbatim>\<open>GetProcessMemoryLoad\<close>: the call and its \<^verbatim>\<open>assert(fRet)\<close>.\<close>

definition GetProcessMemoryLoad :: "'a::len memory_os \<Rightarrow> fatal + MEMORYSTATUSEX" where
  "GetProcessMemoryLoad os =
     (case GlobalMemoryStatusEx os of None \<Rightarrow> Inl AssertionFailed | Some ms \<Rightarrow> Inr ms)"

text \<open>
  The three quotas and their minimum, clamped to the total physical memory: the value of
  \<^verbatim>\<open>job_physical_memory_limit\<close> once the job's limit information has been read. The last
  \<^verbatim>\<open>min\<close> compares a \<^verbatim>\<open>size_t\<close> with the \<^verbatim>\<open>DWORDLONG\<close> \<^verbatim>\<open>ms.ullTotalPhys\<close>, so it is
  taken at 64 bits, and its result is cast back to \<^verbatim>\<open>size_t\<close>.
\<close>

definition job_limit_from_info ::
  "'a::len JOBOBJECT_EXTENDED_LIMIT_INFORMATION \<Rightarrow> MEMORYSTATUSEX \<Rightarrow> 'a word" where
  "job_limit_from_info limit_info ms =
     (let job_memory_limit =
            (if LimitFlags limit_info AND JOB_OBJECT_LIMIT_JOB_MEMORY \<noteq> 0
             then JobMemoryLimit limit_info else UINTPTR_MAX);
          job_process_memory_limit =
            (if LimitFlags limit_info AND JOB_OBJECT_LIMIT_PROCESS_MEMORY \<noteq> 0
             then ProcessMemoryLimit limit_info else UINTPTR_MAX);
          job_workingset_limit =
            (if LimitFlags limit_info AND JOB_OBJECT_LIMIT_WORKINGSET \<noteq> 0
             then MaximumWorkingSetSize limit_info else UINTPTR_MAX);
          job_physical_memory_limit = min job_memory_limit job_process_memory_limit;
          job_physical_memory_limit = min job_physical_memory_limit job_workingset_limit
      in ucast (min (ucast job_physical_memory_limit :: uint64_t) (ullTotalPhys ms)))"

text \<open>
  The locals of \<^verbatim>\<open>GetRestrictedPhysicalMemoryLimit\<close> as they stand at the label
  \<^verbatim>\<open>exit\<close>, with the globals as changed so far.
\<close>

record (overloaded) ('a::len) limit_locals =
  job_physical_memory_limit :: "'a word"
  total_virtual :: uint64_t
  total_physical :: uint64_t
  hinstKernel32 :: bool
  globals_at_exit :: "'a memory_globals"

text \<open>
  The part of \<^verbatim>\<open>GetRestrictedPhysicalMemoryLimit\<close> before the label \<^verbatim>\<open>exit\<close>: every
  \<^verbatim>\<open>goto exit\<close> leaves the locals at their initial values.
\<close>

definition detect_job_limit ::
  "'a::len memory_os \<Rightarrow> 'a memory_globals \<Rightarrow> fatal + 'a limit_locals" where
  "detect_job_limit os g =
     (let unset = \<lparr>job_physical_memory_limit = UINTPTR_MAX, total_virtual = 0,
                    total_physical = 0, hinstKernel32 = LoadLibraryEx_kernel32 os,
                    globals_at_exit = g\<rparr>
      in if \<not> LoadLibraryEx_kernel32 os then Inr unset
         else if \<not> has_IsProcessInJob os then Inr unset
         else (case IsProcessInJob os of
                 None \<Rightarrow> Inr unset
               | Some in_job_p \<Rightarrow>
                   if in_job_p then
                     (let g1 = g\<lparr>GCGetProcessMemoryInfo := has_K32GetProcessMemoryInfo os\<rparr>;
                          unset1 = unset\<lparr>globals_at_exit := g1\<rparr>
                      in if \<not> has_K32GetProcessMemoryInfo os then Inr unset1
                         else if \<not> has_QueryInformationJobObject os then Inr unset1
                         else (case QueryInformationJobObject os of
                                 None \<Rightarrow> Inr unset1
                               | Some limit_info \<Rightarrow>
                                   (case GetProcessMemoryLoad os of
                                      Inl e \<Rightarrow> Inl e
                                    | Inr ms \<Rightarrow>
                                        Inr (unset1
                                          \<lparr>job_physical_memory_limit :=
                                             job_limit_from_info limit_info ms,
                                           total_virtual := ullTotalVirtual ms,
                                           total_physical := ullAvailPhys ms\<rparr>))))
                   else Inr unset))"

text \<open>
  The part after the label: an unset limit becomes 0 (and the library is released), the
  memory status is queried if it has not been yet, a limit in force replaces the physical
  total, and the virtual address space takes over when it is the smaller. The last two
  lines store the value and return it.
\<close>

definition publish_limit ::
  "'a::len memory_os \<Rightarrow> 'a limit_locals \<Rightarrow> fatal + ('a word \<times> 'a memory_globals)" where
  "publish_limit os l =
     (let l1 = (if job_physical_memory_limit l = UINTPTR_MAX
                then (if hinstKernel32 l
                      then l\<lparr>job_physical_memory_limit := 0, hinstKernel32 := False,
                             globals_at_exit :=
                               (globals_at_exit l)\<lparr>GCGetProcessMemoryInfo := False\<rparr>\<rparr>
                      else l\<lparr>job_physical_memory_limit := 0\<rparr>)
                else l)
      in case (if total_virtual l1 = 0
               then (case GetProcessMemoryLoad os of
                       Inl e \<Rightarrow> Inl e
                     | Inr ms \<Rightarrow> Inr (l1\<lparr>total_virtual := ullTotalVirtual ms,
                                          total_physical := ullTotalPhys ms\<rparr>))
               else Inr l1) of
           Inl e \<Rightarrow> Inl e
         | Inr l2 \<Rightarrow>
             (let l3 = (if job_physical_memory_limit l2 \<noteq> 0
                        then l2\<lparr>total_physical := ucast (job_physical_memory_limit l2)\<rparr>
                        else l2);
                  l4 = (if total_virtual l3 < total_physical l3
                        then l3\<lparr>job_physical_memory_limit := ucast (total_virtual l3),
                                globals_at_exit :=
                                  (if hinstKernel32 l3
                                   then (globals_at_exit l3)\<lparr>GCGetProcessMemoryInfo := False\<rparr>
                                   else globals_at_exit l3)
                                  \<lparr>g_UseRestrictedVirtualMemory := True\<rparr>\<rparr>
                        else l3);
                  g' = (globals_at_exit l4)
                         \<lparr>g_RestrictedPhysicalMemoryLimit := job_physical_memory_limit l4\<rparr>
              in Inr (g_RestrictedPhysicalMemoryLimit g', g')))"

text \<open>\<^verbatim>\<open>GetRestrictedPhysicalMemoryLimit\<close>: the cached value, or the computation.\<close>

definition GetRestrictedPhysicalMemoryLimit ::
  "'a::len memory_os \<Rightarrow> 'a memory_globals \<Rightarrow> fatal + ('a word \<times> 'a memory_globals)" where
  "GetRestrictedPhysicalMemoryLimit os g =
     (if g_RestrictedPhysicalMemoryLimit g \<noteq> UINTPTR_MAX
      then Inr (g_RestrictedPhysicalMemoryLimit g, g)
      else (case detect_job_limit os g of
              Inl e \<Rightarrow> Inl e
            | Inr l \<Rightarrow> publish_limit os l))"

text \<open>
  \<^verbatim>\<open>GCToOSInterface::GetPhysicalMemoryLimit\<close>, called with a non-null
  \<^verbatim>\<open>is_restricted\<close>: the returned limit, the flag stored through the pointer, and the
  globals.
\<close>

definition GetPhysicalMemoryLimit ::
  "'a::len memory_os \<Rightarrow> 'a memory_globals \<Rightarrow>
     fatal + (uint64_t \<times> bool \<times> 'a memory_globals)" where
  "GetPhysicalMemoryLimit os g =
     (case GetRestrictedPhysicalMemoryLimit os g of
        Inl e \<Rightarrow> Inl e
      | Inr (restricted_limit, g') \<Rightarrow>
          if restricted_limit \<noteq> 0 then Inr (ucast restricted_limit, True, g')
          else (case GetProcessMemoryLoad os of
                  Inl e \<Rightarrow> Inl e
                | Inr memStatus \<Rightarrow>
                    if ullTotalPhys memStatus \<noteq> 0
                    then Inr (ullTotalPhys memStatus, False, g')
                    else Inl AssertionFailed))"

text \<open>
  The conditions the statements about the limit speak of. The process runs in a job whose
  extended limit information was read: every step up to and including
  \<^verbatim>\<open>QueryInformationJobObject\<close> succeeded, with \<open>limit_info\<close> as its answer.
\<close>

definition job_limit_info_read ::
  "'a::len memory_os \<Rightarrow> 'a JOBOBJECT_EXTENDED_LIMIT_INFORMATION option" where
  "job_limit_info_read os =
     (if LoadLibraryEx_kernel32 os \<and> has_IsProcessInJob os \<and> IsProcessInJob os = Some True \<and>
         has_K32GetProcessMemoryInfo os \<and> has_QueryInformationJobObject os
      then QueryInformationJobObject os else None)"

text \<open>The quotas that are actually set, in the order the code reads them.\<close>

definition quotas_set :: "'a::len JOBOBJECT_EXTENDED_LIMIT_INFORMATION \<Rightarrow> 'a word list" where
  "quotas_set limit_info =
     (if LimitFlags limit_info AND JOB_OBJECT_LIMIT_JOB_MEMORY \<noteq> 0
      then [JobMemoryLimit limit_info] else []) @
     (if LimitFlags limit_info AND JOB_OBJECT_LIMIT_PROCESS_MEMORY \<noteq> 0
      then [ProcessMemoryLimit limit_info] else []) @
     (if LimitFlags limit_info AND JOB_OBJECT_LIMIT_WORKINGSET \<noteq> 0
      then [MaximumWorkingSetSize limit_info] else [])"

text \<open>
  The minimum of the quotas that are set, clamped to the total physical memory: the least
  of the set quotas and the total (the total itself when no quota is set), as a number of
  bytes in 64 bits.
\<close>

definition clamped_quota ::
  "'a::len JOBOBJECT_EXTENDED_LIMIT_INFORMATION \<Rightarrow> MEMORYSTATUSEX \<Rightarrow> uint64_t" where
  "clamped_quota limit_info ms =
     Min (set (ullTotalPhys ms # map ucast (quotas_set limit_info)))"

text \<open>
  The effective physical capacity: the job limit when one is in force, otherwise the total
  physical memory. A limit is in force when the job's limit information was read and the
  clamped minimum of its quotas is not 0: for the resolver a limit of 0 is no limit (it is
  the value \<^verbatim>\<open>GetPhysicalMemoryLimit\<close> reads as "not restricted"). When no quota is set the
  clamped minimum is the total physical memory, so the capacity is that total either way.
\<close>

definition effective_physical_capacity :: "'a::len memory_os \<Rightarrow> MEMORYSTATUSEX \<Rightarrow> uint64_t" where
  "effective_physical_capacity os ms =
     (case job_limit_info_read os of
        Some limit_info \<Rightarrow>
          if clamped_quota limit_info ms \<noteq> 0 then clamped_quota limit_info ms
          else ullTotalPhys ms
      | None \<Rightarrow> ullTotalPhys ms)"

section \<open>Processor groups\<close>

text \<open>
  The Windows structures the discovery reads. \<^verbatim>\<open>PROCESSOR_GROUP_INFO\<close> has a
  \<^verbatim>\<open>BYTE\<close> count of active processors and a mask; a record of
  \<^verbatim>\<open>SYSTEM_LOGICAL_PROCESSOR_INFORMATION_EX\<close> has its relationship, its size in bytes
  and, for \<^verbatim>\<open>RelationGroup\<close>, the \<^verbatim>\<open>WORD\<close> count of active groups and the array
  \<^verbatim>\<open>GroupInfo\<close>, read by index.
\<close>

datatype LOGICAL_PROCESSOR_RELATIONSHIP =
  RelationProcessorCore | RelationNumaNode | RelationCache | RelationProcessorPackage
  | RelationGroup

record PROCESSOR_GROUP_INFO =
  ActiveProcessorCount :: BYTE
  ActiveProcessorMask :: DWORD_PTR

record SYSTEM_LOGICAL_PROCESSOR_INFORMATION_EX =
  Relationship :: LOGICAL_PROCESSOR_RELATIONSHIP
  Size :: DWORD
  ActiveGroupCount :: WORD
  GroupInfo :: "nat \<Rightarrow> PROCESSOR_GROUP_INFO"

text \<open>
  \<^verbatim>\<open>struct CPU_Group_Info\<close>. The members \<^verbatim>\<open>begin\<close> and \<^verbatim>\<open>end\<close> are named
  \<open>grp_begin\<close> and \<open>grp_end\<close> here; \<^verbatim>\<open>reserved\<close> is never accessed.
\<close>

record CPU_Group_Info =
  nr_active :: WORD
  grp_begin :: WORD
  grp_end :: WORD
  active_mask :: DWORD_PTR
  groupWeight :: DWORD
  activeThreadWeight :: DWORD

record GCSystemInfo =
  dwNumberOfProcessors :: DWORD
  dwPageSize :: DWORD
  dwAllocationGranularity :: DWORD

text \<open>The file-level variables of the topology, all zero when the process starts.\<close>

record topology_globals =
  g_SystemInfo :: GCSystemInfo
  g_fEnableGCNumaAware :: bool
  g_fEnableGCCPUGroups :: bool
  g_fHadSingleProcessorAtStartup :: bool
  g_nGroups :: DWORD
  g_nProcessors :: DWORD
  g_CPUGroupInfoArray :: "CPU_Group_Info list"

definition initial_topology_globals :: topology_globals where
  "initial_topology_globals =
     \<lparr>g_SystemInfo =
        \<lparr>dwNumberOfProcessors = 0, dwPageSize = 0, dwAllocationGranularity = 0\<rparr>,
      g_fEnableGCNumaAware = False,
      g_fEnableGCCPUGroups = False,
      g_fHadSingleProcessorAtStartup = False,
      g_nGroups = 0,
      g_nProcessors = 0,
      g_CPUGroupInfoArray = []\<rparr>"

text \<open>
  What the operating system and the configuration answer during \<^verbatim>\<open>Initialize\<close>. For
  \<^verbatim>\<open>GetLogicalProcessorInformationEx\<close>: the first call (with no buffer) yields a
  return value, a last error and a value of \<^verbatim>\<open>cbSLPIEx\<close>; the second call yields a
  return value, a value of \<^verbatim>\<open>cbSLPIEx\<close> and the records now in the buffer, in order,
  each as long as its \<open>Size\<close> says. The two allocations with
  \<^verbatim>\<open>new (std::nothrow)\<close> succeed or not.
\<close>

record topology_os =
  GetSystemInfo :: GCSystemInfo
  GCNumaAware :: bool
  GetNumaHighestNodeNumber :: "DWORD option"
  GCCpuGroup :: bool
  sizing_call_ok :: bool
  sizing_call_LastError :: DWORD
  sizing_call_cbSLPIEx :: DWORD
  buffer_allocated :: bool
  fill_call_ok :: bool
  fill_call_cbSLPIEx :: DWORD
  fill_call_records :: "SYSTEM_LOGICAL_PROCESSOR_INFORMATION_EX list"
  array_allocated :: bool
  GetProcessAffinityMask :: "(DWORD_PTR \<times> DWORD_PTR) option"

definition ERROR_INSUFFICIENT_BUFFER :: DWORD where
  "ERROR_INSUFFICIENT_BUFFER = 122"

text \<open>\<^verbatim>\<open>InitNumaNodeInfo\<close>.\<close>

definition InitNumaNodeInfo :: "topology_os \<Rightarrow> topology_globals \<Rightarrow> topology_globals" where
  "InitNumaNodeInfo os s =
     (let s = s\<lparr>g_fEnableGCNumaAware := False\<rparr>
      in if \<not> GCNumaAware os then s
         else (case GetNumaHighestNodeNumber os of
                 None \<Rightarrow> s
               | Some highest \<Rightarrow>
                   if highest = 0 then s else s\<lparr>g_fEnableGCNumaAware := True\<rparr>))"

text \<open>\<^verbatim>\<open>GCD\<close> and \<^verbatim>\<open>LCM\<close> on \<^verbatim>\<open>DWORD\<close>. The division in \<^verbatim>\<open>LCM\<close> is by the
  greatest common divisor, which is 0 when both arguments are.\<close>

function GCD_u32 :: "DWORD \<Rightarrow> DWORD \<Rightarrow> DWORD" where
  "GCD_u32 u v = (if v \<noteq> 0 then GCD_u32 v (u mod v) else u)"
  by pat_completeness auto
termination
proof (relation "measure (\<lambda>(u, v). unat v)")
  show "wf (measure (\<lambda>(u :: DWORD, v :: DWORD). unat v))"
    by simp
next
  fix u v :: DWORD
  assume "v \<noteq> 0"
  then have "0 < unat v"
    by (simp add: unat_gt_0)
  then have "unat (u mod v) < unat v"
    by (simp add: unat_mod)
  then show "((v, u mod v), (u, v)) \<in> measure (\<lambda>(u, v). unat v)"
    by simp
qed

declare GCD_u32.simps [simp del]

definition LCM_u32 :: "DWORD \<Rightarrow> DWORD \<Rightarrow> fatal + DWORD" where
  "LCM_u32 u v =
     (if GCD_u32 u v = 0 then Inl DivideByZero else Inr (u div GCD_u32 u v * v))"

text \<open>
  The \<^verbatim>\<open>while\<close> loop of \<^verbatim>\<open>InitCPUGroupInfoArray\<close> that looks for the record with
  \<^verbatim>\<open>RelationGroup\<close>, stepping through the buffer by the records' sizes. At a record of
  another relationship whose \<open>Size\<close> is 0 neither \<^verbatim>\<open>byteOffset\<close> nor \<^verbatim>\<open>pRecord\<close>
  changes: the loop reads the same record again and never ends.
\<close>

fun find_group_record ::
  "SYSTEM_LOGICAL_PROCESSOR_INFORMATION_EX list \<Rightarrow> DWORD \<Rightarrow> DWORD \<Rightarrow>
   fatal + SYSTEM_LOGICAL_PROCESSOR_INFORMATION_EX option" where
  "find_group_record [] byteOffset cbSLPIEx = Inr None"
| "find_group_record (pRecord # rest) byteOffset cbSLPIEx =
     (if byteOffset < cbSLPIEx
      then (if Relationship pRecord = RelationGroup then Inr (Some pRecord)
            else if Size pRecord = 0 then Inl LoopsForever
            else find_group_record rest (byteOffset + Size pRecord) cbSLPIEx)
      else Inr None)"

text \<open>
  The first \<^verbatim>\<open>for\<close> loop: each group's count (cast to \<^verbatim>\<open>WORD\<close>) and mask are stored,
  the count is added to \<^verbatim>\<open>g_nProcessors\<close> and folded into \<^verbatim>\<open>dwWeight\<close>. The members
  not assigned here are given the value 0. The result is the array, \<^verbatim>\<open>g_nProcessors\<close>
  and \<^verbatim>\<open>dwWeight\<close>.
\<close>

fun read_group_info ::
  "PROCESSOR_GROUP_INFO list \<Rightarrow> DWORD \<Rightarrow> DWORD \<Rightarrow>
   fatal + (CPU_Group_Info list \<times> DWORD \<times> DWORD)" where
  "read_group_info [] nProcessors dwWeight = Inr ([], nProcessors, dwWeight)"
| "read_group_info (info # rest) nProcessors dwWeight =
     (let entry = \<lparr>nr_active = ucast (ActiveProcessorCount info), grp_begin = 0,
                    grp_end = 0, active_mask = ActiveProcessorMask info,
                    groupWeight = 0, activeThreadWeight = 0\<rparr>
      in case LCM_u32 dwWeight (ucast (nr_active entry)) of
           Inl e \<Rightarrow> Inl e
         | Inr dwWeight' \<Rightarrow>
             (case read_group_info rest (nProcessors + ucast (nr_active entry)) dwWeight' of
                Inl e \<Rightarrow> Inl e
              | Inr (array, nProcessors', dwWeight'') \<Rightarrow>
                  Inr (entry # array, nProcessors', dwWeight'')))"

text \<open>The second \<^verbatim>\<open>for\<close> loop: \<^verbatim>\<open>groupWeight = dwWeight / nr_active\<close>.\<close>

fun set_group_weights :: "DWORD \<Rightarrow> CPU_Group_Info list \<Rightarrow> fatal + CPU_Group_Info list" where
  "set_group_weights dwWeight [] = Inr []"
| "set_group_weights dwWeight (entry # rest) =
     (if nr_active entry = 0 then Inl DivideByZero
      else (case set_group_weights dwWeight rest of
              Inl e \<Rightarrow> Inl e
            | Inr rest' \<Rightarrow>
                Inr (entry\<lparr>groupWeight := dwWeight div ucast (nr_active entry),
                           activeThreadWeight := 0\<rparr> # rest')))"

text \<open>
  \<^verbatim>\<open>InitCPUGroupInfoArray\<close> (64-bit targets). The test after the first call is the
  source's: the call's return value \<^emph>\<open>and\<close> a last error other than
  \<^verbatim>\<open>ERROR_INSUFFICIENT_BUFFER\<close>. When no group record is found, \<^verbatim>\<open>g_nGroups\<close> keeps
  its value and \<^verbatim>\<open>pRecord\<close> points past the buffer, so that the loops, if they run,
  read outside it.
\<close>

definition InitCPUGroupInfoArray ::
  "topology_os \<Rightarrow> topology_globals \<Rightarrow> fatal + (bool \<times> topology_globals)" where
  "InitCPUGroupInfoArray os s =
     (if sizing_call_ok os \<and> sizing_call_LastError os \<noteq> ERROR_INSUFFICIENT_BUFFER
      then Inr (False, s)
      else if sizing_call_cbSLPIEx os = 0 then Inl AssertionFailed
      else if \<not> buffer_allocated os then Inr (False, s)
      else if \<not> fill_call_ok os then Inr (False, s)
      else
        (case find_group_record (fill_call_records os) 0 (fill_call_cbSLPIEx os) of
           Inl e \<Rightarrow> Inl e
         | Inr None \<Rightarrow>
             if \<not> array_allocated os then Inr (False, s\<lparr>g_CPUGroupInfoArray := []\<rparr>)
             else if g_nGroups s \<noteq> 0 then Inl InvalidRead
             else Inr (True, s\<lparr>g_CPUGroupInfoArray := []\<rparr>)
         | Inr (Some pRecord) \<Rightarrow>
             (let s = s\<lparr>g_nGroups := ucast (ActiveGroupCount pRecord)\<rparr>
              in if \<not> array_allocated os then Inr (False, s\<lparr>g_CPUGroupInfoArray := []\<rparr>)
                 else
                   (case read_group_info
                           (map (GroupInfo pRecord) [0..<unat (g_nGroups s)])
                           (g_nProcessors s) 1 of
                      Inl e \<Rightarrow> Inl e
                    | Inr (array, nProcessors, dwWeight) \<Rightarrow>
                        (case set_group_weights dwWeight array of
                           Inl e \<Rightarrow> Inl e
                         | Inr array' \<Rightarrow>
                             Inr (True, s\<lparr>g_nProcessors := nProcessors,
                                          g_CPUGroupInfoArray := array'\<rparr>))))))"

text \<open>
  The loop of \<^verbatim>\<open>InitCPUGroupInfoRange\<close>, with its two \<^verbatim>\<open>WORD\<close> counters, over the
  \<^verbatim>\<open>g_nGroups\<close> entries of the array.
\<close>

fun set_group_ranges :: "WORD \<Rightarrow> WORD \<Rightarrow> CPU_Group_Info list \<Rightarrow> CPU_Group_Info list" where
  "set_group_ranges begin nr_proc [] = []"
| "set_group_ranges begin nr_proc (entry # rest) =
     (let nr_proc = nr_proc + nr_active entry
      in entry\<lparr>grp_begin := begin, grp_end := nr_proc - 1\<rparr>
           # set_group_ranges nr_proc nr_proc rest)"

definition InitCPUGroupInfoRange :: "topology_globals \<Rightarrow> bool \<times> topology_globals" where
  "InitCPUGroupInfoRange s =
     (True, s\<lparr>g_CPUGroupInfoArray := set_group_ranges 0 0 (g_CPUGroupInfoArray s)\<rparr>)"

text \<open>
  \<^verbatim>\<open>InitCPUGroupInfo\<close>. Each early \<^verbatim>\<open>return\<close> also skips the test for a single
  processor at the end of the function.
\<close>

definition InitCPUGroupInfo :: "topology_os \<Rightarrow> topology_globals \<Rightarrow> fatal + topology_globals" where
  "InitCPUGroupInfo os s =
     (let s = s\<lparr>g_fEnableGCCPUGroups := False\<rparr>
      in if \<not> GCCpuGroup os then Inr s
         else
           (case InitCPUGroupInfoArray os s of
              Inl e \<Rightarrow> Inl e
            | Inr (array_ok, s) \<Rightarrow>
                if \<not> array_ok then Inr s
                else
                  (case InitCPUGroupInfoRange s of
                     (range_ok, s) \<Rightarrow>
                       if \<not> range_ok then Inr s
                       else
                         (let s = s\<lparr>g_fEnableGCCPUGroups := (1 < g_nGroups s)\<rparr>
                          in case GetProcessAffinityMask os of
                               None \<Rightarrow> Inr s
                             | Some (processAffinityMask, systemAffinityMask) \<Rightarrow>
                                 (let processAffinityMask =
                                        processAffinityMask AND systemAffinityMask
                                  in if processAffinityMask \<noteq> 0 \<and>
                                        processAffinityMask AND (processAffinityMask - 1) = 0
                                     then Inr (s\<lparr>g_fHadSingleProcessorAtStartup := True\<rparr>)
                                     else Inr s)))))"

text \<open>\<^verbatim>\<open>GCToOSInterface::Initialize\<close>.\<close>

definition Initialize ::
  "topology_os \<Rightarrow> topology_globals \<Rightarrow> fatal + (bool \<times> topology_globals)" where
  "Initialize os s =
     (let systemInfo = GetSystemInfo os;
          s = s\<lparr>g_SystemInfo := systemInfo\<rparr>
      in if dwPageSize systemInfo \<noteq> 0x1000 then Inl AssertionFailed
         else (case InitCPUGroupInfo os (InitNumaNodeInfo os s) of
                 Inl e \<Rightarrow> Inl e
               | Inr s \<Rightarrow> Inr (True, s)))"

definition CanEnableGCCPUGroups :: "topology_globals \<Rightarrow> bool" where
  "CanEnableGCCPUGroups s = g_fEnableGCCPUGroups s"

definition GetTotalProcessorCount :: "topology_globals \<Rightarrow> DWORD" where
  "GetTotalProcessorCount s =
     (if CanEnableGCCPUGroups s then g_nProcessors s
      else dwNumberOfProcessors (g_SystemInfo s))"

text \<open>
  The loop of \<^verbatim>\<open>GetGroupForProcessor\<close>: \<open>None\<close> when it ends without having written
  the two out-parameters.
\<close>

fun find_group :: "WORD \<Rightarrow> WORD \<Rightarrow> WORD \<Rightarrow> WORD \<Rightarrow> CPU_Group_Info list \<Rightarrow> (WORD \<times> WORD) option" where
  "find_group processor_number i bTemp bDiff [] = None"
| "find_group processor_number i bTemp bDiff (entry # rest) =
     (let bTemp = bTemp + nr_active entry
      in if processor_number < bTemp then Some (i, bDiff)
         else find_group processor_number (i + 1) bTemp (processor_number - bTemp) rest)"

text \<open>
  \<^verbatim>\<open>GCToOSInterface::GetGroupForProcessor\<close> (64-bit targets, without
  \<^verbatim>\<open>FEATURE_REDHAWK\<close>): the group number and the processor's number within the group.
\<close>

definition GetGroupForProcessor ::
  "topology_globals \<Rightarrow> WORD \<Rightarrow> fatal + (WORD \<times> WORD) option" where
  "GetGroupForProcessor s processor_number =
     (if \<not> g_fEnableGCCPUGroups s then Inl AssertionFailed
      else Inr (find_group processor_number 0 0 (processor_number - 0)
                  (g_CPUGroupInfoArray s)))"

text \<open>
  Two notions the statements about the groups use: the array entry the first loop builds
  from one \<^verbatim>\<open>PROCESSOR_GROUP_INFO\<close>, and the number of processors in the first \<open>k\<close>
  groups, the prefix sum of \<^verbatim>\<open>nr_active\<close> in the order of the array.
\<close>

definition group_entry :: "PROCESSOR_GROUP_INFO \<Rightarrow> CPU_Group_Info" where
  "group_entry info =
     \<lparr>nr_active = ucast (ActiveProcessorCount info), grp_begin = 0, grp_end = 0,
      active_mask = ActiveProcessorMask info, groupWeight = 0, activeThreadWeight = 0\<rparr>"

definition processors_before :: "CPU_Group_Info list \<Rightarrow> nat \<Rightarrow> nat" where
  "processors_before array k = sum_list (map (unat \<circ> nr_active) (take k array))"

section \<open>Cache size\<close>

text \<open>
  The two 64-bit targets; \<^verbatim>\<open>_AMD64_\<close> and \<^verbatim>\<open>BIT64\<close> are defined for the first,
  \<^verbatim>\<open>_ARM64_\<close> and \<^verbatim>\<open>BIT64\<close> for the second.
\<close>

datatype target = AMD64 | ARM64

text \<open>
  An entry of \<^verbatim>\<open>SYSTEM_LOGICAL_PROCESSOR_INFORMATION\<close>: its relationship and, for a
  cache, \<^verbatim>\<open>Cache.Size\<close> (a \<^verbatim>\<open>DWORD\<close>). On a 64-bit target the structure is 32 bytes
  long.
\<close>

record SYSTEM_LOGICAL_PROCESSOR_INFORMATION =
  slpi_Relationship :: LOGICAL_PROCESSOR_RELATIONSHIP
  Cache_Size :: DWORD

definition sizeof_SLPI :: DWORD where
  "sizeof_SLPI = 32"

text \<open>
  What the processor and the operating system answer while the cache size is deduced: the
  four registers \<^verbatim>\<open>__cpuid\<close> stores for each leaf the code asks for (as bit patterns, in
  the order of \<^verbatim>\<open>dwBuffer\<close>), and for \<^verbatim>\<open>GetLogicalProcessorInformation\<close> the outcome
  of the first call, of the allocation and of the second call, with the entries then in the
  buffer, read by index.
\<close>

record cache_os =
  cpuid_0 :: "DWORD \<times> DWORD \<times> DWORD \<times> DWORD"
  cpuid_1 :: "DWORD \<times> DWORD \<times> DWORD \<times> DWORD"
  cpuid_80000000 :: "DWORD \<times> DWORD \<times> DWORD \<times> DWORD"
  cpuid_80000006 :: "DWORD \<times> DWORD \<times> DWORD \<times> DWORD"
  cpuid_80000008 :: "DWORD \<times> DWORD \<times> DWORD \<times> DWORD"
  glpi_sizing_ok :: bool
  glpi_sizing_LastError :: DWORD
  glpi_sizing_cbslpi :: DWORD
  glpi_allocated :: bool
  glpi_fill_ok :: bool
  glpi_entries :: "nat \<Rightarrow> SYSTEM_LOGICAL_PROCESSOR_INFORMATION"

text \<open>\<^verbatim>\<open>GetLPI\<close>: \<open>None\<close> for \<^verbatim>\<open>NULL\<close>, otherwise the number of entries and the array.\<close>

definition GetLPI ::
  "cache_os \<Rightarrow> fatal + (DWORD \<times> (nat \<Rightarrow> SYSTEM_LOGICAL_PROCESSOR_INFORMATION)) option" where
  "GetLPI os =
     (if \<not> glpi_sizing_ok os \<and> glpi_sizing_LastError os \<noteq> ERROR_INSUFFICIENT_BUFFER
      then Inr None
      else if glpi_sizing_cbslpi os = 0 then Inl AssertionFailed
      else
        (let dwNumElements = glpi_sizing_cbslpi os div sizeof_SLPI
         in if \<not> glpi_allocated os then Inr None
            else if \<not> glpi_fill_ok os then Inr None
            else Inr (Some (dwNumElements, glpi_entries os))))"

text \<open>The loop of \<^verbatim>\<open>GetLogicalProcessorCacheSizeFromOS\<close> over the entries.\<close>

fun greatest_cache_size :: "SYSTEM_LOGICAL_PROCESSOR_INFORMATION list \<Rightarrow> size_t \<Rightarrow> size_t" where
  "greatest_cache_size [] last_cache_size = last_cache_size"
| "greatest_cache_size (entry # rest) last_cache_size =
     greatest_cache_size rest
       (if slpi_Relationship entry = RelationCache
        then max last_cache_size (ucast (Cache_Size entry))
        else last_cache_size)"

definition GetLogicalProcessorCacheSizeFromOS :: "cache_os \<Rightarrow> fatal + size_t" where
  "GetLogicalProcessorCacheSizeFromOS os =
     (case GetLPI os of
        Inl e \<Rightarrow> Inl e
      | Inr None \<Rightarrow> Inr 0
      | Inr (Some (nEntries, pslpi)) \<Rightarrow>
          Inr (greatest_cache_size (map pslpi [0..<unat nEntries]) 0))"

text \<open>The two function-local statics of \<^verbatim>\<open>GetCacheSizePerLogicalCpu\<close>, both 0 at start.\<close>

record cache_statics =
  maxSize :: size_t
  maxTrueSize :: size_t

definition initial_cache_statics :: cache_statics where
  "initial_cache_statics = \<lparr>maxSize = 0, maxTrueSize = 0\<rparr>"

text \<open>
  The vendor tests on \<^verbatim>\<open>dwBuffer\<close> after \<^verbatim>\<open>__cpuid(dwBuffer, 0)\<close>: the multi-character
  constants \<^verbatim>\<open>'uneG'\<close>, \<^verbatim>\<open>'Ieni'\<close>, \<^verbatim>\<open>'letn'\<close> and \<^verbatim>\<open>'htuA'\<close>, \<^verbatim>\<open>'itne'\<close>,
  \<^verbatim>\<open>'DMAc'\<close>.
\<close>

definition is_GenuineIntel :: "cache_os \<Rightarrow> bool" where
  "is_GenuineIntel os =
     (case cpuid_0 os of (eax, ebx, ecx, edx) \<Rightarrow>
        ebx = 0x756E6547 \<and> edx = 0x49656E69 \<and> ecx = 0x6C65746E)"

definition is_AuthenticAMD :: "cache_os \<Rightarrow> bool" where
  "is_AuthenticAMD os =
     (case cpuid_0 os of (eax, ebx, ecx, edx) \<Rightarrow>
        ebx = 0x68747541 \<and> edx = 0x69746E65 \<and> ecx = 0x444D4163)"

text \<open>
  The AMD branch once leaf \<^verbatim>\<open>0x80000006\<close> is known to exist: the value it leaves in
  \<^verbatim>\<open>maxTrueSize\<close>. The arithmetic on \<^verbatim>\<open>DWORD\<close> wraps around.
\<close>

definition amd_true_size :: "cache_os \<Rightarrow> size_t" where
  "amd_true_size os =
     (case cpuid_80000006 os of (eax6, ebx6, dwL2CacheBits, dwL3CacheBits) \<Rightarrow>
      case cpuid_1 os of (eax1, ebx1, ecx1, edx1) \<Rightarrow>
      case cpuid_80000008 os of (eax8, ebx8, ecx8, edx8) \<Rightarrow>
        (let maxTrueSize = (ucast (drop_bit 16 dwL2CacheBits * 1024) :: size_t);
             dwBaseFamily = drop_bit 8 (eax1 AND push_bit 8 0xF);
             dwExtFamily = drop_bit 20 (eax1 AND push_bit 20 0xFF);
             dwFamily = (if 0xF \<le> dwBaseFamily then dwBaseFamily + dwExtFamily
                         else dwBaseFamily)
         in if 0x10 \<le> dwFamily
            then
              (let dwBaseModel = drop_bit 4 (eax1 AND push_bit 4 0xF);
                   dwExtModel = drop_bit 16 (eax1 AND push_bit 16 0xF);
                   dwModel = (if 0xF \<le> dwBaseFamily
                              then push_bit 4 dwExtModel OR dwBaseModel else dwBaseModel);
                   bSkipAMDL3 = (dwFamily = 0x10 \<and> dwModel = 0x2)
               in if \<not> bSkipAMDL3
                  then
                    (let dwNumberOfCores = (ecx8 AND 0xFF) + 1;
                         dwL3CacheSize = drop_bit 18 dwL3CacheBits * 512 * 1024;
                         dwL3CacheSize = dwL3CacheSize div dwNumberOfCores
                     in maxTrueSize + ucast dwL3CacheSize)
                  else maxTrueSize)
            else maxTrueSize))"

text \<open>
  The body of \<^verbatim>\<open>GetCacheSizePerLogicalCpu\<close> after the test of the cached value, for
  each target.
\<close>

definition deduce_cache_size :: "target \<Rightarrow> cache_os \<Rightarrow> cache_statics \<Rightarrow> fatal + cache_statics" where
  "deduce_cache_size tgt os s =
     (case tgt of
        AMD64 \<Rightarrow>
          (case (if is_GenuineIntel os
                 then (case GetLogicalProcessorCacheSizeFromOS os of
                         Inl e \<Rightarrow> Inl e
                       | Inr size_from_os \<Rightarrow>
                           (let maxCpuId = fst (cpuid_0 os)
                            in if 2 \<le>s maxCpuId
                               then Inr (s\<lparr>maxTrueSize := size_from_os,
                                            maxSize := size_from_os * 3\<rparr>)
                               else Inr (s\<lparr>maxTrueSize := size_from_os,
                                            maxSize := size_from_os\<rparr>)))
                 else Inr s) of
             Inl e \<Rightarrow> Inl e
           | Inr s \<Rightarrow>
               if is_AuthenticAMD os
               then (if 0x80000006 \<le> fst (cpuid_80000000 os)
                     then Inr (s\<lparr>maxTrueSize := amd_true_size os,
                                  maxSize := amd_true_size os\<rparr>)
                     else Inr s)
               else Inr s)
      | ARM64 \<Rightarrow>
          (case GetLogicalProcessorCacheSizeFromOS os of
             Inl e \<Rightarrow> Inl e
           | Inr size_from_os \<Rightarrow>
               Inr (s\<lparr>maxTrueSize := size_from_os, maxSize := size_from_os * 3\<rparr>)))"

text \<open>\<^verbatim>\<open>GCToOSInterface::GetCacheSizePerLogicalCpu\<close>.\<close>

definition GetCacheSizePerLogicalCpu ::
  "target \<Rightarrow> cache_os \<Rightarrow> bool \<Rightarrow> cache_statics \<Rightarrow> fatal + (size_t \<times> cache_statics)" where
  "GetCacheSizePerLogicalCpu tgt os trueSize s =
     (if maxSize s \<noteq> 0
      then Inr (if trueSize then maxTrueSize s else maxSize s, s)
      else (case deduce_cache_size tgt os s of
              Inl e \<Rightarrow> Inl e
            | Inr s \<Rightarrow> Inr (if trueSize then maxTrueSize s else maxSize s, s)))"

text \<open>Whether the target and the processor make the code scale the size by 3.\<close>

definition scales_cache_size :: "target \<Rightarrow> cache_os \<Rightarrow> bool" where
  "scales_cache_size tgt os =
     (tgt = ARM64 \<or> (is_GenuineIntel os \<and> 2 \<le>s fst (cpuid_0 os)))"

text \<open>
  The cache sizes among the entries the operating system reports, as \<^verbatim>\<open>size_t\<close>.
\<close>

definition reported_cache_sizes :: "SYSTEM_LOGICAL_PROCESSOR_INFORMATION list \<Rightarrow> size_t list" where
  "reported_cache_sizes entries =
     map (\<lambda>entry. ucast (Cache_Size entry))
       (filter (\<lambda>entry. slpi_Relationship entry = RelationCache) entries)"

text \<open>
  What the AMD branch deduces, in arithmetic on natural numbers. The family and the model
  are those of CPUID leaf 1 (\<^verbatim>\<open>EAX\<close>: base model in bits 7-4, base family in bits 11-8,
  extended model in bits 19-16, extended family in bits 27-20; the extended fields count
  only for base family 15). The size is the L2 size of leaf \<^verbatim>\<open>0x80000006\<close> (\<^verbatim>\<open>ECX\<close> bits
  31-16, in KB) plus, from family \<^verbatim>\<open>0x10\<close> on and except for family \<^verbatim>\<open>0x10\<close> model 2, the
  L3 size (\<^verbatim>\<open>EDX\<close> bits 31-18, in units of 512 KB, kept in a \<^verbatim>\<open>DWORD\<close>) divided by the
  number of cores (leaf \<^verbatim>\<open>0x80000008\<close>, \<^verbatim>\<open>ECX\<close> bits 7-0, plus one).
\<close>

definition amd_family :: "DWORD \<Rightarrow> nat" where
  "amd_family eax =
     (let base_family = unat eax div 2 ^ 8 mod 16;
          extended_family = unat eax div 2 ^ 20 mod 256
      in if 15 \<le> base_family then base_family + extended_family else base_family)"

definition amd_model :: "DWORD \<Rightarrow> nat" where
  "amd_model eax =
     (let base_family = unat eax div 2 ^ 8 mod 16;
          base_model = unat eax div 2 ^ 4 mod 16;
          extended_model = unat eax div 2 ^ 16 mod 16
      in if 15 \<le> base_family then 16 * extended_model + base_model else base_model)"

definition amd_cache_bytes :: "cache_os \<Rightarrow> nat" where
  "amd_cache_bytes os =
     (case cpuid_80000006 os of (eax6, ebx6, ecx6, edx6) \<Rightarrow>
      case cpuid_1 os of (eax1, ebx1, ecx1, edx1) \<Rightarrow>
      case cpuid_80000008 os of (eax8, ebx8, ecx8, edx8) \<Rightarrow>
        unat ecx6 div 2 ^ 16 * 1024 +
        (if 16 \<le> amd_family eax1 \<and> \<not> (amd_family eax1 = 16 \<and> amd_model eax1 = 2)
         then (unat edx6 div 2 ^ 18 * 524288 mod 2 ^ 32) div (unat ecx8 mod 256 + 1)
         else 0))"

section \<open>Proofs\<close>

subsection \<open>Write watch\<close>

text \<open>
  C6. A call of \<open>GetWriteWatch\<close> that returns success has seen the operating system report
  a granularity equal to the page size. When the operating system's call succeeds with any
  other granularity, the outcome is the failed assertion: the call does not return, neither
  with \<open>True\<close> nor with \<open>False\<close>.
\<close>

theorem GetWriteWatch_granularity:
  "(GetWriteWatch OS_PAGE_SIZE os resetState address sz n = Inr (True, pages, cnt) \<longrightarrow>
      ww_granularity (os (if resetState then 1 else 0) address sz n) = OS_PAGE_SIZE) \<and>
   (ww_return (os (if resetState then 1 else 0) address sz n) = 0 \<and>
    ww_granularity (os (if resetState then 1 else 0) address sz n) \<noteq> OS_PAGE_SIZE \<longrightarrow>
      GetWriteWatch OS_PAGE_SIZE os resetState address sz n = Inl AssertionFailed)"
  by (simp add: GetWriteWatch_def Let_def)

theorem GetWriteWatch_granularity_witness:
  "GetWriteWatch 0x1000
     (\<lambda>flags address sz n. \<lparr>ww_return = 0, ww_pageAddresses = [0x20000],
        ww_pageAddressesCount = 1, ww_granularity = 0x1000\<rparr>) True 0x20000 0x10000 16
     = Inr (True, [0x20000], 1) \<and>
   ww_granularity
     ((\<lambda>flags address sz n. \<lparr>ww_return = 0, ww_pageAddresses = [0x20000 :: size_t],
        ww_pageAddressesCount = 1 :: size_t, ww_granularity = 0x1000\<rparr>)
        (1 :: DWORD) (0x20000 :: size_t) (0x10000 :: size_t) (16 :: size_t)) = 0x1000 \<and>
   GetWriteWatch 0x1000
     (\<lambda>flags address sz n. \<lparr>ww_return = 0, ww_pageAddresses = [0x20000],
        ww_pageAddressesCount = 1, ww_granularity = 0x2000\<rparr>) True 0x20000 0x10000 16
     = Inl AssertionFailed"
proof -
  let ?good = "\<lambda>(flags :: DWORD) (address :: size_t) (sz :: size_t) (n :: size_t).
      \<lparr>ww_return = 0, ww_pageAddresses = [0x20000 :: size_t],
       ww_pageAddressesCount = 1 :: size_t, ww_granularity = 0x1000\<rparr>"
  let ?bad = "\<lambda>(flags :: DWORD) (address :: size_t) (sz :: size_t) (n :: size_t).
      \<lparr>ww_return = 0, ww_pageAddresses = [0x20000 :: size_t],
       ww_pageAddressesCount = 1 :: size_t, ww_granularity = 0x2000\<rparr>"
  have a: "GetWriteWatch 0x1000 ?good True 0x20000 0x10000 16 = Inr (True, [0x20000], 1)"
    by (simp add: GetWriteWatch_def)
  have g: "ww_granularity (?good 1 0x20000 0x10000 16) = 0x1000"
    using a GetWriteWatch_granularity
      [of "0x1000" ?good True "0x20000" "0x10000" 16 "[0x20000]" 1]
    by simp
  have b: "GetWriteWatch 0x1000 ?bad True 0x20000 0x10000 16 = Inl AssertionFailed"
    using GetWriteWatch_granularity
      [of "0x1000" ?bad True "0x20000" "0x10000" 16 "[]" 0]
    by simp
  from a g b show ?thesis by simp
qed

subsection \<open>Number of processors of the current process\<close>

lemma pop_nat_0 [simp]: "pop_nat 0 = 0"
  by (simp add: pop_nat.simps)

lemma pop_nat_double [simp]: "pop_nat (2 * q) = pop_nat q"
  by (cases "q = 0") (simp_all add: pop_nat.simps [of "2 * q"])

lemma pop_nat_double_Suc [simp]: "pop_nat (Suc (2 * q)) = Suc (pop_nat q)"
  by (simp add: pop_nat.simps [of "Suc (2 * q)"])

lemma and_pred_odd: "Suc (2 * q) AND (2 * q) = 2 * q"
  by (subst and_nat_rec) simp

lemma and_pred_even:
  "0 < (q::nat) \<Longrightarrow> (2 * q) AND (2 * q - Suc 0) = 2 * (q AND (q - Suc 0))"
proof -
  assume "0 < q"
  then have "2 * q - Suc 0 = Suc (2 * (q - Suc 0))" by simp
  then have "(2 * q - Suc 0) div 2 = q - Suc 0" by simp
  then show ?thesis by (subst and_nat_rec) simp
qed

lemma pop_nat_clear_lowest: "0 < n \<Longrightarrow> Suc (pop_nat (n AND (n - 1))) = pop_nat n"
proof (induction n rule: less_induct)
  case (less n)
  show ?case
  proof (cases "odd n")
    case True
    then obtain q where n: "n = Suc (2 * q)" by (auto elim: oddE)
    show ?thesis by (simp add: n and_pred_odd)
  next
    case False
    then obtain q where n: "n = 2 * q" by (auto elim: evenE)
    with less.prems have q: "0 < q" by simp
    then have "q < n" using n by simp
    then have "Suc (pop_nat (q AND (q - 1))) = pop_nat q"
      using q by (rule less.IH)
    then show ?thesis using q by (simp add: n and_pred_even)
  qed
qed

lemma count_filter_bits: "n < 2 ^ k \<Longrightarrow> length (filter (bit n) [0..<k]) = pop_nat n"
proof (induction k arbitrary: n)
  case 0
  then show ?case by simp
next
  case (Suc k)
  have half: "n div 2 < 2 ^ k" using Suc.prems by simp
  have "[0..<Suc k] = 0 # map Suc [0..<k]"
    by (simp add: upt_conv_Cons map_Suc_upt del: upt_Suc)
  then have "length (filter (bit n) [0..<Suc k])
      = (if odd n then 1 else 0) + length (filter (bit (n div 2)) [0..<k])"
    by (simp add: length_filter_map comp_def bit_Suc bit_0 del: upt_Suc)
  also have "\<dots> = n mod 2 + pop_nat (n div 2)"
    using Suc.IH [OF half] by (simp add: odd_iff_mod_2_eq_one)
  also have "\<dots> = pop_nat n"
    by (cases "n = 0") (simp_all add: pop_nat.simps [of n])
  finally show ?case .
qed

lemma popcount_pop_nat: "popcount w = pop_nat (unat w)"
proof -
  have "bit w = bit (unat w)"
    by (rule ext) (simp add: bit_unsigned_iff)
  then show ?thesis
    unfolding popcount_def by (simp add: count_filter_bits)
qed

lemma popcount_le: "popcount (w :: 'a::len word) \<le> LENGTH('a)"
  unfolding popcount_def
  by (metis length_filter_le length_upt diff_zero)

lemma count_mask_bits_eq: "count_mask_bits pmask count = count + of_nat (popcount pmask)"
proof (induction pmask count rule: count_mask_bits.induct)
  case (1 pmask count)
  show ?case
  proof (cases "pmask = 0")
    case True
    then show ?thesis by (simp add: count_mask_bits.simps popcount_pop_nat)
  next
    case False
    then have pos: "0 < unat pmask" by (simp add: unat_gt_0)
    have "unat (pmask AND (pmask - 1)) = unat pmask AND (unat pmask - 1)"
      using False by (simp add: unsigned_and_eq unat_minus_one)
    then have "Suc (popcount (pmask AND (pmask - 1))) = popcount pmask"
      using pop_nat_clear_lowest [OF pos] by (simp add: popcount_pop_nat)
    then show ?thesis
      using False "1.IH" [OF False]
      by (subst count_mask_bits.simps) (simp flip: of_nat_Suc)
  qed
qed

lemma small_count_unat:
  assumes "n \<le> 64"
  shows "unat (of_nat n :: DWORD) = n"
  using assms by (simp add: unat_of_nat)

lemma small_count_zero:
  assumes "n \<le> 64"
  shows "(of_nat n :: DWORD) = 0 \<longleftrightarrow> n = 0"
proof
  assume "(of_nat n :: DWORD) = 0"
  then have "unat (of_nat n :: DWORD) = 0" by simp
  then show "n = 0" using small_count_unat [OF assms] by simp
qed simp

lemma small_count_not_sless:
  assumes "n \<le> 64"
  shows "\<not> (64 <s (of_nat n :: DWORD))"
proof -
  have "- (2 ^ 31) \<le> int n" "int n < 2 ^ 31" using assms by simp_all
  then have "signed_take_bit 31 (int n) = int n"
    by (rule signed_take_bit_int_eq_self)
  then have "sint (of_nat n :: DWORD) = int n"
    by (simp add: signed_of_nat)
  then show ?thesis using assms by (simp add: word_sless_alt)
qed

lemma cpu_count_first_call:
  "GetCurrentProcessCpuCount affinity 0 =
     (case affinity of
        None \<Rightarrow> (1, 1)
      | Some (pmask, smask) \<Rightarrow>
          (let n = popcount (pmask AND smask)
           in if n = 0 then (64, 64) else (of_nat n, of_nat n)))"
proof (cases affinity)
  case None
  then show ?thesis by (simp add: GetCurrentProcessCpuCount_def)
next
  case (Some a)
  obtain pmask smask where a: "a = (pmask, smask)" by (cases a)
  have le: "popcount (pmask AND smask) \<le> 64"
    using popcount_le [of "pmask AND smask"] by simp
  show ?thesis
    using small_count_not_sless [OF le] small_count_zero [OF le]
    by (simp add: Some a GetCurrentProcessCpuCount_def count_mask_bits_eq Let_def)
qed

text \<open>
  C10. The first call of \<open>GetCurrentProcessCpuCount\<close> (the static still 0) returns a value
  between 1 and 64: 1 when the affinity query fails, the population count of the process
  mask intersected with the system mask when that count lies between 1 and 64, and 64
  otherwise. The value is stored, and every later call returns it, whatever the operating
  system then answers.
\<close>

theorem GetCurrentProcessCpuCount_range:
  assumes "GetCurrentProcessCpuCount affinity 0 = (r, cCPUs)"
  shows "1 \<le> unat r \<and> unat r \<le> 64 \<and>
         (affinity = None \<longrightarrow> r = 1) \<and>
         (\<forall>pmask smask. affinity = Some (pmask, smask) \<longrightarrow>
            unat r = (if 1 \<le> popcount (pmask AND smask) \<and> popcount (pmask AND smask) \<le> 64
                      then popcount (pmask AND smask) else 64)) \<and>
         (\<forall>affinity'. GetCurrentProcessCpuCount affinity' cCPUs = (r, cCPUs))"
proof (cases affinity)
  case None
  with assms have "r = 1" "cCPUs = 1" by (simp_all add: cpu_count_first_call)
  then show ?thesis using None by (simp add: GetCurrentProcessCpuCount_def)
next
  case (Some a)
  obtain pmask smask where a: "a = (pmask, smask)" by (cases a)
  let ?n = "popcount (pmask AND smask)"
  have le: "?n \<le> 64"
    using popcount_le [of "pmask AND smask"] by simp
  show ?thesis
  proof (cases "?n = 0")
    case True
    with assms have "r = 64" "cCPUs = 64" by (simp_all add: cpu_count_first_call Some a)
    then show ?thesis using True by (simp add: Some a GetCurrentProcessCpuCount_def)
  next
    case False
    with assms have r: "r = of_nat ?n" "cCPUs = of_nat ?n"
      by (auto simp add: cpu_count_first_call Some a Let_def)
    have u: "unat r = ?n" using small_count_unat [OF le] r by simp
    have nz: "r \<noteq> 0" using small_count_zero [OF le] False r by simp
    show ?thesis using u nz False le r
      by (simp add: Some a GetCurrentProcessCpuCount_def)
  qed
qed

theorem GetCurrentProcessCpuCount_range_witness:
  "GetCurrentProcessCpuCount (Some (0xFF, 0x0F)) 0 = (4, 4) \<and>
   (\<forall>affinity'. GetCurrentProcessCpuCount affinity' 4 = (4, 4))"
proof -
  have p: "popcount (15 :: DWORD_PTR) = 4"
    by code_simp
  have run: "GetCurrentProcessCpuCount (Some (0xFF, 0x0F)) 0 = (4, 4)"
    by (simp add: cpu_count_first_call p)
  from GetCurrentProcessCpuCount_range [OF run] run show ?thesis by simp
qed

subsection \<open>Restricted physical memory limit\<close>

lemma min_UINTPTR_MAX [simp]: "min x UINTPTR_MAX = x" "min UINTPTR_MAX x = x"
  by (simp_all add: UINTPTR_MAX_def min_absorb1 min_absorb2)

lemma less_not_UINTPTR_MAX: "x < y \<Longrightarrow> x \<noteq> UINTPTR_MAX"
  for x y :: "'a::len word"
  unfolding UINTPTR_MAX_def by (metis word_order.extremum_strict)

lemma UINTPTR_MAX_nonzero [simp]: "UINTPTR_MAX \<noteq> 0" "0 \<noteq> UINTPTR_MAX"
  by (simp_all add: UINTPTR_MAX_def)

lemma UINTPTR_MAX_32: "(UINTPTR_MAX :: 32 word) = 0xFFFFFFFF"
  by (simp add: UINTPTR_MAX_def)

lemma UINTPTR_MAX_64: "(UINTPTR_MAX :: 64 word) = 0xFFFFFFFFFFFFFFFF"
  by (simp add: UINTPTR_MAX_def)

text \<open>
  Conversions between \<^verbatim>\<open>size_t\<close> and \<^verbatim>\<open>uint64_t\<close> when \<^verbatim>\<open>size_t\<close> is not the wider
  of the two: extending keeps the value and the order, and a 64-bit value below the
  sentinel of \<^verbatim>\<open>size_t\<close> survives the cast to \<^verbatim>\<open>size_t\<close> and back.
\<close>

lemma unat_ucast_size:
  assumes "LENGTH('a::len) \<le> 64"
  shows "unat (ucast (x :: 'a word) :: uint64_t) = unat x"
proof -
  have "unat x < 2 ^ LENGTH('a)" by (rule unsigned_less)
  also have "(2::nat) ^ LENGTH('a) \<le> 2 ^ 64"
    using assms by (rule power_increasing) simp
  finally show ?thesis
    by (simp add: unsigned_ucast_eq take_bit_nat_eq_self)
qed

lemma unat_sentinel: "unat (UINTPTR_MAX :: 'a::len word) = 2 ^ LENGTH('a) - 1"
  by (simp add: UINTPTR_MAX_def unsigned_minus_1_eq_mask mask_eq_exp_minus_1)

lemma ucast_size_le_sentinel:
  assumes "LENGTH('a::len) \<le> 64"
  shows "(ucast (x :: 'a word) :: uint64_t) \<le> ucast (UINTPTR_MAX :: 'a word)"
proof -
  have "unat x < 2 ^ LENGTH('a)" by (rule unsigned_less)
  moreover have "(0::nat) < 2 ^ LENGTH('a)" by simp
  ultimately have "unat x \<le> 2 ^ LENGTH('a) - 1" by linarith
  then show ?thesis
    using assms by (simp add: word_le_nat_alt unat_ucast_size unat_sentinel)
qed

lemma ucast_size_min:
  assumes "LENGTH('a::len) \<le> 64"
  shows "(ucast (min x y :: 'a word) :: uint64_t) = min (ucast x) (ucast y)"
  using assms by (simp add: min_def word_le_nat_alt unat_ucast_size)

lemma unat_ucast_down:
  assumes "v < ucast (UINTPTR_MAX :: 'a::len word)" and "LENGTH('a) \<le> 64"
  shows "unat (ucast (v :: uint64_t) :: 'a word) = unat v"
proof -
  from assms have "unat v < 2 ^ LENGTH('a) - 1"
    by (simp add: word_less_nat_alt unat_ucast_size unat_sentinel)
  then show ?thesis
    by (simp add: unsigned_ucast_eq take_bit_nat_eq_self)
qed

lemma ucast_size_round_trip:
  assumes "LENGTH('a::len) \<le> 64" and "v < ucast (UINTPTR_MAX :: 'a word)"
  shows "(ucast (ucast v :: 'a word) :: uint64_t) = v"
    and "(ucast v :: 'a word) \<noteq> UINTPTR_MAX"
    and "v \<noteq> 0 \<Longrightarrow> (ucast v :: 'a word) \<noteq> 0"
proof -
  have d: "unat (ucast v :: 'a word) = unat v"
    using assms(2,1) by (rule unat_ucast_down)
  have lt: "unat v < 2 ^ LENGTH('a) - 1"
    using assms by (simp add: word_less_nat_alt unat_ucast_size unat_sentinel)
  show "(ucast (ucast v :: 'a word) :: uint64_t) = v"
    using assms(1) d by (simp add: word_unat_eq_iff unat_ucast_size)
  show "(ucast v :: 'a word) \<noteq> UINTPTR_MAX"
    using d lt by (auto simp add: word_unat_eq_iff unat_sentinel)
  show "v \<noteq> 0 \<Longrightarrow> (ucast v :: 'a word) \<noteq> 0"
    using d by (simp add: word_unat_eq_iff)
qed

text \<open>
  The value of \<^verbatim>\<open>job_physical_memory_limit\<close> after the clamp is the minimum of the quotas
  that are set and of the total physical memory, cut off at the sentinel of \<^verbatim>\<open>size_t\<close>
  and cast to \<^verbatim>\<open>size_t\<close>; it is that minimum itself when the minimum is below the
  sentinel, which at 64 bits means: when it is not the sentinel.
\<close>

lemma min_ucast_sentinel:
  assumes "LENGTH('a::len) \<le> 64"
  shows "min (ucast (x :: 'a word) :: uint64_t) (ucast (UINTPTR_MAX :: 'a word)) = ucast x"
    and "min (ucast (UINTPTR_MAX :: 'a word)) (ucast x :: uint64_t) = ucast x"
    and "min (ucast (UINTPTR_MAX :: 'a word)) (min (ucast x :: uint64_t) y) = min (ucast x) y"
    and "min (ucast x :: uint64_t) (min (ucast (UINTPTR_MAX :: 'a word)) y) = min (ucast x) y"
proof -
  have le: "(ucast x :: uint64_t) \<le> ucast (UINTPTR_MAX :: 'a word)"
    using assms by (rule ucast_size_le_sentinel)
  show a: "min (ucast x :: uint64_t) (ucast (UINTPTR_MAX :: 'a word)) = ucast x"
    using le by (rule min_absorb1)
  show b: "min (ucast (UINTPTR_MAX :: 'a word)) (ucast x :: uint64_t) = ucast x"
    using le by (rule min_absorb2)
  show "min (ucast (UINTPTR_MAX :: 'a word)) (min (ucast x :: uint64_t) y) = min (ucast x) y"
    by (simp only: min.assoc [symmetric] b)
  show "min (ucast x :: uint64_t) (min (ucast (UINTPTR_MAX :: 'a word)) y) = min (ucast x) y"
    by (simp only: min.assoc [symmetric] a)
qed

lemma clamped_quota_fold:
  "clamped_quota limit_info ms = fold min (map ucast (quotas_set limit_info)) (ullTotalPhys ms)"
  unfolding clamped_quota_def by (rule Min.set_eq_fold)

lemma job_limit_from_info_clamped:
  assumes "LENGTH('a::len) \<le> 64"
  shows "job_limit_from_info (limit_info :: 'a JOBOBJECT_EXTENDED_LIMIT_INFORMATION) ms =
           ucast (min (ucast (UINTPTR_MAX :: 'a word)) (clamped_quota limit_info ms))"
  by (simp add: job_limit_from_info_def clamped_quota_fold quotas_set_def Let_def
      ucast_size_min [OF assms] min_ucast_sentinel [OF assms]
      min.commute min.left_commute min.assoc)

lemma job_limit_from_info_proper:
  assumes "LENGTH('a::len) \<le> 64"
    and "clamped_quota (limit_info :: 'a JOBOBJECT_EXTENDED_LIMIT_INFORMATION) ms
           < ucast (UINTPTR_MAX :: 'a word)"
  shows "job_limit_from_info limit_info ms = ucast (clamped_quota limit_info ms)"
  using assms(2) by (simp add: job_limit_from_info_clamped [OF assms(1)] min_absorb2)

lemma detect_job_limit_in_job:
  assumes "job_limit_info_read os = Some limit_info"
    and "GlobalMemoryStatusEx os = Some ms"
  shows "detect_job_limit os g =
           Inr \<lparr>job_physical_memory_limit = job_limit_from_info limit_info ms,
                total_virtual = ullTotalVirtual ms,
                total_physical = ullAvailPhys ms,
                hinstKernel32 = True,
                globals_at_exit = g\<lparr>GCGetProcessMemoryInfo := True\<rparr>\<rparr>"
  using assms
  by (simp add: detect_job_limit_def job_limit_info_read_def GetProcessMemoryLoad_def
      split: if_splits)

lemma detect_job_limit_no_info:
  assumes "job_limit_info_read os = None"
  shows "\<exists>h g1. detect_job_limit os g =
           Inr \<lparr>job_physical_memory_limit = UINTPTR_MAX, total_virtual = 0,
                total_physical = 0, hinstKernel32 = h, globals_at_exit = g1\<rparr> \<and>
           g_UseRestrictedVirtualMemory g1 = g_UseRestrictedVirtualMemory g"
  using assms
  by (auto simp add: detect_job_limit_def job_limit_info_read_def Let_def
      split: if_splits option.splits)

lemma clamped_quota_le_total: "clamped_quota limit_info ms \<le> ullTotalPhys ms"
  unfolding clamped_quota_def by (rule Min_le) simp_all

lemma restricted_limit_in_job:
  assumes len: "LENGTH('a::len) \<le> 64"
    and info: "job_limit_info_read (os :: 'a memory_os) = Some limit_info"
    and ms: "GlobalMemoryStatusEx os = Some ms"
    and unc: "g_RestrictedPhysicalMemoryLimit g = UINTPTR_MAX"
    and nz: "clamped_quota limit_info ms \<noteq> 0"
    and ns: "clamped_quota limit_info ms < ucast (UINTPTR_MAX :: 'a word)"
  shows "\<exists>g'. GetRestrictedPhysicalMemoryLimit os g =
           Inr (ucast (if ullTotalVirtual ms < clamped_quota limit_info ms
                       then ullTotalVirtual ms else clamped_quota limit_info ms), g') \<and>
           g_RestrictedPhysicalMemoryLimit g' =
             ucast (if ullTotalVirtual ms < clamped_quota limit_info ms
                    then ullTotalVirtual ms else clamped_quota limit_info ms) \<and>
           g_UseRestrictedVirtualMemory g' =
             (ullTotalVirtual ms < clamped_quota limit_info ms \<or> g_UseRestrictedVirtualMemory g)"
proof -
  let ?q = "clamped_quota limit_info ms"
  have jl: "job_limit_from_info limit_info ms = ucast ?q"
    using len ns by (rule job_limit_from_info_proper)
  have rt: "(ucast (ucast ?q :: 'a word) :: uint64_t) = ?q"
    and nsent: "(ucast ?q :: 'a word) \<noteq> UINTPTR_MAX"
    and nzero: "(ucast ?q :: 'a word) \<noteq> 0"
    using ucast_size_round_trip [OF len ns] nz by simp_all
  show ?thesis
  proof (cases "ullTotalVirtual ms = 0")
    case True
    then have "ullTotalVirtual ms < ?q"
      using nz by (simp add: word_neq_0_conv)
    then show ?thesis
      using True nsent nzero unc ms
      by (simp add: GetRestrictedPhysicalMemoryLimit_def detect_job_limit_in_job [OF info ms]
          publish_limit_def GetProcessMemoryLoad_def jl rt)
  next
    case False
    then show ?thesis
      using nsent nzero unc ms
      by (simp add: GetRestrictedPhysicalMemoryLimit_def detect_job_limit_in_job [OF info ms]
          publish_limit_def GetProcessMemoryLoad_def jl rt)
  qed
qed

lemma restricted_limit_no_job:
  assumes info: "job_limit_info_read os = None"
    and ms: "GlobalMemoryStatusEx os = Some ms"
    and unc: "g_RestrictedPhysicalMemoryLimit g = UINTPTR_MAX"
  shows "\<exists>g'. GetRestrictedPhysicalMemoryLimit os g =
           Inr (if ullTotalVirtual ms < ullTotalPhys ms
                then ucast (ullTotalVirtual ms) else 0, g') \<and>
           g_RestrictedPhysicalMemoryLimit g' =
             (if ullTotalVirtual ms < ullTotalPhys ms then ucast (ullTotalVirtual ms) else 0) \<and>
           g_UseRestrictedVirtualMemory g' =
             (ullTotalVirtual ms < ullTotalPhys ms \<or> g_UseRestrictedVirtualMemory g)"
proof -
  from detect_job_limit_no_info [OF info, of g] obtain h g1 where
    d: "detect_job_limit os g =
          Inr \<lparr>job_physical_memory_limit = UINTPTR_MAX, total_virtual = 0,
               total_physical = 0, hinstKernel32 = h, globals_at_exit = g1\<rparr>"
      and u: "g_UseRestrictedVirtualMemory g1 = g_UseRestrictedVirtualMemory g"
    by blast
  show ?thesis
    using unc ms u
    by (simp add: GetRestrictedPhysicalMemoryLimit_def d publish_limit_def
        GetProcessMemoryLoad_def)
qed

lemma publish_limit_not_sentinel:
  fixes v :: "64 word"
  assumes "publish_limit os l = Inr (v, g')"
  shows "g_RestrictedPhysicalMemoryLimit g' = v \<and> v \<noteq> UINTPTR_MAX"
  using assms
  by (auto simp add: publish_limit_def Let_def less_not_UINTPTR_MAX
      split: if_splits sum.splits)

lemma physical_limit_restricted:
  assumes "GetRestrictedPhysicalMemoryLimit os g = Inr (v, g')" and "v \<noteq> 0"
  shows "GetPhysicalMemoryLimit os g = Inr (ucast v, True, g')"
  using assms by (simp add: GetPhysicalMemoryLimit_def)

text \<open>
  C5. The variable starts at the sentinel \<open>UINTPTR_MAX\<close>, which stands for "not yet
  computed". Whenever a call returns, the value it returns is the one now stored, and it is
  not the sentinel; a call that finds a stored value returns it and changes nothing. Hence
  after the first call that returns, every later call returns the same value and leaves the
  globals as they are, whatever the operating system would answer then: nothing is computed
  again. (The store is \<^verbatim>\<open>VolatileStore\<close>; the model is sequential.) The statement is for
  the 64-bit \<^verbatim>\<open>size_t\<close>; \<open>restricted_limit_cached_any_width\<close> below covers the other
  width.
\<close>

theorem restricted_limit_computed_once:
  fixes os :: "64 memory_os"
  assumes "GetRestrictedPhysicalMemoryLimit os g = Inr (v, g')"
  shows "g_RestrictedPhysicalMemoryLimit initial_memory_globals = UINTPTR_MAX \<and>
         g_RestrictedPhysicalMemoryLimit g' = v \<and> v \<noteq> UINTPTR_MAX \<and>
         (g_RestrictedPhysicalMemoryLimit g \<noteq> UINTPTR_MAX \<longrightarrow>
            v = g_RestrictedPhysicalMemoryLimit g \<and> g' = g) \<and>
         (\<forall>os'. GetRestrictedPhysicalMemoryLimit os' g' = Inr (v, g'))"
proof -
  have stored: "g_RestrictedPhysicalMemoryLimit g' = v \<and> v \<noteq> UINTPTR_MAX"
  proof (cases "g_RestrictedPhysicalMemoryLimit g = UINTPTR_MAX")
    case True
    with assms obtain l where "publish_limit os l = Inr (v, g')"
      by (auto simp add: GetRestrictedPhysicalMemoryLimit_def split: sum.splits)
    then show ?thesis by (rule publish_limit_not_sentinel)
  next
    case False
    with assms show ?thesis by (auto simp add: GetRestrictedPhysicalMemoryLimit_def)
  qed
  then have again: "\<forall>os'. GetRestrictedPhysicalMemoryLimit os' g' = Inr (v, g')"
    by (simp add: GetRestrictedPhysicalMemoryLimit_def)
  have cached: "g_RestrictedPhysicalMemoryLimit g \<noteq> UINTPTR_MAX \<longrightarrow>
      v = g_RestrictedPhysicalMemoryLimit g \<and> g' = g"
    using assms by (auto simp add: GetRestrictedPhysicalMemoryLimit_def)
  show ?thesis
    using stored again cached by (simp add: initial_memory_globals_def)
qed

text \<open>
  At any width of \<^verbatim>\<open>size_t\<close> a returned value other than the sentinel is stored and is
  returned by every later call. (At 32 bits the cast \<^verbatim>\<open>(size_t)total_virtual\<close> could
  yield the sentinel itself, were the low 32 bits of the total virtual address space all
  ones.)
\<close>

lemma restricted_limit_cached_any_width:
  assumes "GetRestrictedPhysicalMemoryLimit os g = Inr (v, g')" and "v \<noteq> UINTPTR_MAX"
  shows "g_RestrictedPhysicalMemoryLimit g' = v \<and>
         (\<forall>os'. GetRestrictedPhysicalMemoryLimit os' g' = Inr (v, g'))"
proof -
  have "g_RestrictedPhysicalMemoryLimit g' = v"
    using assms(1)
    by (auto simp add: GetRestrictedPhysicalMemoryLimit_def publish_limit_def Let_def
        split: if_splits sum.splits)
  with assms(2) show ?thesis
    by (simp add: GetRestrictedPhysicalMemoryLimit_def)
qed

text \<open>
  C2, as amended. The process runs in a job whose limit information was read, and no value
  is cached yet. If the minimum of the quotas that are set, clamped to the total physical
  memory, is a proper limit (neither 0 nor the sentinel) and the total virtual address space
  is not smaller than it, then this minimum is the restricted limit: it is stored and
  returned, and \<open>GetPhysicalMemoryLimit\<close> returns it with \<open>is_restricted\<close> set.
\<close>

theorem job_quota_limit:
  assumes info: "job_limit_info_read os = Some limit_info"
    and ms: "GlobalMemoryStatusEx os = Some ms"
    and unc: "g_RestrictedPhysicalMemoryLimit g = UINTPTR_MAX"
    and nz: "clamped_quota limit_info ms \<noteq> 0"
    and ns: "clamped_quota limit_info ms \<noteq> UINTPTR_MAX"
    and vm: "clamped_quota limit_info ms \<le> ullTotalVirtual ms"
  shows "\<exists>g'. GetRestrictedPhysicalMemoryLimit os g = Inr (clamped_quota limit_info ms, g') \<and>
           g_RestrictedPhysicalMemoryLimit g' = clamped_quota limit_info ms \<and>
           GetPhysicalMemoryLimit os g = Inr (clamped_quota limit_info ms, True, g')"
proof -
  from vm have nlt: "\<not> ullTotalVirtual ms < clamped_quota limit_info ms" by simp
  from ns have ns': "clamped_quota limit_info ms < ucast (UINTPTR_MAX :: 64 word)"
    by (simp add: UINTPTR_MAX_def word_order.not_eq_extremum)
  from restricted_limit_in_job [OF _ info ms unc nz ns'] nlt obtain g' where
    r: "GetRestrictedPhysicalMemoryLimit os g = Inr (clamped_quota limit_info ms, g')"
      and s: "g_RestrictedPhysicalMemoryLimit g' = clamped_quota limit_info ms"
    by auto
  from physical_limit_restricted [OF r nz] r s show ?thesis by auto
qed

text \<open>
  The same at any width of \<^verbatim>\<open>size_t\<close>, where a proper limit is one that is not 0 and lies
  below the sentinel of \<^verbatim>\<open>size_t\<close>.
\<close>

lemma quota_limit_any_width:
  assumes len: "LENGTH('a::len) \<le> 64"
    and info: "job_limit_info_read (os :: 'a memory_os) = Some limit_info"
    and ms: "GlobalMemoryStatusEx os = Some ms"
    and unc: "g_RestrictedPhysicalMemoryLimit g = UINTPTR_MAX"
    and nz: "clamped_quota limit_info ms \<noteq> 0"
    and ns: "clamped_quota limit_info ms < ucast (UINTPTR_MAX :: 'a word)"
    and vm: "clamped_quota limit_info ms \<le> ullTotalVirtual ms"
  shows "\<exists>g'. GetRestrictedPhysicalMemoryLimit os g
                 = Inr (ucast (clamped_quota limit_info ms), g') \<and>
              g_RestrictedPhysicalMemoryLimit g' = ucast (clamped_quota limit_info ms) \<and>
              GetPhysicalMemoryLimit os g = Inr (clamped_quota limit_info ms, True, g')"
proof -
  let ?q = "clamped_quota limit_info ms"
  from vm have nlt: "\<not> ullTotalVirtual ms < ?q" by simp
  from restricted_limit_in_job [OF len info ms unc nz ns] nlt obtain g' where
    r: "GetRestrictedPhysicalMemoryLimit os g = Inr (ucast ?q, g')"
      and s: "g_RestrictedPhysicalMemoryLimit g' = ucast ?q"
    by auto
  have rt: "(ucast (ucast ?q :: 'a word) :: uint64_t) = ?q"
    and pos: "(ucast ?q :: 'a word) \<noteq> 0"
    using ucast_size_round_trip [OF len ns] nz by simp_all
  from physical_limit_restricted [OF r pos] rt
  have "GetPhysicalMemoryLimit os g = Inr (?q, True, g')" by simp
  with r s show ?thesis by blast
qed

text \<open>
  C9, as amended. The process runs in a job whose limit information was read and has none of
  the three limit flags set; the total physical memory is not 0 and is below the sentinel of
  \<^verbatim>\<open>size_t\<close> (\<open>2^64 - 1\<close> in a 64-bit process, \<open>2^32 - 1\<close> in a 32-bit one), and the
  total virtual address space is not 0. Then the limit published is the smaller of the total
  virtual address space and the total physical memory: the total physical memory itself
  unless the address space is smaller. \<open>GetPhysicalMemoryLimit\<close> returns it with
  \<open>is_restricted\<close> set, although no quota was configured. The statement holds at every
  width of \<^verbatim>\<open>size_t\<close> up to 64 bits.
\<close>

theorem job_without_quota_limit:
  assumes len: "LENGTH('a::len) \<le> 64"
    and info: "job_limit_info_read (os :: 'a memory_os) = Some limit_info"
    and ms: "GlobalMemoryStatusEx os = Some ms"
    and unc: "g_RestrictedPhysicalMemoryLimit g = UINTPTR_MAX"
    and f1: "LimitFlags limit_info AND JOB_OBJECT_LIMIT_JOB_MEMORY = 0"
    and f2: "LimitFlags limit_info AND JOB_OBJECT_LIMIT_PROCESS_MEMORY = 0"
    and f3: "LimitFlags limit_info AND JOB_OBJECT_LIMIT_WORKINGSET = 0"
    and nz: "ullTotalPhys ms \<noteq> 0"
    and ns: "ullTotalPhys ms < ucast (UINTPTR_MAX :: 'a word)"
    and vz: "ullTotalVirtual ms \<noteq> 0"
  shows "\<exists>g'. GetRestrictedPhysicalMemoryLimit os g =
                 Inr (ucast (min (ullTotalVirtual ms) (ullTotalPhys ms)), g') \<and>
              GetPhysicalMemoryLimit os g =
                 Inr (min (ullTotalVirtual ms) (ullTotalPhys ms), True, g') \<and>
              (ullTotalPhys ms \<le> ullTotalVirtual ms \<longrightarrow>
                 g_RestrictedPhysicalMemoryLimit g' = ucast (ullTotalPhys ms))"
proof -
  let ?m = "min (ullTotalVirtual ms) (ullTotalPhys ms)"
  have q: "clamped_quota limit_info ms = ullTotalPhys ms"
    using f1 f2 f3 by (simp add: clamped_quota_def quotas_set_def)
  have nz': "clamped_quota limit_info ms \<noteq> 0"
    and ns': "clamped_quota limit_info ms < ucast (UINTPTR_MAX :: 'a word)"
    using nz ns q by simp_all
  have m: "(if ullTotalVirtual ms < ullTotalPhys ms
            then ullTotalVirtual ms else ullTotalPhys ms) = ?m"
    by (auto simp add: min_def)
  from restricted_limit_in_job [OF len info ms unc nz' ns'] obtain g' where
    r: "GetRestrictedPhysicalMemoryLimit os g = Inr (ucast ?m, g')"
      and s: "g_RestrictedPhysicalMemoryLimit g' = ucast ?m"
    unfolding q m by blast
  have lt: "?m < ucast (UINTPTR_MAX :: 'a word)"
    using ns by (rule min.strict_coboundedI2)
  have pos: "?m \<noteq> 0"
    using nz vz by (simp add: min_def)
  have rt: "(ucast (ucast ?m :: 'a word) :: uint64_t) = ?m"
    and pos': "(ucast ?m :: 'a word) \<noteq> 0"
    using ucast_size_round_trip [OF len lt] pos by simp_all
  from physical_limit_restricted [OF r pos'] rt
  have p: "GetPhysicalMemoryLimit os g = Inr (?m, True, g')" by simp
  have "ullTotalPhys ms \<le> ullTotalVirtual ms \<longrightarrow>
          g_RestrictedPhysicalMemoryLimit g' = ucast (ullTotalPhys ms)"
    using s by (simp add: min_absorb2)
  with r p show ?thesis by blast
qed

text \<open>
  Where the statement of C3 does hold. No value is cached yet and the total virtual address
  space fits \<^verbatim>\<open>size_t\<close>. Either the job's limit information was not read (no job, or a
  step towards the information failed), or it was read and the clamped minimum of the
  quotas is a proper limit. If then the total virtual address space is smaller than the
  effective physical capacity, the limit published is the total virtual address space and
  \<^verbatim>\<open>g_UseRestrictedVirtualMemory\<close> is set; when that limit is not 0,
  \<open>GetPhysicalMemoryLimit\<close> returns it with \<open>is_restricted\<close> set.
\<close>

lemma virtual_memory_constrained_elsewhere:
  assumes len: "LENGTH('a::len) \<le> 64"
    and ms: "GlobalMemoryStatusEx (os :: 'a memory_os) = Some ms"
    and unc: "g_RestrictedPhysicalMemoryLimit g = UINTPTR_MAX"
    and fits: "ullTotalVirtual ms < ucast (UINTPTR_MAX :: 'a word)"
    and proper: "\<And>limit_info. job_limit_info_read os = Some limit_info \<Longrightarrow>
        clamped_quota limit_info ms \<noteq> 0 \<and>
        clamped_quota limit_info ms < ucast (UINTPTR_MAX :: 'a word)"
    and vm: "ullTotalVirtual ms < effective_physical_capacity os ms"
  shows "\<exists>g'. GetRestrictedPhysicalMemoryLimit os g = Inr (ucast (ullTotalVirtual ms), g') \<and>
              g_RestrictedPhysicalMemoryLimit g' = ucast (ullTotalVirtual ms) \<and>
              g_UseRestrictedVirtualMemory g' \<and>
              (ullTotalVirtual ms \<noteq> 0 \<longrightarrow>
                 GetPhysicalMemoryLimit os g = Inr (ullTotalVirtual ms, True, g'))"
proof -
  have rt: "(ucast (ucast (ullTotalVirtual ms) :: 'a word) :: uint64_t) = ullTotalVirtual ms"
    and pos: "ullTotalVirtual ms \<noteq> 0 \<Longrightarrow> (ucast (ullTotalVirtual ms) :: 'a word) \<noteq> 0"
    using ucast_size_round_trip [OF len fits] by simp_all
  have "\<exists>g'. GetRestrictedPhysicalMemoryLimit os g = Inr (ucast (ullTotalVirtual ms), g') \<and>
              g_RestrictedPhysicalMemoryLimit g' = ucast (ullTotalVirtual ms) \<and>
              g_UseRestrictedVirtualMemory g'"
  proof (cases "job_limit_info_read os")
    case None
    with vm have lt: "ullTotalVirtual ms < ullTotalPhys ms"
      by (simp add: effective_physical_capacity_def)
    from restricted_limit_no_job [OF None ms unc] lt show ?thesis by auto
  next
    case (Some limit_info)
    from proper [OF Some] have nz: "clamped_quota limit_info ms \<noteq> 0"
      and ns: "clamped_quota limit_info ms < ucast (UINTPTR_MAX :: 'a word)"
      by simp_all
    from vm Some nz have lt: "ullTotalVirtual ms < clamped_quota limit_info ms"
      by (simp add: effective_physical_capacity_def)
    from restricted_limit_in_job [OF len Some ms unc nz ns] lt show ?thesis by auto
  qed
  then obtain g' where
    r: "GetRestrictedPhysicalMemoryLimit os g = Inr (ucast (ullTotalVirtual ms), g')"
      and s: "g_RestrictedPhysicalMemoryLimit g' = ucast (ullTotalVirtual ms)"
      and u: "g_UseRestrictedVirtualMemory g'"
    by blast
  have "ullTotalVirtual ms \<noteq> 0 \<longrightarrow>
          GetPhysicalMemoryLimit os g = Inr (ullTotalVirtual ms, True, g')"
    using physical_limit_restricted [OF r] pos rt by simp
  with r s u show ?thesis by blast
qed

lemmas memory_eval =
  GetPhysicalMemoryLimit_def GetRestrictedPhysicalMemoryLimit_def detect_job_limit_def
  publish_limit_def GetProcessMemoryLoad_def job_limit_from_info_def
  initial_memory_globals_def UINTPTR_MAX_64 UINTPTR_MAX_32
  JOB_OBJECT_LIMIT_JOB_MEMORY_def JOB_OBJECT_LIMIT_PROCESS_MEMORY_def
  JOB_OBJECT_LIMIT_WORKINGSET_def

lemmas memory_spec_eval =
  job_limit_info_read_def clamped_quota_def quotas_set_def effective_physical_capacity_def

text \<open>
  C2 as stated fails when the address space is the smaller: with a job memory limit of 3 GB,
  8 GB of physical memory and 2 GB of virtual address space, the clamped minimum of the
  quotas is 3 GB and the limit published is 2 GB.
\<close>

theorem job_quota_limit_counterexample:
  "GetRestrictedPhysicalMemoryLimit
     \<lparr>LoadLibraryEx_kernel32 = True, has_IsProcessInJob = True, IsProcessInJob = Some True,
      has_K32GetProcessMemoryInfo = True, has_QueryInformationJobObject = True,
      QueryInformationJobObject =
        Some \<lparr>LimitFlags = 0x200, MaximumWorkingSetSize = 0, ProcessMemoryLimit = 0,
              JobMemoryLimit = 0xC0000000\<rparr>,
      GlobalMemoryStatusEx =
        Some \<lparr>dwMemoryLoad = 50, ullTotalPhys = 0x200000000, ullAvailPhys = 0x100000000,
              ullAvailPageFile = 0x100000000, ullTotalVirtual = 0x80000000,
              ullAvailVirtual = 0x70000000\<rparr>\<rparr>
     initial_memory_globals
   = Inr (0x80000000 :: size_t,
          \<lparr>g_RestrictedPhysicalMemoryLimit = 0x80000000,
           g_UseRestrictedVirtualMemory = True, GCGetProcessMemoryInfo = False\<rparr>) \<and>
   clamped_quota
     \<lparr>LimitFlags = 0x200, MaximumWorkingSetSize = 0, ProcessMemoryLimit = 0,
      JobMemoryLimit = 0xC0000000 :: size_t\<rparr>
     \<lparr>dwMemoryLoad = 50, ullTotalPhys = 0x200000000, ullAvailPhys = 0x100000000,
      ullAvailPageFile = 0x100000000, ullTotalVirtual = 0x80000000,
      ullAvailVirtual = 0x70000000\<rparr>
   = 0xC0000000"
  by (simp add: memory_eval memory_spec_eval)

text \<open>
  The example of C2: a job memory limit of 100 MB, the other two quotas unset (their fields
  hold 0 and are ignored), 1 GB of physical memory, and the address space of a 64-bit
  process.
\<close>

theorem job_quota_limit_witness:
  "\<exists>g'. GetPhysicalMemoryLimit
     \<lparr>LoadLibraryEx_kernel32 = True, has_IsProcessInJob = True, IsProcessInJob = Some True,
      has_K32GetProcessMemoryInfo = True, has_QueryInformationJobObject = True,
      QueryInformationJobObject =
        Some \<lparr>LimitFlags = 0x200, MaximumWorkingSetSize = 0, ProcessMemoryLimit = 0,
              JobMemoryLimit = 104857600 :: size_t\<rparr>,
      GlobalMemoryStatusEx =
        Some \<lparr>dwMemoryLoad = 50, ullTotalPhys = 1073741824, ullAvailPhys = 536870912,
              ullAvailPageFile = 2147483648, ullTotalVirtual = 140737488224256,
              ullAvailVirtual = 140737000000000\<rparr>\<rparr>
     initial_memory_globals
   = Inr (104857600, True, g')"
proof -
  let ?li = "\<lparr>LimitFlags = 0x200, MaximumWorkingSetSize = 0, ProcessMemoryLimit = 0,
              JobMemoryLimit = 104857600 :: size_t\<rparr>"
  let ?ms = "\<lparr>dwMemoryLoad = 50, ullTotalPhys = 1073741824, ullAvailPhys = 536870912,
              ullAvailPageFile = 2147483648, ullTotalVirtual = 140737488224256,
              ullAvailVirtual = 140737000000000\<rparr>"
  let ?os = "\<lparr>LoadLibraryEx_kernel32 = True, has_IsProcessInJob = True,
      IsProcessInJob = Some True,
      has_K32GetProcessMemoryInfo = True, has_QueryInformationJobObject = True,
      QueryInformationJobObject = Some ?li, GlobalMemoryStatusEx = Some ?ms\<rparr>"
  have q: "clamped_quota ?li ?ms = 104857600"
    by (simp add: memory_spec_eval JOB_OBJECT_LIMIT_JOB_MEMORY_def
        JOB_OBJECT_LIMIT_PROCESS_MEMORY_def JOB_OBJECT_LIMIT_WORKINGSET_def)
  have "\<exists>g'. GetRestrictedPhysicalMemoryLimit ?os initial_memory_globals
            = Inr (clamped_quota ?li ?ms, g') \<and>
          g_RestrictedPhysicalMemoryLimit g' = clamped_quota ?li ?ms \<and>
          GetPhysicalMemoryLimit ?os initial_memory_globals
            = Inr (clamped_quota ?li ?ms, True, g')"
  proof (rule job_quota_limit)
    show "job_limit_info_read ?os = Some ?li" by (simp add: job_limit_info_read_def)
    show "GlobalMemoryStatusEx ?os = Some ?ms" by simp
    show "g_RestrictedPhysicalMemoryLimit initial_memory_globals = UINTPTR_MAX"
      by (simp add: initial_memory_globals_def)
    show "clamped_quota ?li ?ms \<noteq> 0" by (simp add: q)
    show "clamped_quota ?li ?ms \<noteq> UINTPTR_MAX" by (simp add: q UINTPTR_MAX_64)
    show "clamped_quota ?li ?ms \<le> ullTotalVirtual ?ms" by (simp add: q)
  qed
  then show ?thesis unfolding q by blast
qed

theorem restricted_limit_computed_once_witness:
  "GetRestrictedPhysicalMemoryLimit
     \<lparr>LoadLibraryEx_kernel32 = True, has_IsProcessInJob = True, IsProcessInJob = Some True,
      has_K32GetProcessMemoryInfo = True, has_QueryInformationJobObject = True,
      QueryInformationJobObject =
        Some \<lparr>LimitFlags = 0x200, MaximumWorkingSetSize = 0, ProcessMemoryLimit = 0,
              JobMemoryLimit = 104857600\<rparr>,
      GlobalMemoryStatusEx =
        Some \<lparr>dwMemoryLoad = 50, ullTotalPhys = 1073741824, ullAvailPhys = 536870912,
              ullAvailPageFile = 2147483648, ullTotalVirtual = 140737488224256,
              ullAvailVirtual = 140737000000000\<rparr>\<rparr>
     initial_memory_globals
   = Inr (104857600 :: size_t,
          \<lparr>g_RestrictedPhysicalMemoryLimit = 104857600,
           g_UseRestrictedVirtualMemory = False, GCGetProcessMemoryInfo = True\<rparr>) \<and>
   (\<forall>os'. GetRestrictedPhysicalMemoryLimit os'
      \<lparr>g_RestrictedPhysicalMemoryLimit = 104857600 :: size_t,
       g_UseRestrictedVirtualMemory = False, GCGetProcessMemoryInfo = True\<rparr>
    = Inr (104857600,
           \<lparr>g_RestrictedPhysicalMemoryLimit = 104857600,
            g_UseRestrictedVirtualMemory = False, GCGetProcessMemoryInfo = True\<rparr>))"
proof -
  let ?os = "\<lparr>LoadLibraryEx_kernel32 = True, has_IsProcessInJob = True,
      IsProcessInJob = Some True,
      has_K32GetProcessMemoryInfo = True, has_QueryInformationJobObject = True,
      QueryInformationJobObject =
        Some \<lparr>LimitFlags = 0x200, MaximumWorkingSetSize = 0, ProcessMemoryLimit = 0,
              JobMemoryLimit = 104857600 :: size_t\<rparr>,
      GlobalMemoryStatusEx =
        Some \<lparr>dwMemoryLoad = 50, ullTotalPhys = 1073741824, ullAvailPhys = 536870912,
              ullAvailPageFile = 2147483648, ullTotalVirtual = 140737488224256,
              ullAvailVirtual = 140737000000000\<rparr>\<rparr>"
  let ?g' = "\<lparr>g_RestrictedPhysicalMemoryLimit = 104857600 :: size_t,
           g_UseRestrictedVirtualMemory = False, GCGetProcessMemoryInfo = True\<rparr>"
  have first: "GetRestrictedPhysicalMemoryLimit ?os initial_memory_globals
      = Inr (104857600, ?g')"
    by (simp add: memory_eval)
  from restricted_limit_computed_once [OF first] first show ?thesis by blast
qed

text \<open>
  C9 as stated fails in two ways. In a 64-bit process, in a job without quotas, with 8 GB of
  physical memory and 2 GB of virtual address space, the limit published is 2 GB, not the
  total physical memory: the comparison with the address space comes after the clamp. In a
  32-bit process, in a job without quotas on a machine with 8 GB of physical memory (1 GB of
  it available, 2 GB of address space), the clamp \<^verbatim>\<open>(size_t) min (0xFFFFFFFF, 8 GB)\<close> is the
  sentinel again, the limit published is 0 and \<open>GetPhysicalMemoryLimit\<close> returns the total
  physical memory with \<open>is_restricted\<close> not set: a \<^verbatim>\<open>size_t\<close> of 32 bits cannot hold 8 GB.
\<close>

theorem job_without_quota_limit_counterexample:
  "GetPhysicalMemoryLimit
     \<lparr>LoadLibraryEx_kernel32 = True, has_IsProcessInJob = True, IsProcessInJob = Some True,
      has_K32GetProcessMemoryInfo = True, has_QueryInformationJobObject = True,
      QueryInformationJobObject =
        Some \<lparr>LimitFlags = 0, MaximumWorkingSetSize = 0, ProcessMemoryLimit = 0,
              JobMemoryLimit = 0 :: 64 word\<rparr>,
      GlobalMemoryStatusEx =
        Some \<lparr>dwMemoryLoad = 50, ullTotalPhys = 0x200000000, ullAvailPhys = 0x100000000,
              ullAvailPageFile = 0x100000000, ullTotalVirtual = 0x80000000,
              ullAvailVirtual = 0x70000000\<rparr>\<rparr>
     initial_memory_globals
   = Inr (0x80000000, True,
          \<lparr>g_RestrictedPhysicalMemoryLimit = 0x80000000,
           g_UseRestrictedVirtualMemory = True, GCGetProcessMemoryInfo = False\<rparr>) \<and>
   (0x80000000 :: uint64_t) \<noteq> 0x200000000 \<and>
   GetRestrictedPhysicalMemoryLimit
     \<lparr>LoadLibraryEx_kernel32 = True, has_IsProcessInJob = True, IsProcessInJob = Some True,
      has_K32GetProcessMemoryInfo = True, has_QueryInformationJobObject = True,
      QueryInformationJobObject =
        Some \<lparr>LimitFlags = 0, MaximumWorkingSetSize = 0, ProcessMemoryLimit = 0,
              JobMemoryLimit = 0 :: 32 word\<rparr>,
      GlobalMemoryStatusEx =
        Some \<lparr>dwMemoryLoad = 50, ullTotalPhys = 0x200000000, ullAvailPhys = 0x40000000,
              ullAvailPageFile = 0x100000000, ullTotalVirtual = 0x80000000,
              ullAvailVirtual = 0x70000000\<rparr>\<rparr>
     initial_memory_globals
   = Inr (0,
          \<lparr>g_RestrictedPhysicalMemoryLimit = 0,
           g_UseRestrictedVirtualMemory = False, GCGetProcessMemoryInfo = False\<rparr>) \<and>
   GetPhysicalMemoryLimit
     \<lparr>LoadLibraryEx_kernel32 = True, has_IsProcessInJob = True, IsProcessInJob = Some True,
      has_K32GetProcessMemoryInfo = True, has_QueryInformationJobObject = True,
      QueryInformationJobObject =
        Some \<lparr>LimitFlags = 0, MaximumWorkingSetSize = 0, ProcessMemoryLimit = 0,
              JobMemoryLimit = 0 :: 32 word\<rparr>,
      GlobalMemoryStatusEx =
        Some \<lparr>dwMemoryLoad = 50, ullTotalPhys = 0x200000000, ullAvailPhys = 0x40000000,
              ullAvailPageFile = 0x100000000, ullTotalVirtual = 0x80000000,
              ullAvailVirtual = 0x70000000\<rparr>\<rparr>
     initial_memory_globals
   = Inr (0x200000000, False,
          \<lparr>g_RestrictedPhysicalMemoryLimit = 0,
           g_UseRestrictedVirtualMemory = False, GCGetProcessMemoryInfo = False\<rparr>)"
  by (simp add: memory_eval)

text \<open>
  Two instances of the amended C9: a 64-bit process on a machine with 8 GB of physical
  memory, and a 32-bit process on a machine with 1 GB.
\<close>

theorem job_without_quota_limit_witness:
  "(\<exists>g'. GetPhysicalMemoryLimit
     \<lparr>LoadLibraryEx_kernel32 = True, has_IsProcessInJob = True, IsProcessInJob = Some True,
      has_K32GetProcessMemoryInfo = True, has_QueryInformationJobObject = True,
      QueryInformationJobObject =
        Some \<lparr>LimitFlags = 0, MaximumWorkingSetSize = 0, ProcessMemoryLimit = 0,
              JobMemoryLimit = 0 :: 64 word\<rparr>,
      GlobalMemoryStatusEx =
        Some \<lparr>dwMemoryLoad = 50, ullTotalPhys = 0x200000000, ullAvailPhys = 0x100000000,
              ullAvailPageFile = 0x100000000, ullTotalVirtual = 0x7FFFFFFE0000,
              ullAvailVirtual = 0x7FFF00000000\<rparr>\<rparr>
     initial_memory_globals
   = Inr (0x200000000, True, g') \<and> g_RestrictedPhysicalMemoryLimit g' = 0x200000000) \<and>
   (\<exists>g'. GetPhysicalMemoryLimit
     \<lparr>LoadLibraryEx_kernel32 = True, has_IsProcessInJob = True, IsProcessInJob = Some True,
      has_K32GetProcessMemoryInfo = True, has_QueryInformationJobObject = True,
      QueryInformationJobObject =
        Some \<lparr>LimitFlags = 0, MaximumWorkingSetSize = 0, ProcessMemoryLimit = 0,
              JobMemoryLimit = 0 :: 32 word\<rparr>,
      GlobalMemoryStatusEx =
        Some \<lparr>dwMemoryLoad = 50, ullTotalPhys = 0x40000000, ullAvailPhys = 0x20000000,
              ullAvailPageFile = 0x80000000, ullTotalVirtual = 0x7FFE0000,
              ullAvailVirtual = 0x70000000\<rparr>\<rparr>
     initial_memory_globals
   = Inr (0x40000000, True, g') \<and> g_RestrictedPhysicalMemoryLimit g' = 0x40000000)"
proof -
  let ?li = "\<lparr>LimitFlags = 0, MaximumWorkingSetSize = 0, ProcessMemoryLimit = 0,
              JobMemoryLimit = 0 :: 64 word\<rparr>"
  let ?ms = "\<lparr>dwMemoryLoad = 50, ullTotalPhys = 0x200000000, ullAvailPhys = 0x100000000,
              ullAvailPageFile = 0x100000000, ullTotalVirtual = 0x7FFFFFFE0000,
              ullAvailVirtual = 0x7FFF00000000\<rparr>"
  let ?os = "\<lparr>LoadLibraryEx_kernel32 = True, has_IsProcessInJob = True,
      IsProcessInJob = Some True,
      has_K32GetProcessMemoryInfo = True, has_QueryInformationJobObject = True,
      QueryInformationJobObject = Some ?li, GlobalMemoryStatusEx = Some ?ms\<rparr>"
  let ?li32 = "\<lparr>LimitFlags = 0, MaximumWorkingSetSize = 0, ProcessMemoryLimit = 0,
              JobMemoryLimit = 0 :: 32 word\<rparr>"
  let ?ms32 = "\<lparr>dwMemoryLoad = 50, ullTotalPhys = 0x40000000, ullAvailPhys = 0x20000000,
              ullAvailPageFile = 0x80000000, ullTotalVirtual = 0x7FFE0000,
              ullAvailVirtual = 0x70000000\<rparr>"
  let ?os32 = "\<lparr>LoadLibraryEx_kernel32 = True, has_IsProcessInJob = True,
      IsProcessInJob = Some True,
      has_K32GetProcessMemoryInfo = True, has_QueryInformationJobObject = True,
      QueryInformationJobObject = Some ?li32, GlobalMemoryStatusEx = Some ?ms32\<rparr>"
  have "\<exists>g'. GetRestrictedPhysicalMemoryLimit ?os initial_memory_globals =
                 Inr (ucast (min (ullTotalVirtual ?ms) (ullTotalPhys ?ms)), g') \<and>
              GetPhysicalMemoryLimit ?os initial_memory_globals =
                 Inr (min (ullTotalVirtual ?ms) (ullTotalPhys ?ms), True, g') \<and>
              (ullTotalPhys ?ms \<le> ullTotalVirtual ?ms \<longrightarrow>
                 g_RestrictedPhysicalMemoryLimit g' = ucast (ullTotalPhys ?ms))"
  proof (rule job_without_quota_limit)
    show "LENGTH(64) \<le> 64" by simp
    show "job_limit_info_read ?os = Some ?li" by (simp add: job_limit_info_read_def)
    show "GlobalMemoryStatusEx ?os = Some ?ms" by simp
    show "g_RestrictedPhysicalMemoryLimit (initial_memory_globals :: 64 memory_globals)
            = UINTPTR_MAX"
      by (simp add: initial_memory_globals_def)
    show "LimitFlags ?li AND JOB_OBJECT_LIMIT_JOB_MEMORY = 0" by simp
    show "LimitFlags ?li AND JOB_OBJECT_LIMIT_PROCESS_MEMORY = 0" by simp
    show "LimitFlags ?li AND JOB_OBJECT_LIMIT_WORKINGSET = 0" by simp
    show "ullTotalPhys ?ms \<noteq> 0" by simp
    show "ullTotalPhys ?ms < ucast (UINTPTR_MAX :: 64 word)" by (simp add: UINTPTR_MAX_64)
    show "ullTotalVirtual ?ms \<noteq> 0" by simp
  qed
  then have a: "\<exists>g'. GetPhysicalMemoryLimit ?os initial_memory_globals
      = Inr (0x200000000, True, g') \<and> g_RestrictedPhysicalMemoryLimit g' = 0x200000000"
    by auto
  have "\<exists>g'. GetRestrictedPhysicalMemoryLimit ?os32 initial_memory_globals =
                 Inr (ucast (min (ullTotalVirtual ?ms32) (ullTotalPhys ?ms32)), g') \<and>
              GetPhysicalMemoryLimit ?os32 initial_memory_globals =
                 Inr (min (ullTotalVirtual ?ms32) (ullTotalPhys ?ms32), True, g') \<and>
              (ullTotalPhys ?ms32 \<le> ullTotalVirtual ?ms32 \<longrightarrow>
                 g_RestrictedPhysicalMemoryLimit g' = ucast (ullTotalPhys ?ms32))"
  proof (rule job_without_quota_limit)
    show "LENGTH(32) \<le> 64" by simp
    show "job_limit_info_read ?os32 = Some ?li32" by (simp add: job_limit_info_read_def)
    show "GlobalMemoryStatusEx ?os32 = Some ?ms32" by simp
    show "g_RestrictedPhysicalMemoryLimit (initial_memory_globals :: 32 memory_globals)
            = UINTPTR_MAX"
      by (simp add: initial_memory_globals_def)
    show "LimitFlags ?li32 AND JOB_OBJECT_LIMIT_JOB_MEMORY = 0" by simp
    show "LimitFlags ?li32 AND JOB_OBJECT_LIMIT_PROCESS_MEMORY = 0" by simp
    show "LimitFlags ?li32 AND JOB_OBJECT_LIMIT_WORKINGSET = 0" by simp
    show "ullTotalPhys ?ms32 \<noteq> 0" by simp
    show "ullTotalPhys ?ms32 < ucast (UINTPTR_MAX :: 32 word)" by (simp add: UINTPTR_MAX_32)
    show "ullTotalVirtual ?ms32 \<noteq> 0" by simp
  qed
  then have b: "\<exists>g'. GetPhysicalMemoryLimit ?os32 initial_memory_globals
      = Inr (0x40000000, True, g') \<and> g_RestrictedPhysicalMemoryLimit g' = 0x40000000"
    by auto
  from a b show ?thesis by (rule conjI)
qed

text \<open>
  C3. A 32-bit process in a job whose limit information was read and sets no quota, on a
  machine with 8 GB of physical memory of which 1 GB is available, with 2 GB of virtual
  address space. No job limit is in force, so the effective physical capacity is the total
  physical memory, 8 GB, and the address space is smaller. The clamp leaves the sentinel in
  \<^verbatim>\<open>job_physical_memory_limit\<close>, which becomes 0; \<^verbatim>\<open>total_physical\<close> still holds what
  the job branch stored, \<^verbatim>\<open>ms.ullAvailPhys\<close>, and 2 GB is not below 1 GB. The limit
  published is 0, \<^verbatim>\<open>g_UseRestrictedVirtualMemory\<close> stays unset and
  \<open>GetPhysicalMemoryLimit\<close> returns 8 GB with \<open>is_restricted\<close> not set. The same memory
  status outside a job goes through the branch that stores \<^verbatim>\<open>ms.ullTotalPhys\<close>: there the
  limit published is 2 GB, with the flag and \<open>is_restricted\<close> set, as C3 says.
\<close>

theorem unlimited_job_ignores_address_space:
  "ullTotalVirtual
     \<lparr>dwMemoryLoad = 50, ullTotalPhys = 0x200000000, ullAvailPhys = 0x40000000,
      ullAvailPageFile = 0x100000000, ullTotalVirtual = 0x80000000,
      ullAvailVirtual = 0x70000000\<rparr>
   < effective_physical_capacity
       \<lparr>LoadLibraryEx_kernel32 = True, has_IsProcessInJob = True, IsProcessInJob = Some True,
        has_K32GetProcessMemoryInfo = True, has_QueryInformationJobObject = True,
        QueryInformationJobObject =
          Some \<lparr>LimitFlags = 0, MaximumWorkingSetSize = 0, ProcessMemoryLimit = 0,
                JobMemoryLimit = 0 :: 32 word\<rparr>,
        GlobalMemoryStatusEx =
          Some \<lparr>dwMemoryLoad = 50, ullTotalPhys = 0x200000000, ullAvailPhys = 0x40000000,
                ullAvailPageFile = 0x100000000, ullTotalVirtual = 0x80000000,
                ullAvailVirtual = 0x70000000\<rparr>\<rparr>
       \<lparr>dwMemoryLoad = 50, ullTotalPhys = 0x200000000, ullAvailPhys = 0x40000000,
        ullAvailPageFile = 0x100000000, ullTotalVirtual = 0x80000000,
        ullAvailVirtual = 0x70000000\<rparr> \<and>
   GetRestrictedPhysicalMemoryLimit
     \<lparr>LoadLibraryEx_kernel32 = True, has_IsProcessInJob = True, IsProcessInJob = Some True,
      has_K32GetProcessMemoryInfo = True, has_QueryInformationJobObject = True,
      QueryInformationJobObject =
        Some \<lparr>LimitFlags = 0, MaximumWorkingSetSize = 0, ProcessMemoryLimit = 0,
              JobMemoryLimit = 0 :: 32 word\<rparr>,
      GlobalMemoryStatusEx =
        Some \<lparr>dwMemoryLoad = 50, ullTotalPhys = 0x200000000, ullAvailPhys = 0x40000000,
              ullAvailPageFile = 0x100000000, ullTotalVirtual = 0x80000000,
              ullAvailVirtual = 0x70000000\<rparr>\<rparr>
     initial_memory_globals
   = Inr (0,
          \<lparr>g_RestrictedPhysicalMemoryLimit = 0,
           g_UseRestrictedVirtualMemory = False, GCGetProcessMemoryInfo = False\<rparr>) \<and>
   GetPhysicalMemoryLimit
     \<lparr>LoadLibraryEx_kernel32 = True, has_IsProcessInJob = True, IsProcessInJob = Some True,
      has_K32GetProcessMemoryInfo = True, has_QueryInformationJobObject = True,
      QueryInformationJobObject =
        Some \<lparr>LimitFlags = 0, MaximumWorkingSetSize = 0, ProcessMemoryLimit = 0,
              JobMemoryLimit = 0 :: 32 word\<rparr>,
      GlobalMemoryStatusEx =
        Some \<lparr>dwMemoryLoad = 50, ullTotalPhys = 0x200000000, ullAvailPhys = 0x40000000,
              ullAvailPageFile = 0x100000000, ullTotalVirtual = 0x80000000,
              ullAvailVirtual = 0x70000000\<rparr>\<rparr>
     initial_memory_globals
   = Inr (0x200000000, False,
          \<lparr>g_RestrictedPhysicalMemoryLimit = 0,
           g_UseRestrictedVirtualMemory = False, GCGetProcessMemoryInfo = False\<rparr>) \<and>
   GetPhysicalMemoryLimit
     \<lparr>LoadLibraryEx_kernel32 = True, has_IsProcessInJob = True, IsProcessInJob = Some False,
      has_K32GetProcessMemoryInfo = True, has_QueryInformationJobObject = True,
      QueryInformationJobObject = None,
      GlobalMemoryStatusEx =
        Some \<lparr>dwMemoryLoad = 50, ullTotalPhys = 0x200000000, ullAvailPhys = 0x40000000,
              ullAvailPageFile = 0x100000000, ullTotalVirtual = 0x80000000,
              ullAvailVirtual = 0x70000000\<rparr>\<rparr>
     initial_memory_globals
   = Inr (0x80000000, True,
          \<lparr>g_RestrictedPhysicalMemoryLimit = 0x80000000 :: 32 word,
           g_UseRestrictedVirtualMemory = True, GCGetProcessMemoryInfo = False\<rparr>)"
  by (simp add: memory_eval memory_spec_eval)

subsection \<open>Processor groups\<close>

lemma GCD_u32_gcd: "unat (GCD_u32 u v) = gcd (unat u) (unat v)"
proof (induction u v rule: GCD_u32.induct)
  case (1 u v)
  show ?case
  proof (cases "v = 0")
    case True
    then show ?thesis by (simp add: GCD_u32.simps)
  next
    case False
    have "unat (GCD_u32 u v) = unat (GCD_u32 v (u mod v))"
      using False by (subst GCD_u32.simps) simp
    also have "\<dots> = gcd (unat v) (unat u mod unat v)"
      using "1.IH" [OF False] by (simp add: unat_mod)
    also have "\<dots> = gcd (unat u) (unat v)"
      by (metis gcd_red_nat)
    finally show ?thesis .
  qed
qed

lemma LCM_u32_lcm:
  assumes "0 < unat u" and "0 < unat v" and "lcm (unat u) (unat v) < 2 ^ 32"
  shows "\<exists>w. LCM_u32 u v = Inr w \<and> unat w = lcm (unat u) (unat v)"
proof -
  let ?g = "GCD_u32 u v"
  have g: "unat ?g = gcd (unat u) (unat v)" by (rule GCD_u32_gcd)
  with assms have gpos: "0 < unat ?g" by simp
  then have gnz: "?g \<noteq> 0" by (metis unat_0 less_irrefl)
  have q: "unat (u div ?g) = unat u div gcd (unat u) (unat v)"
    by (simp add: unat_div g)
  have l: "lcm (unat u) (unat v) = unat u div gcd (unat u) (unat v) * unat v"
    unfolding lcm_nat_def by (rule dvd_div_mult [symmetric]) simp
  have "unat (u div ?g) * unat v < 2 ^ LENGTH(32)"
    using assms(3) by (simp add: q l)
  then have "unat (u div ?g * v) = unat (u div ?g) * unat v"
    by (rule unat_mult_lem [THEN iffD1])
  then show ?thesis
    using gnz by (simp add: LCM_u32_def q l)
qed

lemma unat_ucast_byte_word: "unat (ucast (b :: BYTE) :: WORD) = unat b"
  by (simp add: unsigned_ucast_eq take_bit_nat_eq_self unsigned_less [THEN less_trans])

lemma unat_ucast_word_dword: "unat (ucast (w :: WORD) :: DWORD) = unat w"
  by (simp add: unsigned_ucast_eq take_bit_nat_eq_self unsigned_less [THEN less_trans])

lemma read_group_info_array:
  "read_group_info infos n w = Inr (array, n', w') \<Longrightarrow>
     array = map group_entry infos \<and>
     n' = n + of_nat (sum_list (map (unat \<circ> nr_active) array))"
proof (induction infos arbitrary: n w array)
  case Nil
  then show ?case by simp
next
  case (Cons info infos)
  from Cons.prems obtain w1 array1 where
    r: "read_group_info infos (n + ucast (nr_active (group_entry info))) w1
          = Inr (array1, n', w')"
    and a: "array = group_entry info # array1"
    by (auto simp add: group_entry_def Let_def split: sum.splits)
  from Cons.IH [OF r] a show ?case
    by simp
qed

lemma Lcm_counts_pos:
  assumes "\<forall>g \<in> set array. nr_active g \<noteq> 0"
  shows "0 < Lcm (set (map (unat \<circ> nr_active) array))"
proof -
  let ?S = "set (map (unat \<circ> nr_active) array)"
  have "(0::nat) \<notin> ?S"
    using assms by (auto simp add: unat_eq_0)
  moreover have "finite ?S"
    by (rule finite_set)
  ultimately have "Lcm ?S \<noteq> 0"
    using Lcm_0_iff_nat [of ?S] by blast
  then show ?thesis by blast
qed

lemma read_group_info_weight:
  assumes "\<forall>g \<in> set (map group_entry infos). nr_active g \<noteq> 0"
    and "0 < unat w"
    and "lcm (unat w) (Lcm (set (map (unat \<circ> nr_active) (map group_entry infos)))) < 2 ^ 32"
    and "read_group_info infos n w = Inr (array, n', w')"
  shows "unat w' = lcm (unat w) (Lcm (set (map (unat \<circ> nr_active) (map group_entry infos))))"
  using assms
proof (induction infos arbitrary: n w array)
  case Nil
  then show ?case by simp
next
  case (Cons info infos)
  let ?c = "unat (nr_active (group_entry info))"
  let ?rest = "Lcm (set (map (unat \<circ> nr_active) (map group_entry infos)))"
  have all: "\<forall>g \<in> set (map group_entry infos). nr_active g \<noteq> 0"
    using Cons.prems(1) by simp
  have cpos: "0 < ?c"
    using Cons.prems(1) by (simp add: unat_gt_0)
  have rpos: "0 < ?rest"
    using Lcm_counts_pos [OF all] .
  have total: "lcm (unat w) (lcm ?c ?rest) < 2 ^ 32"
    using Cons.prems(3) by simp
  have assoc: "lcm (unat w) (lcm ?c ?rest) = lcm (lcm (unat w) ?c) ?rest"
    by (simp add: lcm.assoc)
  have "lcm (unat w) ?c dvd lcm (lcm (unat w) ?c) ?rest"
    by simp
  moreover have "0 < lcm (lcm (unat w) ?c) ?rest"
    using Cons.prems(2) cpos rpos by (simp add: lcm_pos_nat)
  ultimately have "lcm (unat w) ?c \<le> lcm (lcm (unat w) ?c) ?rest"
    by (rule dvd_imp_le)
  with total assoc have step: "lcm (unat w) ?c < 2 ^ 32"
    by simp
  have cu: "unat (ucast (nr_active (group_entry info)) :: DWORD) = ?c"
    by (rule unat_ucast_word_dword)
  from LCM_u32_lcm [of w "ucast (nr_active (group_entry info))"] Cons.prems(2) cpos step cu
  obtain w1 where w1: "LCM_u32 w (ucast (nr_active (group_entry info))) = Inr w1"
    and u1: "unat w1 = lcm (unat w) ?c"
    by auto
  from Cons.prems(4) w1 obtain array1 where
    r: "read_group_info infos (n + ucast (nr_active (group_entry info))) w1
          = Inr (array1, n', w')"
    by (auto simp add: group_entry_def Let_def split: sum.splits)
  have pos1: "0 < unat w1"
    using u1 Cons.prems(2) cpos by (simp add: lcm_pos_nat)
  have lt1: "lcm (unat w1) ?rest < 2 ^ 32"
    using total assoc u1 by simp
  from Cons.IH [OF all pos1 lt1 r] u1 assoc show ?case
    by simp
qed

lemma set_group_weights_result:
  "set_group_weights w array = Inr array' \<Longrightarrow>
     (\<forall>g \<in> set array. nr_active g \<noteq> 0) \<and>
     array' = map (\<lambda>g. g\<lparr>groupWeight := w div ucast (nr_active g),
                           activeThreadWeight := 0\<rparr>) array"
  by (induction array arbitrary: array') (auto split: if_splits sum.splits)

lemma set_group_ranges_fields:
  "map nr_active (set_group_ranges b n array) = map nr_active array"
  "map groupWeight (set_group_ranges b n array) = map groupWeight array"
  "length (set_group_ranges b n array) = length array"
  by (induction array arbitrary: b n) (simp_all add: Let_def)

lemma InitCPUGroupInfoArray_flag:
  "InitCPUGroupInfoArray os s = Inr (ok, s') \<Longrightarrow>
     g_fEnableGCCPUGroups s' = g_fEnableGCCPUGroups s"
  by (auto simp add: InitCPUGroupInfoArray_def Let_def
      split: sum.splits if_splits option.splits prod.splits)

lemma InitCPUGroupInfoArray_found:
  assumes "InitCPUGroupInfoArray os s = Inr (True, s')" and "1 < g_nGroups s'"
  shows "\<exists>(pRecord :: SYSTEM_LOGICAL_PROCESSOR_INFORMATION_EX) array dwWeight array'.
           read_group_info (map (GroupInfo pRecord) [0..<unat (g_nGroups s')])
             (g_nProcessors s) 1 = Inr (array, g_nProcessors s', dwWeight) \<and>
           set_group_weights dwWeight array = Inr array' \<and>
           g_CPUGroupInfoArray s' = array' \<and>
           g_nGroups s' = ucast (ActiveGroupCount pRecord)"
proof -
  from assms obtain found where
    found: "find_group_record (fill_call_records os) 0 (fill_call_cbSLPIEx os) = Inr found"
    by (auto simp add: InitCPUGroupInfoArray_def split: if_splits sum.splits)
  from assms found obtain pRecord where "found = Some pRecord"
    by (cases found) (auto simp add: InitCPUGroupInfoArray_def split: if_splits)
  with assms found obtain array nProcessors dwWeight array' where
    "read_group_info (map (GroupInfo pRecord) [0..<unat (ucast (ActiveGroupCount pRecord) :: DWORD)])
       (g_nProcessors s) 1 = Inr (array, nProcessors, dwWeight)"
    "set_group_weights dwWeight array = Inr array'"
    "s' = s\<lparr>g_nGroups := ucast (ActiveGroupCount pRecord),
              g_nProcessors := nProcessors, g_CPUGroupInfoArray := array'\<rparr>"
    by (auto simp add: InitCPUGroupInfoArray_def Let_def
        split: if_splits sum.splits prod.splits)
  then have "read_group_info (map (GroupInfo pRecord) [0..<unat (g_nGroups s')])
             (g_nProcessors s) 1 = Inr (array, g_nProcessors s', dwWeight) \<and>
           set_group_weights dwWeight array = Inr array' \<and>
           g_CPUGroupInfoArray s' = array' \<and>
           g_nGroups s' = ucast (ActiveGroupCount pRecord)"
    by simp
  then show ?thesis by blast
qed

lemma InitCPUGroupInfo_enabled:
  assumes "InitCPUGroupInfo os s0 = Inr s" and "g_fEnableGCCPUGroups s"
  shows "\<exists>(pRecord :: SYSTEM_LOGICAL_PROCESSOR_INFORMATION_EX) array dwWeight array'.
           read_group_info (map (GroupInfo pRecord) [0..<unat (g_nGroups s)])
             (g_nProcessors s0) 1 = Inr (array, g_nProcessors s, dwWeight) \<and>
           set_group_weights dwWeight array = Inr array' \<and>
           g_CPUGroupInfoArray s = set_group_ranges 0 0 array' \<and>
           g_nGroups s = ucast (ActiveGroupCount pRecord) \<and>
           1 < g_nGroups s"
proof -
  let ?s0 = "s0\<lparr>g_fEnableGCCPUGroups := False\<rparr>"
  from assms have cfg: "GCCpuGroup os"
    by (auto simp add: InitCPUGroupInfo_def Let_def split: if_splits)
  with assms(1) obtain ok s1 where arr: "InitCPUGroupInfoArray os ?s0 = Inr (ok, s1)"
    by (auto simp add: InitCPUGroupInfo_def Let_def split: sum.splits)
  from InitCPUGroupInfoArray_flag [OF arr] have off: "\<not> g_fEnableGCCPUGroups s1"
    by simp
  from assms cfg arr off have ok: "ok"
    by (auto simp add: InitCPUGroupInfo_def Let_def split: if_splits)
  from assms cfg arr ok have
    fin: "g_CPUGroupInfoArray s = set_group_ranges 0 0 (g_CPUGroupInfoArray s1)"
      "g_nGroups s = g_nGroups s1" "g_nProcessors s = g_nProcessors s1" "1 < g_nGroups s1"
    by (auto simp add: InitCPUGroupInfo_def InitCPUGroupInfoRange_def Let_def
        split: if_splits option.splits prod.splits)
  from arr ok have arr': "InitCPUGroupInfoArray os ?s0 = Inr (True, s1)" by simp
  from InitCPUGroupInfoArray_found [OF arr' fin(4)] fin(4) show ?thesis
    unfolding fin by fastforce
qed

lemma weights_after_ranges:
  assumes "g \<in> set (set_group_ranges b n
      (map (\<lambda>g. g\<lparr>groupWeight := w div ucast (nr_active g), activeThreadWeight := 0\<rparr>) array))"
  shows "groupWeight g = w div ucast (nr_active g) \<and> nr_active g \<in> nr_active ` set array"
  using assms
  by (induction array arbitrary: b n) (auto simp add: Let_def)

text \<open>
  C1, as amended. After a discovery that ends with the groups enabled, if the least common
  multiple of the groups' active counts is less than \<open>2 ^ 32\<close>, then for every group the
  weight times the active count is exactly that least common multiple, the same value for
  all groups.
\<close>

theorem group_weights_lcm:
  assumes init: "InitCPUGroupInfo os s0 = Inr s"
    and enabled: "g_fEnableGCCPUGroups s"
    and fits: "Lcm (set (map (unat \<circ> nr_active) (g_CPUGroupInfoArray s))) < 2 ^ 32"
    and g: "g \<in> set (g_CPUGroupInfoArray s)"
  shows "unat (groupWeight g) * unat (nr_active g)
           = Lcm (set (map (unat \<circ> nr_active) (g_CPUGroupInfoArray s)))"
proof -
  from InitCPUGroupInfo_enabled [OF init enabled] obtain pRecord :: SYSTEM_LOGICAL_PROCESSOR_INFORMATION_EX
    and array dwWeight array' where
    rd: "read_group_info (map (GroupInfo pRecord) [0..<unat (g_nGroups s)])
           (g_nProcessors s0) 1 = Inr (array, g_nProcessors s, dwWeight)"
    and wt: "set_group_weights dwWeight array = Inr array'"
    and rg: "g_CPUGroupInfoArray s = set_group_ranges 0 0 array'"
    by blast
  let ?infos = "map (GroupInfo pRecord) [0..<unat (g_nGroups s)]"
  let ?L = "Lcm (set (map (unat \<circ> nr_active) array))"
  from read_group_info_array [OF rd] have array: "array = map group_entry ?infos"
    by simp
  from set_group_weights_result [OF wt] have
    nz: "\<forall>g \<in> set array. nr_active g \<noteq> 0"
    and array': "array' = map (\<lambda>g. g\<lparr>groupWeight := dwWeight div ucast (nr_active g),
                                      activeThreadWeight := 0\<rparr>) array"
    by simp_all
  have "map nr_active (g_CPUGroupInfoArray s) = map nr_active array"
    unfolding rg array' by (simp add: set_group_ranges_fields comp_def)
  then have "map (unat \<circ> nr_active) (g_CPUGroupInfoArray s) = map (unat \<circ> nr_active) array"
    by (metis map_map)
  then have same: "Lcm (set (map (unat \<circ> nr_active) (g_CPUGroupInfoArray s))) = ?L"
    by simp
  have "unat dwWeight = lcm (unat (1 :: DWORD)) ?L"
    unfolding array
  proof (rule read_group_info_weight [OF _ _ _ rd])
    show "\<forall>g \<in> set (map group_entry ?infos). nr_active g \<noteq> 0"
      using nz array by simp
    show "0 < unat (1 :: DWORD)" by simp
    show "lcm (unat (1 :: DWORD))
            (Lcm (set (map (unat \<circ> nr_active) (map group_entry ?infos)))) < 2 ^ 32"
      using fits same array by simp
  qed
  then have w: "unat dwWeight = ?L" by simp
  from g weights_after_ranges [of g 0 0 dwWeight array] have
    gw: "groupWeight g = dwWeight div ucast (nr_active g)"
    and gin: "nr_active g \<in> nr_active ` set array"
    unfolding rg array' by simp_all
  from gin have "unat (nr_active g) \<in> set (map (unat \<circ> nr_active) array)"
    by auto
  then have dvd: "unat (nr_active g) dvd ?L"
    by (rule dvd_Lcm)
  have "unat (groupWeight g) = ?L div unat (nr_active g)"
    by (simp add: gw unat_div w unat_ucast_word_dword)
  with dvd have "unat (groupWeight g) * unat (nr_active g) = ?L"
    by simp
  with same show ?thesis by simp
qed

text \<open>
  C1 as stated fails when the least common multiple does not fit \<^verbatim>\<open>DWORD\<close>. Six groups
  of 64, 63, 61, 59, 55 and 53 processors have the least common multiple 42300054720;
  \<^verbatim>\<open>dwWeight\<close> wraps around to 3645349056, and the products of weight and count are
  3645349056 for the first group and 3645349029 for the second.
\<close>

theorem group_weights_lcm_counterexample:
  "InitCPUGroupInfo
     \<lparr>GetSystemInfo = \<lparr>dwNumberOfProcessors = 64, dwPageSize = 0x1000,
                        dwAllocationGranularity = 0x10000\<rparr>,
      GCNumaAware = False, GetNumaHighestNodeNumber = Some 5, GCCpuGroup = True,
      sizing_call_ok = False, sizing_call_LastError = 122, sizing_call_cbSLPIEx = 304,
      buffer_allocated = True, fill_call_ok = True, fill_call_cbSLPIEx = 304,
      fill_call_records =
        [\<lparr>Relationship = RelationGroup, Size = 304, ActiveGroupCount = 6,
          GroupInfo = (!)
            [\<lparr>ActiveProcessorCount = 64, ActiveProcessorMask = 0xFFFFFFFFFFFFFFFF\<rparr>,
             \<lparr>ActiveProcessorCount = 63, ActiveProcessorMask = 0x7FFFFFFFFFFFFFFF\<rparr>,
             \<lparr>ActiveProcessorCount = 61, ActiveProcessorMask = 0x1FFFFFFFFFFFFFFF\<rparr>,
             \<lparr>ActiveProcessorCount = 59, ActiveProcessorMask = 0x7FFFFFFFFFFFFFF\<rparr>,
             \<lparr>ActiveProcessorCount = 55, ActiveProcessorMask = 0x7FFFFFFFFFFFFF\<rparr>,
             \<lparr>ActiveProcessorCount = 53, ActiveProcessorMask = 0x1FFFFFFFFFFFFF\<rparr>]\<rparr>],
      array_allocated = True,
      GetProcessAffinityMask = Some (0xFFFFFFFFFFFFFFFF, 0xFFFFFFFFFFFFFFFF)\<rparr>
     initial_topology_globals
   = Inr
     \<lparr>g_SystemInfo =
        \<lparr>dwNumberOfProcessors = 0, dwPageSize = 0, dwAllocationGranularity = 0\<rparr>,
      g_fEnableGCNumaAware = False, g_fEnableGCCPUGroups = True,
      g_fHadSingleProcessorAtStartup = False, g_nGroups = 6, g_nProcessors = 355,
      g_CPUGroupInfoArray =
        [\<lparr>nr_active = 64, grp_begin = 0, grp_end = 63,
          active_mask = 0xFFFFFFFFFFFFFFFF, groupWeight = 56958579,
          activeThreadWeight = 0\<rparr>,
         \<lparr>nr_active = 63, grp_begin = 64, grp_end = 126,
          active_mask = 0x7FFFFFFFFFFFFFFF, groupWeight = 57862683,
          activeThreadWeight = 0\<rparr>,
         \<lparr>nr_active = 61, grp_begin = 127, grp_end = 187,
          active_mask = 0x1FFFFFFFFFFFFFFF, groupWeight = 59759820,
          activeThreadWeight = 0\<rparr>,
         \<lparr>nr_active = 59, grp_begin = 188, grp_end = 246,
          active_mask = 0x7FFFFFFFFFFFFFF, groupWeight = 61785577,
          activeThreadWeight = 0\<rparr>,
         \<lparr>nr_active = 55, grp_begin = 247, grp_end = 301,
          active_mask = 0x7FFFFFFFFFFFFF, groupWeight = 66279073,
          activeThreadWeight = 0\<rparr>,
         \<lparr>nr_active = 53, grp_begin = 302, grp_end = 354,
          active_mask = 0x1FFFFFFFFFFFFF, groupWeight = 68780170,
          activeThreadWeight = 0\<rparr>]\<rparr> \<and>
   Lcm (set [64, 63, 61, 59, 55, 53]) = (42300054720 :: nat) \<and>
   (56958579 :: nat) * 64 = 3645349056 \<and>
   (57862683 :: nat) * 63 = 3645349029"
proof (intro conjI)
  show "Lcm (set [64, 63, 61, 59, 55, 53]) = (42300054720 :: nat)"
    by (simp add: lcm_nat_def gcd_non_0_nat)
qed (code_simp, simp_all)

theorem group_weights_lcm_witness:
  "unat (groupWeight
      \<lparr>nr_active = 48, grp_begin = 64, grp_end = 111, active_mask = 0xFFFFFFFFFFFF,
       groupWeight = 4, activeThreadWeight = 0\<rparr>) *
   unat (nr_active
      \<lparr>nr_active = 48, grp_begin = 64, grp_end = 111, active_mask = 0xFFFFFFFFFFFF,
       groupWeight = 4, activeThreadWeight = 0\<rparr>)
   = Lcm (set [64, 48])"
proof -
  let ?os = "\<lparr>GetSystemInfo = \<lparr>dwNumberOfProcessors = 64, dwPageSize = 0x1000,
              dwAllocationGranularity = 0x10000\<rparr>,
      GCNumaAware = False, GetNumaHighestNodeNumber = Some 1, GCCpuGroup = True,
      sizing_call_ok = False, sizing_call_LastError = 122, sizing_call_cbSLPIEx = 128,
      buffer_allocated = True, fill_call_ok = True, fill_call_cbSLPIEx = 128,
      fill_call_records =
        [\<lparr>Relationship = RelationGroup, Size = 128, ActiveGroupCount = 2,
          GroupInfo = (!) [\<lparr>ActiveProcessorCount = 64,
                             ActiveProcessorMask = 0xFFFFFFFFFFFFFFFF\<rparr>,
                           \<lparr>ActiveProcessorCount = 48,
                             ActiveProcessorMask = 0xFFFFFFFFFFFF\<rparr>]\<rparr>],
      array_allocated = True,
      GetProcessAffinityMask = Some (0xFFFFFFFFFFFFFFFF, 0xFFFFFFFFFFFFFFFF)\<rparr>"
  let ?g1 = "\<lparr>nr_active = 64, grp_begin = 0, grp_end = 63, active_mask = 0xFFFFFFFFFFFFFFFF,
       groupWeight = 3, activeThreadWeight = 0\<rparr>"
  let ?g2 = "\<lparr>nr_active = 48, grp_begin = 64, grp_end = 111, active_mask = 0xFFFFFFFFFFFF,
       groupWeight = 4, activeThreadWeight = 0\<rparr>"
  let ?s = "\<lparr>g_SystemInfo =
        \<lparr>dwNumberOfProcessors = 0, dwPageSize = 0, dwAllocationGranularity = 0\<rparr>,
      g_fEnableGCNumaAware = False, g_fEnableGCCPUGroups = True,
      g_fHadSingleProcessorAtStartup = False, g_nGroups = 2, g_nProcessors = 112,
      g_CPUGroupInfoArray = [?g1, ?g2]\<rparr>"
  have init: "InitCPUGroupInfo ?os initial_topology_globals = Inr ?s"
    by code_simp
  have enabled: "g_fEnableGCCPUGroups ?s"
    by simp
  have counts: "map (unat \<circ> nr_active) (g_CPUGroupInfoArray ?s) = [64, 48]"
    by simp
  have fits: "Lcm (set (map (unat \<circ> nr_active) (g_CPUGroupInfoArray ?s))) < 2 ^ 32"
    unfolding counts by (simp add: lcm_nat_def gcd_non_0_nat)
  have mem: "?g2 \<in> set (g_CPUGroupInfoArray ?s)"
    by simp
  from group_weights_lcm [OF init enabled fits mem] show ?thesis
    unfolding counts .
qed

lemma processors_before_0 [simp]: "processors_before array 0 = 0"
  by (simp add: processors_before_def)

lemma processors_before_Cons_Suc [simp]:
  "processors_before (g # array) (Suc k) = unat (nr_active g) + processors_before array k"
  by (simp add: processors_before_def)

lemma processors_before_all:
  "length array \<le> k \<Longrightarrow> processors_before array k = sum_list (map (unat \<circ> nr_active) array)"
  by (simp add: processors_before_def)

lemma processors_before_mono:
  "j \<le> k \<Longrightarrow> processors_before array j \<le> processors_before array k"
proof (induction array arbitrary: j k)
  case Nil
  then show ?case by (simp add: processors_before_def)
next
  case (Cons g array)
  show ?case
  proof (cases j)
    case 0
    then show ?thesis by simp
  next
    case (Suc j')
    with Cons.prems obtain k' where "k = Suc k'" "j' \<le> k'"
      by (cases k) auto
    with Suc Cons.IH [of j' k'] show ?thesis by simp
  qed
qed

lemma processors_before_le_total:
  "processors_before array k \<le> sum_list (map (unat \<circ> nr_active) array)"
  using processors_before_mono [of k "max k (length array)" array]
  by (simp add: processors_before_all)

lemma set_group_ranges_nth:
  assumes "k < length array"
  shows "grp_begin (set_group_ranges b b array ! k) = b + of_nat (processors_before array k) \<and>
         grp_end (set_group_ranges b b array ! k)
           = b + of_nat (processors_before array (Suc k)) - 1 \<and>
         nr_active (set_group_ranges b b array ! k) = nr_active (array ! k)"
  using assms
proof (induction array arbitrary: b k)
  case Nil
  then show ?case by simp
next
  case (Cons g array)
  show ?case
  proof (cases k)
    case 0
    then show ?thesis by (simp add: Let_def)
  next
    case (Suc k')
    with Cons.prems have "k' < length array" by simp
    from Cons.IH [OF this, of "b + nr_active g"] Suc show ?thesis
      by (simp add: Let_def add.assoc)
  qed
qed

lemma find_group_result:
  assumes "unat bTemp + sum_list (map (unat \<circ> nr_active) array) < 65536"
    and "unat bTemp \<le> unat pn"
    and "unat pn < unat bTemp + sum_list (map (unat \<circ> nr_active) array)"
  shows "\<exists>k < length array.
           find_group pn i bTemp (pn - bTemp) array
             = Some (i + of_nat k, pn - (bTemp + of_nat (processors_before array k))) \<and>
           unat bTemp + processors_before array k \<le> unat pn \<and>
           unat pn < unat bTemp + processors_before array (Suc k)"
  using assms
proof (induction array arbitrary: i bTemp)
  case Nil
  then show ?case by simp
next
  case (Cons g array)
  let ?b = "bTemp + nr_active g"
  have sum: "unat bTemp + unat (nr_active g) < 2 ^ LENGTH(16)"
    using Cons.prems(1) by simp
  then have ub: "unat ?b = unat bTemp + unat (nr_active g)"
    by (simp add: unat_add_lem [THEN iffD1])
  show ?case
  proof (cases "pn < ?b")
    case True
    then have "unat pn < unat bTemp + unat (nr_active g)"
      using ub by (simp add: word_less_nat_alt)
    with True Cons.prems(2) show ?thesis
      by (intro exI [of _ 0]) (simp add: Let_def)
  next
    case False
    then have le: "unat ?b \<le> unat pn"
      by (simp add: word_less_nat_alt)
    have a1: "unat ?b + sum_list (map (unat \<circ> nr_active) array) < 65536"
      using Cons.prems(1) ub by (simp add: comp_def)
    have a3: "unat pn < unat ?b + sum_list (map (unat \<circ> nr_active) array)"
      using Cons.prems(3) ub by (simp add: comp_def)
    from Cons.IH [OF a1 le a3, of "i + 1"] obtain k where
      k: "k < length array"
      and f: "find_group pn (i + 1) ?b (pn - ?b) array
               = Some (i + 1 + of_nat k, pn - (?b + of_nat (processors_before array k)))"
      and lo: "unat ?b + processors_before array k \<le> unat pn"
      and hi: "unat pn < unat ?b + processors_before array (Suc k)"
      by blast
    have "find_group pn i bTemp (pn - bTemp) (g # array)
            = Some (i + of_nat (Suc k),
                    pn - (bTemp + of_nat (processors_before (g # array) (Suc k))))"
      using False f by (simp add: Let_def add.assoc)
    moreover have "unat bTemp + processors_before (g # array) (Suc k) \<le> unat pn"
      using lo ub by simp
    moreover have "unat pn < unat bTemp + processors_before (g # array) (Suc (Suc k))"
      using hi ub by simp
    ultimately show ?thesis
      using k by (intro exI [of _ "Suc k"]) simp
  qed
qed

lemma processors_before_cong:
  "map nr_active array = map nr_active array' \<Longrightarrow>
     processors_before array k = processors_before array' k"
proof -
  assume "map nr_active array = map nr_active array'"
  then have "map unat (take k (map nr_active array)) = map unat (take k (map nr_active array'))"
    by simp
  then show ?thesis
    by (simp add: processors_before_def take_map)
qed

lemma processors_before_Suc:
  "k < length array \<Longrightarrow>
     processors_before array (Suc k) = processors_before array k + unat (nr_active (array ! k))"
  by (simp add: processors_before_def take_Suc_conv_app_nth)

lemma sum_list_bounded:
  "(\<forall>x \<in> set xs. x \<le> c) \<Longrightarrow> sum_list xs \<le> c * length (xs :: nat list)"
  by (induction xs) auto

lemma group_entry_count_le: "unat (nr_active (group_entry info)) \<le> 255"
proof -
  have "unat (ActiveProcessorCount info) < 2 ^ LENGTH(8)"
    by (rule unsigned_less)
  then show ?thesis
    by (simp add: group_entry_def unat_ucast_byte_word)
qed

lemma Initialize_discovery:
  assumes "Initialize os initial_topology_globals = Inr (ok, s)"
  shows "\<exists>s0. InitCPUGroupInfo os s0 = Inr s \<and> g_nProcessors s0 = 0"
proof -
  let ?s0 = "InitNumaNodeInfo os (initial_topology_globals\<lparr>g_SystemInfo := GetSystemInfo os\<rparr>)"
  have "g_nProcessors ?s0 = 0"
    by (simp add: InitNumaNodeInfo_def initial_topology_globals_def Let_def
        split: option.splits)
  moreover from assms have "InitCPUGroupInfo os ?s0 = Inr s"
    by (auto simp add: Initialize_def Let_def split: if_splits sum.splits)
  ultimately show ?thesis by blast
qed

lemma discovered_total:
  assumes init: "InitCPUGroupInfo os s0 = Inr s"
    and zero: "g_nProcessors s0 = 0"
    and enabled: "g_fEnableGCCPUGroups s"
  shows "unat (g_nProcessors s) = sum_list (map (unat \<circ> nr_active) (g_CPUGroupInfoArray s)) \<and>
         (\<forall>g \<in> set (g_CPUGroupInfoArray s). nr_active g \<noteq> 0)"
proof -
  from InitCPUGroupInfo_enabled [OF init enabled]
  obtain pRecord :: SYSTEM_LOGICAL_PROCESSOR_INFORMATION_EX
    and array dwWeight array' where
    rd: "read_group_info (map (GroupInfo pRecord) [0..<unat (g_nGroups s)])
           (g_nProcessors s0) 1
           = Inr (array, g_nProcessors s, dwWeight)"
    and wt: "set_group_weights dwWeight array = Inr array'"
    and rg: "g_CPUGroupInfoArray s = set_group_ranges 0 0 array'"
    and ng: "g_nGroups s = ucast (ActiveGroupCount pRecord)"
    by blast
  let ?infos = "map (GroupInfo pRecord) [0..<unat (g_nGroups s)]"
  from read_group_info_array [OF rd] have
    array: "array = map group_entry ?infos"
    and np: "g_nProcessors s = of_nat (sum_list (map (unat \<circ> nr_active) array))"
    by (simp_all add: zero)
  from set_group_weights_result [OF wt] have
    nz: "\<forall>g \<in> set array. nr_active g \<noteq> 0"
    and array': "array' = map (\<lambda>g. g\<lparr>groupWeight := dwWeight div ucast (nr_active g),
                                      activeThreadWeight := 0\<rparr>) array"
    by simp_all
  have same: "map nr_active (g_CPUGroupInfoArray s) = map nr_active array"
    unfolding rg array' by (simp add: set_group_ranges_fields comp_def)
  then have counts: "map (unat \<circ> nr_active) (g_CPUGroupInfoArray s)
      = map (unat \<circ> nr_active) array"
    by (metis map_map)
  have "unat (g_nGroups s) = unat (ActiveGroupCount pRecord)"
    using ng by (simp add: unat_ucast_word_dword)
  also have "\<dots> < 2 ^ LENGTH(16)"
    by (rule unsigned_less)
  finally have len: "length array < 65536"
    by (simp add: array)
  have "\<forall>x \<in> set (map (unat \<circ> nr_active) array). x \<le> 255"
    using group_entry_count_le by (auto simp add: array)
  then have "sum_list (map (unat \<circ> nr_active) array) \<le> 255 * length array"
    using sum_list_bounded [of "map (unat \<circ> nr_active) array" 255] by simp
  also have "\<dots> < 2 ^ LENGTH(32)"
    using len by simp
  finally have "unat (g_nProcessors s) = sum_list (map (unat \<circ> nr_active) array)"
    by (simp add: np unat_of_nat)
  moreover have "\<forall>g \<in> set (g_CPUGroupInfoArray s). nr_active g \<noteq> 0"
  proof
    fix g assume "g \<in> set (g_CPUGroupInfoArray s)"
    then have "nr_active g \<in> set (map nr_active (g_CPUGroupInfoArray s))" by simp
    with same nz show "nr_active g \<noteq> 0" by auto
  qed
  ultimately show ?thesis using counts by simp
qed

lemma ranges_of_prefix_sums:
  assumes A: "A = set_group_ranges 0 0 array'"
    and nz: "\<forall>g \<in> set A. nr_active g \<noteq> 0"
    and total: "sum_list (map (unat \<circ> nr_active) A) < 65536"
    and k: "k < length A"
  shows "unat (grp_begin (A ! k)) = processors_before A k \<and>
         unat (grp_end (A ! k)) + 1 = processors_before A (Suc k)"
proof -
  have len: "length A = length array'"
    by (simp add: A set_group_ranges_fields)
  have pb: "processors_before array' j = processors_before A j" for j
    by (rule processors_before_cong) (simp add: A set_group_ranges_fields)
  have bound: "processors_before A j < 2 ^ LENGTH(16)" for j
    using processors_before_le_total [of A j] total by simp
  from set_group_ranges_nth [of k array' 0] k len have
    b: "grp_begin (A ! k) = of_nat (processors_before A k)"
    and e: "grp_end (A ! k) = of_nat (processors_before A (Suc k)) - 1"
    by (simp_all add: A [symmetric] pb)
  have ub: "unat (grp_begin (A ! k)) = processors_before A k"
    using bound [of k] by (simp add: b unat_of_nat)
  have "A ! k \<in> set A" using k by simp
  with nz have "0 < unat (nr_active (A ! k))"
    by (simp add: unat_gt_0)
  with processors_before_Suc [OF k] have pos: "0 < processors_before A (Suc k)"
    by simp
  have us: "unat (of_nat (processors_before A (Suc k)) :: WORD) = processors_before A (Suc k)"
    using bound [of "Suc k"] by (simp add: unat_of_nat)
  with pos have "(of_nat (processors_before A (Suc k)) :: WORD) \<noteq> 0"
    by (metis less_irrefl unat_0)
  then have "unat (grp_end (A ! k)) = processors_before A (Suc k) - 1"
    by (simp add: e unat_minus_one us)
  with pos ub show ?thesis by simp
qed

text \<open>
  C4. After \<open>Initialize\<close>, run on the initial globals, has returned with the groups
  enabled, the active counts add up to the total processor count. When that total is less than
  \<open>2 ^ 16\<close> (processor numbers are \<^verbatim>\<open>uint16_t\<close>), each group's \<^verbatim>\<open>begin\<close> is the
  number of processors in the groups before it and its \<^verbatim>\<open>end\<close> is one less than the
  number including it, so the ranges follow one another from 0 up to the total; every
  processor number below the total lies in the range of exactly one group, and
  \<open>GetGroupForProcessor\<close> returns that group with the number minus the group's
  \<^verbatim>\<open>begin\<close>.
\<close>

theorem group_ranges_partition:
  assumes run: "Initialize os initial_topology_globals = Inr (ok, s)"
    and enabled: "g_fEnableGCCPUGroups s"
  shows "sum_list (map (unat \<circ> nr_active) (g_CPUGroupInfoArray s))
           = unat (GetTotalProcessorCount s) \<and>
         (unat (GetTotalProcessorCount s) < 65536 \<longrightarrow>
            processors_before (g_CPUGroupInfoArray s) (length (g_CPUGroupInfoArray s))
              = unat (GetTotalProcessorCount s) \<and>
            (\<forall>k < length (g_CPUGroupInfoArray s).
               unat (grp_begin (g_CPUGroupInfoArray s ! k))
                 = processors_before (g_CPUGroupInfoArray s) k \<and>
               unat (grp_end (g_CPUGroupInfoArray s ! k)) + 1
                 = processors_before (g_CPUGroupInfoArray s) (Suc k)) \<and>
            (\<forall>i < unat (GetTotalProcessorCount s).
               \<exists>k < length (g_CPUGroupInfoArray s).
                 unat (grp_begin (g_CPUGroupInfoArray s ! k)) \<le> i \<and>
                 i \<le> unat (grp_end (g_CPUGroupInfoArray s ! k)) \<and>
                 (\<forall>j < length (g_CPUGroupInfoArray s).
                    unat (grp_begin (g_CPUGroupInfoArray s ! j)) \<le> i \<and>
                    i \<le> unat (grp_end (g_CPUGroupInfoArray s ! j)) \<longrightarrow> j = k) \<and>
                 GetGroupForProcessor s (of_nat i)
                   = Inr (Some (of_nat k, of_nat i - grp_begin (g_CPUGroupInfoArray s ! k)))))"
proof -
  let ?A = "g_CPUGroupInfoArray s"
  let ?T = "unat (GetTotalProcessorCount s)"
  from Initialize_discovery [OF run] obtain s0 where
    init: "InitCPUGroupInfo os s0 = Inr s" and zero: "g_nProcessors s0 = 0"
    by blast
  from discovered_total [OF init zero enabled] have
    sum: "unat (g_nProcessors s) = sum_list (map (unat \<circ> nr_active) ?A)"
    and nz: "\<forall>g \<in> set ?A. nr_active g \<noteq> 0"
    by simp_all
  have T: "?T = sum_list (map (unat \<circ> nr_active) ?A)"
    using enabled sum by (simp add: GetTotalProcessorCount_def CanEnableGCCPUGroups_def)
  from InitCPUGroupInfo_enabled [OF init enabled] obtain array' where
    A: "?A = set_group_ranges 0 0 array'"
    by blast
  have rest: "processors_before ?A (length ?A) = ?T \<and>
            (\<forall>k < length ?A.
               unat (grp_begin (?A ! k)) = processors_before ?A k \<and>
               unat (grp_end (?A ! k)) + 1 = processors_before ?A (Suc k)) \<and>
            (\<forall>i < ?T.
               \<exists>k < length ?A.
                 unat (grp_begin (?A ! k)) \<le> i \<and> i \<le> unat (grp_end (?A ! k)) \<and>
                 (\<forall>j < length ?A.
                    unat (grp_begin (?A ! j)) \<le> i \<and> i \<le> unat (grp_end (?A ! j))
                      \<longrightarrow> j = k) \<and>
                 GetGroupForProcessor s (of_nat i)
                   = Inr (Some (of_nat k, of_nat i - grp_begin (?A ! k))))"
    if small: "?T < 65536"
  proof -
    have total: "sum_list (map (unat \<circ> nr_active) ?A) < 65536"
      using small T by simp
    have ranges: "unat (grp_begin (?A ! k)) = processors_before ?A k \<and>
        unat (grp_end (?A ! k)) + 1 = processors_before ?A (Suc k)"
      if "k < length ?A" for k
      using A nz total that by (rule ranges_of_prefix_sums)
    have whole: "processors_before ?A (length ?A) = ?T"
      by (simp add: processors_before_all T)
    have lookup: "\<exists>k < length ?A.
                 unat (grp_begin (?A ! k)) \<le> i \<and> i \<le> unat (grp_end (?A ! k)) \<and>
                 (\<forall>j < length ?A.
                    unat (grp_begin (?A ! j)) \<le> i \<and> i \<le> unat (grp_end (?A ! j))
                      \<longrightarrow> j = k) \<and>
                 GetGroupForProcessor s (of_nat i)
                   = Inr (Some (of_nat k, of_nat i - grp_begin (?A ! k)))"
      if i: "i < ?T" for i
    proof -
      let ?pn = "of_nat i :: WORD"
      have ui: "unat ?pn = i"
        using i small by (simp add: unat_of_nat)
      from find_group_result [of 0 ?A ?pn 0] total i T ui obtain k where
        k: "k < length ?A"
        and f: "find_group ?pn 0 0 (?pn - 0) ?A
                  = Some (0 + of_nat k, ?pn - (0 + of_nat (processors_before ?A k)))"
        and lo: "processors_before ?A k \<le> i"
        and hi: "i < processors_before ?A (Suc k)"
        by auto
      have "of_nat (unat (grp_begin (?A ! k))) = grp_begin (?A ! k)"
        by simp
      then have bk: "grp_begin (?A ! k) = of_nat (processors_before ?A k)"
        using ranges [OF k] by simp
      have g: "GetGroupForProcessor s ?pn = Inr (Some (of_nat k, ?pn - grp_begin (?A ! k)))"
        using enabled f by (simp add: GetGroupForProcessor_def bk)
      have uniq: "j = k"
        if j: "j < length ?A"
          and jl: "unat (grp_begin (?A ! j)) \<le> i"
          and jh: "i \<le> unat (grp_end (?A ! j))" for j
      proof (rule ccontr)
        assume ne: "j \<noteq> k"
        from ranges [OF j] jl jh have jlo: "processors_before ?A j \<le> i"
          and jhi: "i < processors_before ?A (Suc j)" by simp_all
        show False
        proof (cases "j < k")
          case True
          then have "processors_before ?A (Suc j) \<le> processors_before ?A k"
            by (intro processors_before_mono) simp
          with jhi lo show False by simp
        next
          case False
          with ne have "processors_before ?A (Suc k) \<le> processors_before ?A j"
            by (intro processors_before_mono) simp
          with hi jlo show False by simp
        qed
      qed
      from ranges [OF k] lo hi have "unat (grp_begin (?A ! k)) \<le> i"
        and "i \<le> unat (grp_end (?A ! k))" by simp_all
      with k g uniq show ?thesis by blast
    qed
    from whole ranges lookup show ?thesis by blast
  qed
  from T [symmetric] impI [OF rest] show ?thesis by (rule conjI)
qed

theorem group_ranges_partition_witness:
  "sum_list (map (unat \<circ> nr_active)
      [\<lparr>nr_active = 64, grp_begin = 0, grp_end = 63, active_mask = 0xFFFFFFFFFFFFFFFF,
        groupWeight = 3, activeThreadWeight = 0\<rparr>,
       \<lparr>nr_active = 48, grp_begin = 64, grp_end = 111, active_mask = 0xFFFFFFFFFFFF,
        groupWeight = 4, activeThreadWeight = 0\<rparr>]) = 112 \<and>
   GetGroupForProcessor
     \<lparr>g_SystemInfo =
        \<lparr>dwNumberOfProcessors = 64, dwPageSize = 0x1000,
         dwAllocationGranularity = 0x10000\<rparr>,
      g_fEnableGCNumaAware = False, g_fEnableGCCPUGroups = True,
      g_fHadSingleProcessorAtStartup = False, g_nGroups = 2, g_nProcessors = 112,
      g_CPUGroupInfoArray =
       [\<lparr>nr_active = 64, grp_begin = 0, grp_end = 63, active_mask = 0xFFFFFFFFFFFFFFFF,
         groupWeight = 3, activeThreadWeight = 0\<rparr>,
        \<lparr>nr_active = 48, grp_begin = 64, grp_end = 111, active_mask = 0xFFFFFFFFFFFF,
         groupWeight = 4, activeThreadWeight = 0\<rparr>]\<rparr> 70
   = Inr (Some (1, 6))"
proof -
  let ?os = "\<lparr>GetSystemInfo = \<lparr>dwNumberOfProcessors = 64, dwPageSize = 0x1000,
              dwAllocationGranularity = 0x10000\<rparr>,
      GCNumaAware = False, GetNumaHighestNodeNumber = Some 1, GCCpuGroup = True,
      sizing_call_ok = False, sizing_call_LastError = 122, sizing_call_cbSLPIEx = 128,
      buffer_allocated = True, fill_call_ok = True, fill_call_cbSLPIEx = 128,
      fill_call_records =
        [\<lparr>Relationship = RelationGroup, Size = 128, ActiveGroupCount = 2,
          GroupInfo = (!) [\<lparr>ActiveProcessorCount = 64,
                             ActiveProcessorMask = 0xFFFFFFFFFFFFFFFF\<rparr>,
                           \<lparr>ActiveProcessorCount = 48,
                             ActiveProcessorMask = 0xFFFFFFFFFFFF\<rparr>]\<rparr>],
      array_allocated = True,
      GetProcessAffinityMask = Some (0xFFFFFFFFFFFFFFFF, 0xFFFFFFFFFFFFFFFF)\<rparr>"
  let ?g1 = "\<lparr>nr_active = 64, grp_begin = 0, grp_end = 63, active_mask = 0xFFFFFFFFFFFFFFFF,
       groupWeight = 3, activeThreadWeight = 0\<rparr>"
  let ?g2 = "\<lparr>nr_active = 48, grp_begin = 64, grp_end = 111, active_mask = 0xFFFFFFFFFFFF,
       groupWeight = 4, activeThreadWeight = 0\<rparr>"
  let ?s = "\<lparr>g_SystemInfo =
        \<lparr>dwNumberOfProcessors = 64, dwPageSize = 0x1000,
         dwAllocationGranularity = 0x10000\<rparr>,
      g_fEnableGCNumaAware = False, g_fEnableGCCPUGroups = True,
      g_fHadSingleProcessorAtStartup = False, g_nGroups = 2, g_nProcessors = 112,
      g_CPUGroupInfoArray = [?g1, ?g2]\<rparr>"
  have init: "Initialize ?os initial_topology_globals = Inr (True, ?s)"
    by code_simp
  have enabled: "g_fEnableGCCPUGroups ?s"
    by simp
  have total: "unat (GetTotalProcessorCount ?s) = 112"
    by (simp add: GetTotalProcessorCount_def CanEnableGCCPUGroups_def)
  note part = group_ranges_partition [OF init enabled, unfolded total]
  from part have sum: "sum_list (map (unat \<circ> nr_active) (g_CPUGroupInfoArray ?s)) = 112"
    by (rule conjunct1)
  have lt: "(112::nat) < 65536" by simp
  have i70: "(70::nat) < 112" by simp
  note look = part [THEN conjunct2, THEN mp, OF lt, THEN conjunct2, THEN conjunct2,
      THEN spec, THEN mp, OF i70]
  from look obtain k where k: "k < length (g_CPUGroupInfoArray ?s)"
    and g: "GetGroupForProcessor ?s (of_nat 70)
        = Inr (Some (of_nat k, of_nat 70 - grp_begin (g_CPUGroupInfoArray ?s ! k)))"
    and uniq: "\<forall>j < length (g_CPUGroupInfoArray ?s).
         unat (grp_begin (g_CPUGroupInfoArray ?s ! j)) \<le> 70 \<and>
         70 \<le> unat (grp_end (g_CPUGroupInfoArray ?s ! j)) \<longrightarrow> j = k"
    by blast
  from uniq have "1 = k"
    by (elim allE [of _ 1]) simp
  with g have "GetGroupForProcessor ?s 70 = Inr (Some (1, 6))"
    by simp
  with sum show ?thesis by simp
qed

text \<open>
  C7. The first call of \<^verbatim>\<open>GetLogicalProcessorInformationEx\<close> fails with an error other
  than \<^verbatim>\<open>ERROR_INSUFFICIENT_BUFFER\<close> and reports no size. The test after the call asks
  for a call that succeeded, so it does not return; \<^verbatim>\<open>assert(cbSLPIEx)\<close> fails and
  \<open>Initialize\<close> does not complete.
\<close>

theorem Initialize_sizing_failure_asserts:
  "Initialize
     \<lparr>GetSystemInfo = \<lparr>dwNumberOfProcessors = 8, dwPageSize = 0x1000,
                        dwAllocationGranularity = 0x10000\<rparr>,
      GCNumaAware = False, GetNumaHighestNodeNumber = None, GCCpuGroup = True,
      sizing_call_ok = False, sizing_call_LastError = 50, sizing_call_cbSLPIEx = 0,
      buffer_allocated = True, fill_call_ok = False, fill_call_cbSLPIEx = 0,
      fill_call_records = [], array_allocated = True,
      GetProcessAffinityMask = Some (0xFF, 0xFF)\<rparr>
     initial_topology_globals
   = Inl AssertionFailed"
  by (simp add: Initialize_def InitCPUGroupInfo_def InitCPUGroupInfoArray_def
      InitNumaNodeInfo_def ERROR_INSUFFICIENT_BUFFER_def)

text \<open>
  The other ways in which the discovery can fail do degrade: the configuration switched
  off, the first call succeeding with another last error, either allocation failing (the
  second one after a search for the group record that ended), the second call failing. In
  each, \<open>Initialize\<close> returns \<open>True\<close> with the groups disabled; and the groups are
  enabled only when more than one group was reported.
\<close>

lemma discovery_failure_degrades:
  assumes page: "dwPageSize (GetSystemInfo os) = 0x1000"
    and failure: "\<not> GCCpuGroup os \<or>
       (sizing_call_ok os \<and> sizing_call_LastError os \<noteq> ERROR_INSUFFICIENT_BUFFER) \<or>
       (sizing_call_cbSLPIEx os \<noteq> 0 \<and>
          (\<not> buffer_allocated os \<or> \<not> fill_call_ok os \<or>
           (\<not> array_allocated os \<and>
            (\<exists>found. find_group_record (fill_call_records os) 0 (fill_call_cbSLPIEx os)
               = Inr found))))"
  shows "\<exists>s. Initialize os initial_topology_globals = Inr (True, s) \<and>
              \<not> g_fEnableGCCPUGroups s"
proof (cases "GCCpuGroup os")
  case False
  with page show ?thesis
    by (simp add: Initialize_def InitCPUGroupInfo_def InitNumaNodeInfo_def Let_def)
next
  case True
  let ?s = "(InitNumaNodeInfo os
      (initial_topology_globals\<lparr>g_SystemInfo := GetSystemInfo os\<rparr>))
      \<lparr>g_fEnableGCCPUGroups := False\<rparr>"
  from True failure have "\<exists>s1. InitCPUGroupInfoArray os ?s = Inr (False, s1)"
    by (auto simp add: InitCPUGroupInfoArray_def Let_def split: option.splits)
  then obtain s1 where a: "InitCPUGroupInfoArray os ?s = Inr (False, s1)"
    by blast
  from InitCPUGroupInfoArray_flag [OF a] have "\<not> g_fEnableGCCPUGroups s1"
    by simp
  with True page a show ?thesis
    by (simp add: Initialize_def InitCPUGroupInfo_def Let_def)
qed

lemma single_group_disabled:
  assumes "Initialize os s0 = Inr (ok, s)" and "g_fEnableGCCPUGroups s"
  shows "1 < g_nGroups s"
proof -
  from assms(1) obtain s1 where "InitCPUGroupInfo os s1 = Inr s"
    by (auto simp add: Initialize_def Let_def split: if_splits sum.splits)
  from InitCPUGroupInfo_enabled [OF this assms(2)] show ?thesis
    by blast
qed

subsection \<open>Cache size\<close>

lemma greatest_cache_size_fold:
  "greatest_cache_size entries last_cache_size
     = fold max (reported_cache_sizes entries) last_cache_size"
  by (induction entries arbitrary: last_cache_size)
    (simp_all add: reported_cache_sizes_def max.commute)

lemma greatest_cache_size_Max:
  "greatest_cache_size entries last_cache_size
     = Max (set (last_cache_size # reported_cache_sizes entries))"
  by (simp only: greatest_cache_size_fold Max.set_eq_fold)

lemma unat_ucast_dword_size: "unat (ucast (d :: DWORD) :: size_t) = unat d"
  by (simp add: unsigned_ucast_eq take_bit_nat_eq_self unsigned_less [THEN less_trans])

lemma greatest_cache_size_bound:
  "unat last_cache_size < 2 ^ 32 \<Longrightarrow>
     unat (greatest_cache_size entries last_cache_size) < 2 ^ 32"
proof (induction entries arbitrary: last_cache_size)
  case Nil
  then show ?case by simp
next
  case (Cons entry entries)
  have "unat (ucast (Cache_Size entry) :: size_t) < 2 ^ 32"
    using unsigned_less [of "Cache_Size entry"] by (simp add: unat_ucast_dword_size)
  with Cons.prems have "unat (max last_cache_size (ucast (Cache_Size entry))) < 2 ^ 32"
    by (simp add: max_def)
  with Cons.prems Cons.IH show ?case by simp
qed

lemma cache_size_from_os_bound:
  "GetLogicalProcessorCacheSizeFromOS os = Inr v \<Longrightarrow> unat v < 2 ^ 32"
  using greatest_cache_size_bound [of 0]
  by (auto simp add: GetLogicalProcessorCacheSizeFromOS_def
      split: sum.splits option.splits prod.splits)

lemma triple_no_wrap: "unat v < 2 ^ 32 \<Longrightarrow> unat (v * 3) = 3 * unat v" for v :: size_t
proof -
  assume "unat v < 2 ^ 32"
  then have "unat v * unat (3 :: size_t) < 2 ^ LENGTH(64)" by simp
  then have "unat (v * 3) = unat v * unat (3 :: size_t)"
    by (rule unat_mult_lem [THEN iffD1])
  then show ?thesis by simp
qed

lemma vendors_exclusive: "is_GenuineIntel os \<Longrightarrow> \<not> is_AuthenticAMD os"
  by (auto simp add: is_GenuineIntel_def is_AuthenticAMD_def split: prod.splits)

lemma cache_size_from_os_largest:
  assumes "GetLogicalProcessorCacheSizeFromOS os = Inr x"
  shows "x = (case GetLPI os of
                Inr (Some (nEntries, pslpi)) \<Rightarrow>
                  Max (set (0 # reported_cache_sizes (map pslpi [0..<unat nEntries])))
              | _ \<Rightarrow> 0)"
  using assms
  by (auto simp add: GetLogicalProcessorCacheSizeFromOS_def greatest_cache_size_Max
      split: sum.splits option.splits)

lemma deduce_cache_size_initial:
  assumes "deduce_cache_size tgt os initial_cache_statics = Inr s"
  shows "unat (maxSize s) = (if scales_cache_size tgt os then 3 * unat (maxTrueSize s)
                             else unat (maxTrueSize s)) \<and>
         (tgt = ARM64 \<or> is_GenuineIntel os \<longrightarrow>
            GetLogicalProcessorCacheSizeFromOS os = Inr (maxTrueSize s))"
proof (cases tgt)
  case ARM64
  with assms obtain size_from_os where
    o: "GetLogicalProcessorCacheSizeFromOS os = Inr size_from_os"
    and s: "s = initial_cache_statics\<lparr>maxTrueSize := size_from_os,
                                        maxSize := size_from_os * 3\<rparr>"
    by (auto simp add: deduce_cache_size_def split: sum.splits)
  from triple_no_wrap [OF cache_size_from_os_bound [OF o]] o s ARM64 show ?thesis
    by (simp add: scales_cache_size_def)
next
  case AMD64
  show ?thesis
  proof (cases "is_GenuineIntel os")
    case True
    then have namd: "\<not> is_AuthenticAMD os" by (rule vendors_exclusive)
    from assms AMD64 True namd obtain size_from_os where
      o: "GetLogicalProcessorCacheSizeFromOS os = Inr size_from_os"
      and s: "s = (if 2 \<le>s fst (cpuid_0 os)
                   then initial_cache_statics\<lparr>maxTrueSize := size_from_os,
                                              maxSize := size_from_os * 3\<rparr>
                   else initial_cache_statics\<lparr>maxTrueSize := size_from_os,
                                              maxSize := size_from_os\<rparr>)"
      by (auto simp add: deduce_cache_size_def Let_def split: sum.splits if_splits)
    from triple_no_wrap [OF cache_size_from_os_bound [OF o]] o s AMD64 True show ?thesis
      by (simp add: scales_cache_size_def)
  next
    case False
    with assms AMD64 have "maxSize s = maxTrueSize s"
      by (auto simp add: deduce_cache_size_def initial_cache_statics_def split: if_splits)
    with AMD64 False show ?thesis
      by (simp add: scales_cache_size_def)
  qed
qed

text \<open>
  The bit fields of the AMD branch as numbers, and with them the size the branch computes.
\<close>

lemma field_nat:
  "unat (drop_bit n ((x :: DWORD) AND push_bit n (mask k))) = (unat x div 2 ^ n) mod 2 ^ k"
proof -
  have "drop_bit n (x AND push_bit n (mask k)) = take_bit k (drop_bit n x)"
    by (auto simp add: bit_eq_iff bit_simps dest: bit_imp_le_length)
  then have "unat (drop_bit n (x AND push_bit n (mask k))) = unat (take_bit k (drop_bit n x))"
    by (rule arg_cong)
  also have "\<dots> = take_bit k (drop_bit n (unat x))"
    by (simp only: unsigned_take_bit_eq unat_drop_bit_eq)
  also have "\<dots> = (unat x div 2 ^ n) mod 2 ^ k"
    by (simp only: take_bit_eq_mod drop_bit_eq_div)
  finally show ?thesis .
qed

lemma field_nat_4: "unat (drop_bit n ((x :: DWORD) AND push_bit n 0xF)) = (unat x div 2 ^ n) mod 16"
  using field_nat [of n x 4] by (simp add: mask_eq_exp_minus_1)

lemma field_nat_8: "unat (drop_bit n ((x :: DWORD) AND push_bit n 0xFF)) = (unat x div 2 ^ n) mod 256"
  using field_nat [of n x 8] by (simp add: mask_eq_exp_minus_1)

lemma low_byte_nat: "unat ((x :: DWORD) AND 0xFF) = unat x mod 256"
  using field_nat [of 0 x 8] by (simp add: mask_eq_exp_minus_1)

lemma nibbles_or_nat:
  assumes "b < (16::nat)"
  shows "push_bit 4 e OR b = 16 * e + b"
proof -
  have "push_bit 4 e + b = push_bit 4 e OR b"
  proof (rule disjunctive_add)
    fix n
    show "\<not> bit (push_bit 4 e) n \<or> \<not> bit b n"
    proof (cases "4 \<le> n")
      case True
      then have "(2::nat) ^ 4 \<le> 2 ^ n" by (intro power_increasing) simp_all
      with assms have "b < 2 ^ n" by simp
      then have "\<not> bit b n" by (simp add: bit_iff_odd)
      then show ?thesis ..
    next
      case False
      then have "\<not> bit (push_bit 4 e) n" by (simp add: bit_push_bit_iff)
      then show ?thesis ..
    qed
  qed
  then show ?thesis by (simp add: push_bit_eq_mult)
qed

lemma model_nat:
  assumes "unat (e :: DWORD) < 16" and "unat (b :: DWORD) < 16"
  shows "unat (push_bit 4 e OR b) = 16 * unat e + unat b"
proof -
  have "push_bit 4 (unat e) < 2 ^ 32"
    using assms(1) by (simp add: push_bit_eq_mult)
  then have "unat (push_bit 4 e) = push_bit 4 (unat e)"
    by (simp add: unsigned_push_bit_eq take_bit_nat_eq_self)
  then have "unat (push_bit 4 e OR b) = push_bit 4 (unat e) OR unat b"
    by (simp only: unsigned_or_eq)
  with nibbles_or_nat [OF assms(2)] show ?thesis by simp
qed

lemma family_word_nat:
  "unat (let dwBaseFamily = drop_bit 8 ((eax1 :: DWORD) AND push_bit 8 0xF);
             dwExtFamily = drop_bit 20 (eax1 AND push_bit 20 0xFF)
         in if 0xF \<le> dwBaseFamily then dwBaseFamily + dwExtFamily else dwBaseFamily)
   = amd_family eax1"
proof -
  let ?b = "drop_bit 8 (eax1 AND push_bit 8 0xF)"
  let ?e = "drop_bit 20 (eax1 AND push_bit 20 0xFF)"
  have b: "unat ?b = unat eax1 div 2 ^ 8 mod 16" by (rule field_nat_4)
  have e: "unat ?e = unat eax1 div 2 ^ 20 mod 256" by (rule field_nat_8)
  have "unat ?b + unat ?e < 2 ^ LENGTH(32)"
    unfolding b e by (rule less_trans [of _ "16 + 256"]) (simp_all add: add_strict_mono)
  then have s: "unat (?b + ?e) = unat ?b + unat ?e"
    by (rule unat_add_lem [THEN iffD1])
  have c: "(0xF \<le> ?b) = (15 \<le> unat ?b)" by (simp add: word_le_nat_alt)
  show ?thesis
    unfolding Let_def amd_family_def c
    by (simp only: s b e if_distrib [of unat])
qed

lemma model_word_nat:
  "unat (if 0xF \<le> drop_bit 8 ((eax1 :: DWORD) AND push_bit 8 0xF)
         then push_bit 4 (drop_bit 16 (eax1 AND push_bit 16 0xF))
                OR drop_bit 4 (eax1 AND push_bit 4 0xF)
         else drop_bit 4 (eax1 AND push_bit 4 0xF))
   = amd_model eax1"
proof -
  let ?b = "drop_bit 8 (eax1 AND push_bit 8 0xF)"
  let ?bm = "drop_bit 4 (eax1 AND push_bit 4 0xF)"
  let ?em = "drop_bit 16 (eax1 AND push_bit 16 0xF)"
  have b: "unat ?b = unat eax1 div 2 ^ 8 mod 16" by (rule field_nat_4)
  have bm: "unat ?bm = unat eax1 div 2 ^ 4 mod 16" by (rule field_nat_4)
  have em: "unat ?em = unat eax1 div 2 ^ 16 mod 16" by (rule field_nat_4)
  have "unat (push_bit 4 ?em OR ?bm) = 16 * unat ?em + unat ?bm"
  proof (rule model_nat)
    show "unat ?em < 16" unfolding em by simp
    show "unat ?bm < 16" unfolding bm by simp
  qed
  then have m: "unat (push_bit 4 ?em OR ?bm)
      = 16 * (unat eax1 div 2 ^ 16 mod 16) + unat eax1 div 2 ^ 4 mod 16"
    by (simp only: bm em)
  have c: "(0xF \<le> ?b) = (15 \<le> unat eax1 div 2 ^ 8 mod 16)"
    unfolding b [symmetric] by (simp add: word_le_nat_alt)
  show ?thesis
    unfolding Let_def amd_model_def c
    by (simp only: m bm if_distrib [of unat])
qed

lemma l2_size_nat:
  "unat (ucast (drop_bit 16 (ecx6 :: DWORD) * 1024) :: size_t) = unat ecx6 div 2 ^ 16 * 1024"
proof -
  have d: "unat (drop_bit 16 ecx6) = unat ecx6 div 2 ^ 16"
    unfolding unat_drop_bit_eq by (rule drop_bit_eq_div)
  have "unat ecx6 < 2 ^ 32" using unsigned_less [of ecx6] by simp
  then have "unat ecx6 div 2 ^ 16 < 2 ^ 16" by (simp add: less_mult_imp_div_less)
  then have "unat (drop_bit 16 ecx6) * unat (1024 :: DWORD) < 2 ^ LENGTH(32)"
    unfolding d by simp
  then have "unat (drop_bit 16 ecx6 * 1024) = unat (drop_bit 16 ecx6) * unat (1024 :: DWORD)"
    by (rule unat_mult_lem [THEN iffD1])
  then show ?thesis
    by (simp only: unat_ucast_dword_size d) simp
qed

lemma l3_share_nat:
  "unat ((drop_bit 18 (edx6 :: DWORD) * 512 * 1024) div (((ecx8 :: DWORD) AND 0xFF) + 1))
     = (unat edx6 div 2 ^ 18 * 524288 mod 2 ^ 32) div (unat ecx8 mod 256 + 1)"
proof -
  have d: "unat (drop_bit 18 edx6) = unat edx6 div 2 ^ 18"
    unfolding unat_drop_bit_eq by (rule drop_bit_eq_div)
  have "drop_bit 18 edx6 * 512 * 1024 = drop_bit 18 edx6 * 524288" by simp
  then have n: "unat (drop_bit 18 edx6 * 512 * 1024) = unat edx6 div 2 ^ 18 * 524288 mod 2 ^ 32"
    by (simp only: unat_word_ariths d) simp
  have "unat (ecx8 AND 0xFF) + unat (1 :: DWORD) < 2 ^ LENGTH(32)"
    unfolding low_byte_nat by (rule less_trans [of _ "256 + 1"]) simp_all
  then have "unat ((ecx8 AND 0xFF) + 1) = unat (ecx8 AND 0xFF) + unat (1 :: DWORD)"
    by (rule unat_add_lem [THEN iffD1])
  then have c: "unat ((ecx8 AND 0xFF) + 1) = unat ecx8 mod 256 + 1"
    by (simp only: low_byte_nat) simp
  show ?thesis
    by (simp only: unat_div n c)
qed

lemma amd_true_size_nat: "unat (amd_true_size os) = amd_cache_bytes os"
proof -
  obtain eax6 ebx6 ecx6 edx6 where c6: "cpuid_80000006 os = (eax6, ebx6, ecx6, edx6)"
    by (cases "cpuid_80000006 os") auto
  obtain eax1 ebx1 ecx1 edx1 where c1: "cpuid_1 os = (eax1, ebx1, ecx1, edx1)"
    by (cases "cpuid_1 os") auto
  obtain eax8 ebx8 ecx8 edx8 where c8: "cpuid_80000008 os = (eax8, ebx8, ecx8, edx8)"
    by (cases "cpuid_80000008 os") auto
  let ?b = "drop_bit 8 (eax1 AND push_bit 8 0xF)"
  let ?fam = "if 0xF \<le> ?b then ?b + drop_bit 20 (eax1 AND push_bit 20 0xFF) else ?b"
  let ?model = "if 0xF \<le> ?b
                then push_bit 4 (drop_bit 16 (eax1 AND push_bit 16 0xF))
                       OR drop_bit 4 (eax1 AND push_bit 4 0xF)
                else drop_bit 4 (eax1 AND push_bit 4 0xF)"
  let ?l2 = "ucast (drop_bit 16 ecx6 * 1024) :: size_t"
  let ?l3 = "(drop_bit 18 edx6 * 512 * 1024) div ((ecx8 AND 0xFF) + 1)"
  have fam: "unat ?fam = amd_family eax1"
    using family_word_nat [of eax1] by (simp only: Let_def)
  have model: "unat ?model = amd_model eax1" by (rule model_word_nat)
  have f16: "(0x10 \<le> ?fam) = (16 \<le> amd_family eax1)"
    unfolding fam [symmetric] word_le_nat_alt by simp
  have feq: "(?fam = 0x10) = (amd_family eax1 = 16)"
    unfolding fam [symmetric] word_unat_eq_iff by simp
  have meq: "(?model = 0x2) = (amd_model eax1 = 2)"
    unfolding model [symmetric] word_unat_eq_iff by simp
  have l2: "unat ?l2 = unat ecx6 div 2 ^ 16 * 1024" by (rule l2_size_nat)
  have l3: "unat ?l3 = (unat edx6 div 2 ^ 18 * 524288 mod 2 ^ 32) div (unat ecx8 mod 256 + 1)"
    by (rule l3_share_nat)
  have "unat ?l2 < 2 ^ 32"
    unfolding unat_ucast_dword_size
    using unsigned_less [of "drop_bit 16 ecx6 * 1024", where 'a = nat] by simp
  moreover have "unat (ucast ?l3 :: size_t) < 2 ^ 32"
    unfolding unat_ucast_dword_size
    using unsigned_less [of ?l3, where 'a = nat] by simp
  ultimately have "unat ?l2 + unat (ucast ?l3 :: size_t) < 2 ^ LENGTH(64)" by simp
  then have "unat (?l2 + ucast ?l3) = unat ?l2 + unat (ucast ?l3 :: size_t)"
    by (rule unat_add_lem [THEN iffD1])
  also have "unat (ucast ?l3 :: size_t) = unat ?l3" by (rule unat_ucast_dword_size)
  finally have sum: "unat (?l2 + ucast ?l3)
      = unat ecx6 div 2 ^ 16 * 1024
        + (unat edx6 div 2 ^ 18 * 524288 mod 2 ^ 32) div (unat ecx8 mod 256 + 1)"
    unfolding l2 l3 .
  show ?thesis
    unfolding amd_true_size_def amd_cache_bytes_def c6 c1 c8 prod.case Let_def f16 feq meq
    by (simp only: if_distrib [of unat] sum l2 add_0_right split: if_splits) auto
qed

lemma deduce_cache_size_other:
  assumes "deduce_cache_size AMD64 os initial_cache_statics = Inr s"
    and "\<not> is_GenuineIntel os"
  shows "unat (maxTrueSize s) =
           (if is_AuthenticAMD os \<and> 0x80000006 \<le> fst (cpuid_80000000 os)
            then amd_cache_bytes os else 0)"
  using assms
  by (auto simp add: deduce_cache_size_def initial_cache_statics_def amd_true_size_nat
      split: if_splits)

text \<open>
  C8, as amended. A first call (the statics still 0) that returns leaves the statics such
  that:
  \<^item> the value returned is \<^verbatim>\<open>maxTrueSize\<close> for \<open>trueSize\<close> and \<^verbatim>\<open>maxSize\<close> otherwise;
  \<^item> \<^verbatim>\<open>maxSize\<close> is three times \<^verbatim>\<open>maxTrueSize\<close> on ARM64 and on AMD64 with a GenuineIntel
    processor whose highest CPUID leaf is at least 2, and equal to it elsewhere;
  \<^item> on ARM64 and on GenuineIntel \<^verbatim>\<open>maxTrueSize\<close> is the largest cache size among the
    entries \<^verbatim>\<open>GetLogicalProcessorInformation\<close> delivered, and 0 when there is no cache
    entry or the enumeration is unavailable;
  \<^item> on AMD64 with another processor \<^verbatim>\<open>maxTrueSize\<close> is, for AuthenticAMD with CPUID leaf
    \<^verbatim>\<open>0x80000006\<close>, the size deduced from CPUID (L2 plus the share of L3 per core), not what
    the operating system reports, and 0 otherwise;
  \<^item> if \<^verbatim>\<open>maxSize\<close> is not 0, the pair is cached: every later call returns the same two
    values and leaves the statics alone, whatever the processor and the operating system
    answer then.
\<close>

theorem cache_size_cached:
  assumes "GetCacheSizePerLogicalCpu tgt os trueSize initial_cache_statics = Inr (v, s)"
  shows "v = (if trueSize then maxTrueSize s else maxSize s) \<and>
         unat (maxSize s) = (if scales_cache_size tgt os then 3 * unat (maxTrueSize s)
                             else unat (maxTrueSize s)) \<and>
         (tgt = ARM64 \<or> is_GenuineIntel os \<longrightarrow>
            maxTrueSize s =
              (case GetLPI os of
                 Inr (Some (nEntries, pslpi)) \<Rightarrow>
                   Max (set (0 # reported_cache_sizes (map pslpi [0..<unat nEntries])))
               | _ \<Rightarrow> 0)) \<and>
         (tgt = AMD64 \<and> \<not> is_GenuineIntel os \<longrightarrow>
            unat (maxTrueSize s) =
              (if is_AuthenticAMD os \<and> 0x80000006 \<le> fst (cpuid_80000000 os)
               then amd_cache_bytes os else 0)) \<and>
         (maxSize s \<noteq> 0 \<longrightarrow>
            (\<forall>os' trueSize'. GetCacheSizePerLogicalCpu tgt os' trueSize' s
               = Inr (if trueSize' then maxTrueSize s else maxSize s, s)))"
proof -
  from assms have d: "deduce_cache_size tgt os initial_cache_statics = Inr s"
    and v: "v = (if trueSize then maxTrueSize s else maxSize s)"
    by (auto simp add: GetCacheSizePerLogicalCpu_def initial_cache_statics_def
        split: sum.splits)
  have cached: "maxSize s \<noteq> 0 \<longrightarrow>
      (\<forall>os' trueSize'. GetCacheSizePerLogicalCpu tgt os' trueSize' s
         = Inr (if trueSize' then maxTrueSize s else maxSize s, s))"
    by (simp add: GetCacheSizePerLogicalCpu_def)
  from deduce_cache_size_initial [OF d]
  have scale: "unat (maxSize s) = (if scales_cache_size tgt os then 3 * unat (maxTrueSize s)
                             else unat (maxTrueSize s))"
    and os: "tgt = ARM64 \<or> is_GenuineIntel os \<longrightarrow>
            GetLogicalProcessorCacheSizeFromOS os = Inr (maxTrueSize s)"
    by simp_all
  have largest: "tgt = ARM64 \<or> is_GenuineIntel os \<longrightarrow>
            maxTrueSize s =
              (case GetLPI os of
                 Inr (Some (nEntries, pslpi)) \<Rightarrow>
                   Max (set (0 # reported_cache_sizes (map pslpi [0..<unat nEntries])))
               | _ \<Rightarrow> 0)"
    using os cache_size_from_os_largest [of os "maxTrueSize s"] by blast
  have other: "tgt = AMD64 \<and> \<not> is_GenuineIntel os \<longrightarrow>
            unat (maxTrueSize s) =
              (if is_AuthenticAMD os \<and> 0x80000006 \<le> fst (cpuid_80000000 os)
               then amd_cache_bytes os else 0)"
    using d deduce_cache_size_other [of os s] by blast
  from v scale largest other cached show ?thesis
    by (intro conjI)
qed

text \<open>
  C8 as stated fails in two ways. The first deduction may yield 0, which is also the mark
  of "not yet computed": on a GenuineIntel processor, a first call during which the
  allocation in \<^verbatim>\<open>GetLPI\<close> fails returns 0 and caches nothing; a later call, the allocation
  succeeding, computes again and returns 8388608. And the true size is not always the size
  of the largest cache: on an AuthenticAMD processor of family \<^verbatim>\<open>0x17\<close> with 512 KB of L2
  and 8 MB of L3 shared by 4 cores, the true size is 512 KB + 8 MB / 4 = 2621440, and on a
  processor of another vendor (here \<^verbatim>\<open>CentaurHauls\<close>) it is 0, while the largest cache the
  operating system reports has 8388608 bytes in both cases.
\<close>

theorem cache_size_cached_counterexample:
  "GetCacheSizePerLogicalCpu AMD64
     \<lparr>cpuid_0 = (0x16, 0x756E6547, 0x6C65746E, 0x49656E69),
      cpuid_1 = (0x906EA, 0, 0, 0), cpuid_80000000 = (0x80000008, 0, 0, 0),
      cpuid_80000006 = (0, 0, 0x01006040, 0), cpuid_80000008 = (0x3027, 0, 0, 0),
      glpi_sizing_ok = False, glpi_sizing_LastError = 122, glpi_sizing_cbslpi = 128,
      glpi_allocated = False, glpi_fill_ok = True,
      glpi_entries = (!)
        [\<lparr>slpi_Relationship = RelationProcessorCore, Cache_Size = 0\<rparr>,
         \<lparr>slpi_Relationship = RelationCache, Cache_Size = 32768\<rparr>,
         \<lparr>slpi_Relationship = RelationCache, Cache_Size = 262144\<rparr>,
         \<lparr>slpi_Relationship = RelationCache, Cache_Size = 8388608\<rparr>]\<rparr>
     True initial_cache_statics
   = Inr (0, \<lparr>maxSize = 0, maxTrueSize = 0\<rparr>) \<and>
   GetCacheSizePerLogicalCpu AMD64
     \<lparr>cpuid_0 = (0x16, 0x756E6547, 0x6C65746E, 0x49656E69),
      cpuid_1 = (0x906EA, 0, 0, 0), cpuid_80000000 = (0x80000008, 0, 0, 0),
      cpuid_80000006 = (0, 0, 0x01006040, 0), cpuid_80000008 = (0x3027, 0, 0, 0),
      glpi_sizing_ok = False, glpi_sizing_LastError = 122, glpi_sizing_cbslpi = 128,
      glpi_allocated = True, glpi_fill_ok = True,
      glpi_entries = (!)
        [\<lparr>slpi_Relationship = RelationProcessorCore, Cache_Size = 0\<rparr>,
         \<lparr>slpi_Relationship = RelationCache, Cache_Size = 32768\<rparr>,
         \<lparr>slpi_Relationship = RelationCache, Cache_Size = 262144\<rparr>,
         \<lparr>slpi_Relationship = RelationCache, Cache_Size = 8388608\<rparr>]\<rparr>
     True \<lparr>maxSize = 0, maxTrueSize = 0\<rparr>
   = Inr (8388608, \<lparr>maxSize = 25165824, maxTrueSize = 8388608\<rparr>) \<and>
   GetCacheSizePerLogicalCpu AMD64
     \<lparr>cpuid_0 = (0xD, 0x68747541, 0x444D4163, 0x69746E65),
      cpuid_1 = (0x00800F11, 0, 0, 0), cpuid_80000000 = (0x8000001F, 0, 0, 0),
      cpuid_80000006 = (0, 0, 0x02006140, 0x00409140),
      cpuid_80000008 = (0x3030, 0, 0x00004003, 0),
      glpi_sizing_ok = False, glpi_sizing_LastError = 122, glpi_sizing_cbslpi = 128,
      glpi_allocated = True, glpi_fill_ok = True,
      glpi_entries = (!)
        [\<lparr>slpi_Relationship = RelationProcessorCore, Cache_Size = 0\<rparr>,
         \<lparr>slpi_Relationship = RelationCache, Cache_Size = 32768\<rparr>,
         \<lparr>slpi_Relationship = RelationCache, Cache_Size = 524288\<rparr>,
         \<lparr>slpi_Relationship = RelationCache, Cache_Size = 8388608\<rparr>]\<rparr>
     True initial_cache_statics
   = Inr (2621440, \<lparr>maxSize = 2621440, maxTrueSize = 2621440\<rparr>) \<and>
   GetCacheSizePerLogicalCpu AMD64
     \<lparr>cpuid_0 = (0xD, 0x746E6543, 0x736C7561, 0x48727561),
      cpuid_1 = (0x6FE, 0, 0, 0), cpuid_80000000 = (0x80000008, 0, 0, 0),
      cpuid_80000006 = (0, 0, 0x01006040, 0), cpuid_80000008 = (0x3028, 0, 0, 0),
      glpi_sizing_ok = False, glpi_sizing_LastError = 122, glpi_sizing_cbslpi = 128,
      glpi_allocated = True, glpi_fill_ok = True,
      glpi_entries = (!)
        [\<lparr>slpi_Relationship = RelationProcessorCore, Cache_Size = 0\<rparr>,
         \<lparr>slpi_Relationship = RelationCache, Cache_Size = 32768\<rparr>,
         \<lparr>slpi_Relationship = RelationCache, Cache_Size = 524288\<rparr>,
         \<lparr>slpi_Relationship = RelationCache, Cache_Size = 8388608\<rparr>]\<rparr>
     True initial_cache_statics
   = Inr (0, \<lparr>maxSize = 0, maxTrueSize = 0\<rparr>) \<and>
   Max (set (reported_cache_sizes
        [\<lparr>slpi_Relationship = RelationProcessorCore, Cache_Size = 0\<rparr>,
         \<lparr>slpi_Relationship = RelationCache, Cache_Size = 32768\<rparr>,
         \<lparr>slpi_Relationship = RelationCache, Cache_Size = 524288\<rparr>,
         \<lparr>slpi_Relationship = RelationCache, Cache_Size = 8388608\<rparr>]))
   = 8388608"
  by code_simp

text \<open>
  Two instances of the amended C8: the GenuineIntel processor above, whose values are then
  cached, and the AuthenticAMD processor, whose true size is the one deduced from CPUID.
\<close>

theorem cache_size_cached_witness:
  "GetCacheSizePerLogicalCpu AMD64
     \<lparr>cpuid_0 = (0x16, 0x756E6547, 0x6C65746E, 0x49656E69),
      cpuid_1 = (0x906EA, 0, 0, 0), cpuid_80000000 = (0x80000008, 0, 0, 0),
      cpuid_80000006 = (0, 0, 0x01006040, 0), cpuid_80000008 = (0x3027, 0, 0, 0),
      glpi_sizing_ok = False, glpi_sizing_LastError = 122, glpi_sizing_cbslpi = 128,
      glpi_allocated = True, glpi_fill_ok = True,
      glpi_entries = (!)
        [\<lparr>slpi_Relationship = RelationProcessorCore, Cache_Size = 0\<rparr>,
         \<lparr>slpi_Relationship = RelationCache, Cache_Size = 32768\<rparr>,
         \<lparr>slpi_Relationship = RelationCache, Cache_Size = 262144\<rparr>,
         \<lparr>slpi_Relationship = RelationCache, Cache_Size = 8388608\<rparr>]\<rparr>
     False initial_cache_statics
   = Inr (25165824, \<lparr>maxSize = 25165824, maxTrueSize = 8388608\<rparr>) \<and>
   (\<forall>os' trueSize'.
      GetCacheSizePerLogicalCpu AMD64 os' trueSize'
        \<lparr>maxSize = 25165824, maxTrueSize = 8388608\<rparr>
      = Inr (if trueSize' then 8388608 else 25165824,
             \<lparr>maxSize = 25165824, maxTrueSize = 8388608\<rparr>)) \<and>
   GetCacheSizePerLogicalCpu AMD64
     \<lparr>cpuid_0 = (0xD, 0x68747541, 0x444D4163, 0x69746E65),
      cpuid_1 = (0x00800F11, 0, 0, 0), cpuid_80000000 = (0x8000001F, 0, 0, 0),
      cpuid_80000006 = (0, 0, 0x02006140, 0x00409140),
      cpuid_80000008 = (0x3030, 0, 0x00004003, 0),
      glpi_sizing_ok = False, glpi_sizing_LastError = 122, glpi_sizing_cbslpi = 128,
      glpi_allocated = True, glpi_fill_ok = True,
      glpi_entries = (!)
        [\<lparr>slpi_Relationship = RelationProcessorCore, Cache_Size = 0\<rparr>,
         \<lparr>slpi_Relationship = RelationCache, Cache_Size = 32768\<rparr>,
         \<lparr>slpi_Relationship = RelationCache, Cache_Size = 524288\<rparr>,
         \<lparr>slpi_Relationship = RelationCache, Cache_Size = 8388608\<rparr>]\<rparr>
     True initial_cache_statics
   = Inr (2621440, \<lparr>maxSize = 2621440, maxTrueSize = 2621440\<rparr>) \<and>
   amd_cache_bytes
     \<lparr>cpuid_0 = (0xD, 0x68747541, 0x444D4163, 0x69746E65),
      cpuid_1 = (0x00800F11, 0, 0, 0), cpuid_80000000 = (0x8000001F, 0, 0, 0),
      cpuid_80000006 = (0, 0, 0x02006140, 0x00409140),
      cpuid_80000008 = (0x3030, 0, 0x00004003, 0),
      glpi_sizing_ok = False, glpi_sizing_LastError = 122, glpi_sizing_cbslpi = 128,
      glpi_allocated = True, glpi_fill_ok = True,
      glpi_entries = (!)
        [\<lparr>slpi_Relationship = RelationProcessorCore, Cache_Size = 0\<rparr>,
         \<lparr>slpi_Relationship = RelationCache, Cache_Size = 32768\<rparr>,
         \<lparr>slpi_Relationship = RelationCache, Cache_Size = 524288\<rparr>,
         \<lparr>slpi_Relationship = RelationCache, Cache_Size = 8388608\<rparr>]\<rparr>
   = 2621440"
proof -
  let ?os = "\<lparr>cpuid_0 = (0x16, 0x756E6547, 0x6C65746E, 0x49656E69),
      cpuid_1 = (0x906EA, 0, 0, 0), cpuid_80000000 = (0x80000008, 0, 0, 0),
      cpuid_80000006 = (0, 0, 0x01006040, 0), cpuid_80000008 = (0x3027, 0, 0, 0),
      glpi_sizing_ok = False, glpi_sizing_LastError = 122, glpi_sizing_cbslpi = 128,
      glpi_allocated = True, glpi_fill_ok = True,
      glpi_entries = (!)
        [\<lparr>slpi_Relationship = RelationProcessorCore, Cache_Size = 0\<rparr>,
         \<lparr>slpi_Relationship = RelationCache, Cache_Size = 32768\<rparr>,
         \<lparr>slpi_Relationship = RelationCache, Cache_Size = 262144\<rparr>,
         \<lparr>slpi_Relationship = RelationCache, Cache_Size = 8388608\<rparr>]\<rparr>"
  let ?s = "\<lparr>maxSize = 25165824, maxTrueSize = 8388608\<rparr>"
  let ?amd = "\<lparr>cpuid_0 = (0xD, 0x68747541, 0x444D4163, 0x69746E65),
      cpuid_1 = (0x00800F11, 0, 0, 0), cpuid_80000000 = (0x8000001F, 0, 0, 0),
      cpuid_80000006 = (0, 0, 0x02006140, 0x00409140),
      cpuid_80000008 = (0x3030, 0, 0x00004003, 0),
      glpi_sizing_ok = False, glpi_sizing_LastError = 122, glpi_sizing_cbslpi = 128,
      glpi_allocated = True, glpi_fill_ok = True,
      glpi_entries = (!)
        [\<lparr>slpi_Relationship = RelationProcessorCore, Cache_Size = 0\<rparr>,
         \<lparr>slpi_Relationship = RelationCache, Cache_Size = 32768\<rparr>,
         \<lparr>slpi_Relationship = RelationCache, Cache_Size = 524288\<rparr>,
         \<lparr>slpi_Relationship = RelationCache, Cache_Size = 8388608\<rparr>]\<rparr>"
  let ?t = "\<lparr>maxSize = 2621440, maxTrueSize = 2621440\<rparr>"
  have first: "GetCacheSizePerLogicalCpu AMD64 ?os False initial_cache_statics
      = Inr (25165824, ?s)"
    by code_simp
  from cache_size_cached [OF first]
  have a: "\<forall>os' trueSize'.
      GetCacheSizePerLogicalCpu AMD64 os' trueSize' ?s
      = Inr (if trueSize' then 8388608 else 25165824, ?s)"
    by simp
  have second: "GetCacheSizePerLogicalCpu AMD64 ?amd True initial_cache_statics
      = Inr (2621440, ?t)"
    by code_simp
  have vendor: "\<not> is_GenuineIntel ?amd" "is_AuthenticAMD ?amd"
    "0x80000006 \<le> fst (cpuid_80000000 ?amd)"
    by (simp_all add: is_GenuineIntel_def is_AuthenticAMD_def)
  from cache_size_cached [OF second] vendor
  have b: "amd_cache_bytes ?amd = 2621440"
    by simp
  from first a second b show ?thesis by (intro conjI)
qed

end
